theory Spec2Isabelle
  imports Main "HOL-Library.AList"
begin

section \<open>ExeKGLib: construction and execution of executable knowledge graphs\<close>

text \<open>
  A shallow embedding of \<^verbatim>\<open>src/exe_kg_lib/classes/exe_kg.py\<close> (class \<open>ExeKG\<close>).
  Python exceptions and \<open>exit(1)\<close> are values of the type \<open>error\<close>; a method that
  mutates \<open>self\<close> returns the engine state next to its result, also when it fails,
  because the mutation of \<open>self.output_kg\<close> done before a raise stays done.
\<close>

subsection \<open>Errors\<close>

datatype error =
    SystemExit string
    \<comment> \<open>\<open>print(msg); exit(1)\<close>: the printed message\<close>
  | KeyError string
    \<comment> \<open>\<open>d[k]\<close> on a dict without the key \<open>k\<close>\<close>
  | IndexError
    \<comment> \<open>\<open>s.split("#")[1]\<close> on a string without \<open>#\<close>\<close>
  | TypeError_NoneType_not_callable
    \<comment> \<open>\<open>Class(...)\<close> where \<open>Class\<close> is \<open>None\<close>\<close>
  | TypeError_NoneType_concat
    \<comment> \<open>\<open>a + b\<close> where one of the two is \<open>None\<close>\<close>
  | AttributeError_NoneType string
    \<comment> \<open>\<open>x.attr\<close> where \<open>x\<close> is \<open>None\<close>: the attribute\<close>
  | AttributeError string
    \<comment> \<open>\<open>x.attr\<close> on an object without that attribute\<close>
  | NotAnIRI
    \<comment> \<open>a field value that is not a string, used where the IRI of a task is expected\<close>
  | InvalidParentEntityType
    \<comment> \<open>the naming allocator called for a class that is neither a task nor a method class\<close>
  | ExternalError string
    \<comment> \<open>a failure inside a collaborator that is outside this file (a task's \<open>run_method\<close>)\<close>

subsection \<open>Strings\<close>

text \<open>\<open>s.split("#")[1]\<close>: the text between the first \<open>#\<close> and the next one (or the
  end); \<open>None\<close> stands for the IndexError of a string without \<open>#\<close>.\<close>

definition split_hash_1 :: "string \<Rightarrow> string option" where
  "split_hash_1 s =
     (case dropWhile (\<lambda>c. c \<noteq> CHR ''#'') s of
        [] \<Rightarrow> None
      | _ # rest \<Rightarrow> Some (takeWhile (\<lambda>c. c \<noteq> CHR ''#'') rest))"

text \<open>\<open>"#" in s\<close>.\<close>

definition has_hash :: "string \<Rightarrow> bool" where
  "has_hash s = (CHR ''#'' \<in> set s)"

text \<open>\<open>str(n)\<close> on a Python int: decimal digits, most significant first.\<close>

definition digit_char :: "nat \<Rightarrow> char" where
  "digit_char d = char_of (48 + d)"

fun str_nat :: "nat \<Rightarrow> string" where
  "str_nat n = (if n < 10 then [digit_char n] else str_nat (n div 10) @ [digit_char (n mod 10)])"

declare str_nat.simps [simp del]

definition str_int :: "int \<Rightarrow> string" where
  "str_int i = (if i < 0 then CHR ''-'' # str_nat (nat (- i)) else str_nat (nat i))"

subsection \<open>The schema table\<close>

record schema_info =
  path :: string
  namespace :: string
  namespace_prefix :: string

definition ontology_base :: string where
  "ontology_base = ''https://raw.githubusercontent.com/nsai-uio/ExeKGOntology/main/''"

definition ds_schema_info :: schema_info where
  "ds_schema_info = \<lparr> path = ontology_base @ ''ds_exeKGOntology.ttl'',
     namespace = ontology_base @ ''ds_exeKGOntology.ttl#'', namespace_prefix = ''ds'' \<rparr>"

definition visu_schema_info :: schema_info where
  "visu_schema_info = \<lparr> path = ontology_base @ ''visu_exeKGOntology.ttl'',
     namespace = ontology_base @ ''visu_exeKGOntology.ttl#'', namespace_prefix = ''visu'' \<rparr>"

definition stats_schema_info :: schema_info where
  "stats_schema_info = \<lparr> path = ontology_base @ ''stats_exeKGOntology.ttl'',
     namespace = ontology_base @ ''stats_exeKGOntology.ttl#'', namespace_prefix = ''stats'' \<rparr>"

definition ml_schema_info :: schema_info where
  "ml_schema_info = \<lparr> path = ontology_base @ ''ml_exeKGOntology.ttl'',
     namespace = ontology_base @ ''ml_exeKGOntology.ttl#'', namespace_prefix = ''ml'' \<rparr>"

text \<open>The dict \<open>KG_SCHEMAS\<close>, in insertion order (the order \<open>.items()\<close> yields).\<close>

definition KG_SCHEMAS :: "(string \<times> schema_info) list" where
  "KG_SCHEMAS =
     [(''Data Science'', ds_schema_info),
      (''Visualization'', visu_schema_info),
      (''Statistics'', stats_schema_info),
      (''Machine Learning'', ml_schema_info)]"

subsection \<open>Detection of the bottom-level schema (\<open>ExeKG.__init__\<close>, execution mode)\<close>

text \<open>A namespace binding of the parsed graph: \<open>(prefix, URIRef namespace)\<close>.\<close>

type_synonym ns_binding = "string \<times> string"

definition binding_of :: "schema_info \<Rightarrow> ns_binding" where
  "binding_of si = (namespace_prefix si, namespace si)"

text \<open>The \<open>for schema_name, schema_info in KG_SCHEMAS.items()\<close> loop: the top-level
  and the Visualization schema are skipped (\<open>continue\<close>), the first schema whose binding
  is among the graph's namespaces is taken (\<open>break\<close>).\<close>

fun search_bottom_level_schema :: "(string \<times> schema_info) list \<Rightarrow> ns_binding list \<Rightarrow> schema_info option" where
  "search_bottom_level_schema [] all_ns = None"
| "search_bottom_level_schema ((schema_name, si) # rest) all_ns =
     (if schema_name = ''Data Science'' \<or> schema_name = ''Visualization''
      then search_bottom_level_schema rest all_ns
      else if binding_of si \<in> set all_ns then Some si
      else search_bottom_level_schema rest all_ns)"

definition detect_bottom_level_schema :: "ns_binding list \<Rightarrow> error + schema_info" where
  "detect_bottom_level_schema all_ns =
     (case search_bottom_level_schema KG_SCHEMAS all_ns of
        Some si \<Rightarrow> Inr si
      | None \<Rightarrow>
          if binding_of visu_schema_info \<in> set all_ns then Inr visu_schema_info
          else Inl (SystemExit ''Input executable KG did not have any bottom level KG schemas''))"

subsection \<open>RDF graphs\<close>

text \<open>A value passed for a data property (\<open>Union[str, int, float]\<close> in the source;
  floats are left out).\<close>

datatype pyval = PStr string | PInt int

text \<open>An object of a triple: \<open>URIRef(iri)\<close> or
  \<open>Literal(lexical_or_value=v, datatype=range_iri)\<close>.\<close>

datatype node = URIRef string | Literal pyval string

type_synonym triple = "string \<times> string \<times> node"

text \<open>A \<open>Graph\<close> is a set of triples. It is kept as a duplicate-free list, the list
  order standing for the order in which the store enumerates its triples.\<close>

type_synonym graph = "triple list"

definition kg_add :: "graph \<Rightarrow> triple \<Rightarrow> graph" where
  "kg_add kg t = (if t \<in> set kg then kg else kg @ [t])"

text \<open>\<open>kg1 + kg2\<close>.\<close>

definition kg_union :: "graph \<Rightarrow> graph \<Rightarrow> graph" where
  "kg_union kg1 kg2 = foldl kg_add kg1 kg2"

text \<open>\<open>kg.triples((URIRef(s), None, None))\<close>.\<close>

definition triples_of :: "graph \<Rightarrow> string \<Rightarrow> triple list" where
  "triples_of kg s = filter (\<lambda>t. fst t = s) kg"

fun pyval_str :: "pyval \<Rightarrow> string" where
  "pyval_str (PStr s) = s"
| "pyval_str (PInt i) = str_int i"

text \<open>\<open>str(o)\<close> for the object of a triple.\<close>

fun node_str :: "node \<Rightarrow> string" where
  "node_str (URIRef i) = i"
| "node_str (Literal v dt) = pyval_str v"

definition RDF_type :: string where
  "RDF_type = ''http://www.w3.org/1999/02/22-rdf-syntax-ns#type''"

subsection \<open>The entity model\<close>

text \<open>Modelled from the spec: the classes \<open>Entity\<close>, \<open>Task\<close> and \<open>DataEntity\<close>
  (\<^verbatim>\<open>classes/entity.py\<close>, \<^verbatim>\<open>task.py\<close>, \<^verbatim>\<open>data_entity.py\<close>) are not among the
  sources. Spec 3: an Entity has an identity (IRI), a declared parent/type (a schema class)
  and a derived short name; a Task is an Entity with \<open>input_dict\<close>, \<open>output_dict\<close>,
  \<open>has_input\<close>, \<open>has_output\<close> and the optional \<open>has_next_task\<close>; a DataEntity is an
  Entity with \<open>source_value\<close>, \<open>data_semantics\<close>, \<open>data_structure\<close> and the optional
  \<open>has_reference\<close>. The short name is the IRI's fragment, derived the way
  \<^verbatim>\<open>exe_kg.py\<close> derives every short name (\<open>iri.split("#")[1]\<close>); it is \<open>None\<close> for an
  IRI without \<open>#\<close>. The type is the parent's short name.\<close>

datatype entity = Entity (iri: string) (parent_entity: "entity option")

definition entity_name :: "entity \<Rightarrow> string option" where
  "entity_name e = split_hash_1 (iri e)"

definition entity_type :: "entity \<Rightarrow> string option" where
  "entity_type e = (case parent_entity e of None \<Rightarrow> None | Some p \<Rightarrow> entity_name p)"

record data_entity =
  de_entity :: entity
  source_value :: "string option"
  data_semantics :: "string option"
  data_structure :: "string option"
  has_reference :: "string option"

text \<open>\<open>DataEntity(iri, parent_entity, source_value, data_semantics, data_structure,
  has_reference=...)\<close>, every argument after \<open>iri\<close> optional.\<close>

definition DataEntity :: "string \<Rightarrow> entity option \<Rightarrow> string option \<Rightarrow> string option \<Rightarrow> string option
    \<Rightarrow> string option \<Rightarrow> data_entity" where
  "DataEntity i p src sem struct ref =
     \<lparr> de_entity = Entity i p, source_value = src, data_semantics = sem,
       data_structure = struct, has_reference = ref \<rparr>"

record task =
  task_entity :: entity
  input_dict :: "string \<rightharpoonup> data_entity"
  output_dict :: "string \<rightharpoonup> data_entity"
  has_input :: "data_entity list"
  has_output :: "data_entity list"
  has_next_task :: "string option"

text \<open>\<open>Task(iri, parent_entity)\<close> and \<open>Task.from_entity(entity)\<close>.\<close>

definition Task :: "string \<Rightarrow> entity option \<Rightarrow> task" where
  "Task i p = \<lparr> task_entity = Entity i p, input_dict = Map.empty, output_dict = Map.empty,
     has_input = [], has_output = [], has_next_task = None \<rparr>"

definition Task_from_entity :: "entity \<Rightarrow> task" where
  "Task_from_entity e = Task (iri e) (parent_entity e)"

subsection \<open>The compatibility resolver\<close>

text \<open>The queries of \<^verbatim>\<open>utils/query_utils.py\<close> are an external interface (spec 4.3):
  they are parameters of the model, with the arguments the source passes. A query that the
  source wraps in \<open>get_first_query_result_if_exists\<close> and reads at \<open>[0]\<close> returns the
  first row's first column, or \<open>None\<close>.\<close>

record query_utils =
  get_subclasses_of :: "string \<Rightarrow> graph \<Rightarrow> string list"
  get_input_properties_and_inputs :: "graph \<Rightarrow> string \<Rightarrow> string \<Rightarrow> (string \<times> string) list"
  get_output_properties_and_outputs :: "graph \<Rightarrow> string \<Rightarrow> string \<Rightarrow> (string \<times> string) list"
  get_method_properties_and_methods :: "graph \<Rightarrow> string \<Rightarrow> string \<Rightarrow> (string \<times> string) list"
  get_data_properties_plus_inherited_by_class_iri :: "graph \<Rightarrow> string \<Rightarrow> (string \<times> string) list"
  get_pipeline_and_first_task_iri :: "graph \<Rightarrow> string \<Rightarrow> error + string \<times> string \<times> string option"
  get_method_by_task_iri :: "graph \<Rightarrow> string \<Rightarrow> string \<Rightarrow> string \<Rightarrow> entity option"
  query_entity_parent_iri :: "graph \<Rightarrow> string \<Rightarrow> string \<Rightarrow> string option"
  query_data_entity_reference_iri :: "graph \<Rightarrow> string \<Rightarrow> string \<Rightarrow> string option"

subsection \<open>The engine state\<close>

record kg_schema = schema_info +
  kg :: graph

record exe_kg =
  top_level_schema :: kg_schema
  bottom_level_schema :: kg_schema
  visu_schema :: kg_schema
  input_kg :: graph
  output_kg :: graph
  task_type_dict :: "string \<rightharpoonup> int"
  method_type_dict :: "string \<rightharpoonup> int"
  atomic_task_list :: "entity list"
  atomic_method_list :: "entity list"
  data_type_list :: "entity list"
  data_semantics_list :: "entity list"
  data_structure_list :: "entity list"
  last_created_task :: "task option"

text \<open>The top-level schema entities set in \<open>__init__\<close>,
  \<open>Entity(self.top_level_schema.namespace.X)\<close>.\<close>

definition top_entity :: "exe_kg \<Rightarrow> string \<Rightarrow> entity" where
  "top_entity S x = Entity (namespace (top_level_schema S) @ x) None"

definition atomic_task :: "exe_kg \<Rightarrow> entity" where
  "atomic_task S = top_entity S ''AtomicTask''"

definition atomic_method :: "exe_kg \<Rightarrow> entity" where
  "atomic_method S = top_entity S ''AtomicMethod''"

definition data_entity_class :: "exe_kg \<Rightarrow> entity" where
  "data_entity_class S = top_entity S ''DataEntity''"

definition pipeline_class :: "exe_kg \<Rightarrow> entity" where
  "pipeline_class S = top_entity S ''Pipeline''"

definition data_class :: "exe_kg \<Rightarrow> entity" where
  "data_class S = top_entity S ''Data''"

definition data_semantics_class :: "exe_kg \<Rightarrow> entity" where
  "data_semantics_class S = top_entity S ''DataSemantics''"

definition data_structure_class :: "exe_kg \<Rightarrow> entity" where
  "data_structure_class S = top_entity S ''DataStructure''"

subsection \<open>Writing nodes to a graph\<close>

text \<open>Modelled from the spec: the functions of \<^verbatim>\<open>utils/kg_creation_utils.py\<close>
  (\<open>add_literal\<close>, \<open>add_instance_from_parent_with_relation\<close>, \<open>name_instance\<close>,
  \<open>add_data_entity_instance\<close>, \<open>add_and_attach_data_entity\<close>, \<open>create_pipeline_task\<close>)
  are not among the sources. Spec 4.2: a new node is instantiated under a namespace with its
  allocated name and linked to an existing node by a relation; a property value is attached
  to the task node as a typed literal; a data entity is created and attached to its task by
  the input or output relation, a bound copy carrying \<open>has_reference\<close> back to the
  original (spec 3, invariant 3); the pipeline root records the input data path as a node
  property. An instance is written as its \<open>rdf:type\<close> triple, a link as one triple, and a
  data entity as its type triple and one triple for each attribute that is set, under
  predicates of the top-level namespace.\<close>

definition XSD_string :: string where
  "XSD_string = ''http://www.w3.org/2001/XMLSchema#string''"

definition add_instance :: "graph \<Rightarrow> entity \<Rightarrow> graph" where
  "add_instance g e =
     (case parent_entity e of None \<Rightarrow> g | Some p \<Rightarrow> kg_add g (iri e, RDF_type, URIRef (iri p)))"

definition add_relation :: "graph \<Rightarrow> entity \<Rightarrow> string \<Rightarrow> entity \<Rightarrow> graph" where
  "add_relation g from_entity relation_iri to_entity =
     kg_add g (iri from_entity, relation_iri, URIRef (iri to_entity))"

definition add_literal :: "graph \<Rightarrow> entity \<Rightarrow> string \<Rightarrow> node \<Rightarrow> graph" where
  "add_literal g from_entity relation_iri literal = kg_add g (iri from_entity, relation_iri, literal)"

definition add_instance_from_parent_with_relation ::
    "string \<Rightarrow> graph \<Rightarrow> entity \<Rightarrow> string \<Rightarrow> entity \<Rightarrow> string \<Rightarrow> entity \<times> graph" where
  "add_instance_from_parent_with_relation ns g parent relation_iri related_entity instance_name =
     (let instance = Entity (ns @ instance_name) (Some parent);
          g1 = add_instance g instance;
          g2 = add_relation g1 related_entity relation_iri instance
      in (instance, g2))"

definition add_optional_relation :: "graph \<Rightarrow> entity \<Rightarrow> string \<Rightarrow> string option \<Rightarrow> graph" where
  "add_optional_relation g from_entity relation_iri target =
     (case target of None \<Rightarrow> g | Some x \<Rightarrow> kg_add g (iri from_entity, relation_iri, URIRef x))"

definition add_data_entity_instance :: "graph \<Rightarrow> entity \<Rightarrow> graph \<Rightarrow> string \<Rightarrow> data_entity \<Rightarrow> graph" where
  "add_data_entity_instance g data top_level_kg top_ns de =
     (let e = de_entity de;
          g1 = add_instance g e;
          g2 = (case source_value de of None \<Rightarrow> g1
                | Some v \<Rightarrow> add_literal g1 e (top_ns @ ''hasSource'') (Literal (PStr v) XSD_string));
          g3 = add_optional_relation g2 e (top_ns @ ''hasDataStructure'') (data_structure de);
          g4 = add_optional_relation g3 e (top_ns @ ''hasDataSemantics'') (data_semantics de)
      in add_optional_relation g4 e (top_ns @ ''hasReference'') (has_reference de))"

definition add_and_attach_data_entity ::
    "graph \<Rightarrow> entity \<Rightarrow> graph \<Rightarrow> string \<Rightarrow> data_entity \<Rightarrow> string \<Rightarrow> entity \<Rightarrow> graph" where
  "add_and_attach_data_entity g data top_level_kg top_ns de relation_iri task_ent =
     add_relation (add_data_entity_instance g data top_level_kg top_ns de)
       task_ent relation_iri (de_entity de)"

definition create_pipeline_task_in ::
    "string \<Rightarrow> string \<Rightarrow> entity \<Rightarrow> graph \<Rightarrow> string \<Rightarrow> string \<Rightarrow> task \<times> graph" where
  "create_pipeline_task_in top_ns bottom_ns parent g pipeline_name input_data_path =
     (let pipeline = Task (bottom_ns @ pipeline_name) (Some parent);
          g1 = add_instance g (task_entity pipeline);
          g2 = add_literal g1 (task_entity pipeline) (top_ns @ ''hasInputDataPath'')
                 (Literal (PStr input_data_path) XSD_string)
      in (pipeline, g2))"

subsection \<open>The naming allocator\<close>

text \<open>Modelled from the spec: \<open>name_instance\<close> of \<^verbatim>\<open>utils/kg_creation_utils.py\<close> is
  not among the sources. Spec 4.1: \<open>nextName(type)\<close> returns \<open><type><counter>\<close>, then
  increments the stored counter for \<open>type\<close>. The source passes both counter dicts and
  the class to instantiate; a class under \<open>AtomicTask\<close> is counted in the task dict and
  one under \<open>AtomicMethod\<close> in the method dict (the two kinds of class \<open>add_task\<close>
  passes). The counter is read by a required-key access.\<close>

definition name_instance ::
    "(string \<rightharpoonup> int) \<Rightarrow> (string \<rightharpoonup> int) \<Rightarrow> entity
      \<Rightarrow> error + (string \<times> (string \<rightharpoonup> int) \<times> (string \<rightharpoonup> int))" where
  "name_instance task_types method_types parent =
     (case entity_name parent of
        None \<Rightarrow> Inl IndexError
      | Some nm \<Rightarrow>
          if entity_type parent = Some ''AtomicTask'' then
            (case task_types nm of
               None \<Rightarrow> Inl (KeyError nm)
             | Some c \<Rightarrow> Inr (nm @ str_int c, task_types(nm \<mapsto> c + 1), method_types))
          else if entity_type parent = Some ''AtomicMethod'' then
            (case method_types nm of
               None \<Rightarrow> Inl (KeyError nm)
             | Some c \<Rightarrow> Inr (nm @ str_int c, task_types, method_types(nm \<mapsto> c + 1)))
          else Inl InvalidParentEntityType)"

subsection \<open>\<open>ExeKG.parse_kgs\<close> and \<open>ExeKG.__init__\<close>\<close>

text \<open>The first two loops of \<open>parse_kgs\<close>: every subclass is appended to the list and its
  counter is set to 1, under the class's short name.\<close>

fun seed_types :: "entity \<Rightarrow> string list \<Rightarrow> entity list \<Rightarrow> (string \<rightharpoonup> int)
    \<Rightarrow> error + (entity list \<times> (string \<rightharpoonup> int))" where
  "seed_types parent [] lst d = Inr (lst, d)"
| "seed_types parent (t # ts) lst d =
     (let e = Entity t (Some parent) in
      case entity_name e of
        None \<Rightarrow> Inl IndexError
      | Some nm \<Rightarrow> seed_types parent ts (lst @ [e]) (d(nm \<mapsto> 1)))"

text \<open>The last two loops: the class \<open>DataEntity\<close> itself is skipped.\<close>

definition collect_classes :: "entity \<Rightarrow> string \<Rightarrow> string list \<Rightarrow> entity list \<Rightarrow> entity list" where
  "collect_classes parent skip_iri ts lst =
     lst @ map (\<lambda>t. Entity t (Some parent)) (filter (\<lambda>t. t \<noteq> skip_iri) ts)"

definition parse_kgs :: "query_utils \<Rightarrow> exe_kg \<Rightarrow> error + exe_kg" where
  "parse_kgs Q S =
     (case seed_types (atomic_task S) (get_subclasses_of Q (iri (atomic_task S)) (input_kg S))
             (atomic_task_list S) (task_type_dict S) of
        Inl e \<Rightarrow> Inl e
      | Inr (tasks, td) \<Rightarrow>
          (case seed_types (atomic_method S)
                  (get_subclasses_of Q (iri (atomic_method S)) (input_kg S))
                  (atomic_method_list S) (method_type_dict S) of
             Inl e \<Rightarrow> Inl e
           | Inr (methods, md) \<Rightarrow>
               Inr (S\<lparr> atomic_task_list := tasks, task_type_dict := td,
                       atomic_method_list := methods, method_type_dict := md,
                       data_type_list := data_type_list S @
                         map (\<lambda>t. Entity t (Some (data_entity_class S)))
                           (get_subclasses_of Q (iri (data_entity_class S)) (input_kg S)),
                       data_semantics_list :=
                         collect_classes (data_semantics_class S) (iri (data_entity_class S))
                           (get_subclasses_of Q (iri (data_semantics_class S))
                              (kg (top_level_schema S)))
                           (data_semantics_list S),
                       data_structure_list :=
                         collect_classes (data_structure_class S) (iri (data_entity_class S))
                           (get_subclasses_of Q (iri (data_structure_class S))
                              (kg (top_level_schema S)))
                           (data_structure_list S) \<rparr>)))"

text \<open>\<open>KGSchema.from_schema_info\<close> loads the ontology at the schema's path; the loader is a
  parameter.\<close>

definition from_schema_info :: "(string \<Rightarrow> graph) \<Rightarrow> schema_info \<Rightarrow> kg_schema" where
  "from_schema_info load si = schema_info.extend si (kg_schema.fields (load (path si)))"

text \<open>\<open>ExeKG(kg_schema_name, input_exe_kg_path)\<close>. A filled \<open>input_exe_kg_path\<close> is given
  as what parsing the file yields: its triples and its namespace bindings. The namespace
  bindings of the two graphs (\<open>bind_used_namespaces\<close>) are not part of the model, which
  keeps the triples only.\<close>

definition ExeKG_init :: "query_utils \<Rightarrow> (string \<Rightarrow> graph) \<Rightarrow> string option
    \<Rightarrow> (graph \<times> ns_binding list) option \<Rightarrow> error + exe_kg" where
  "ExeKG_init Q load kg_schema_name input_exe_kg =
     (case (case input_exe_kg of
              Some (parsed, all_ns) \<Rightarrow>
                (case detect_bottom_level_schema all_ns of
                   Inl e \<Rightarrow> Inl e
                 | Inr si \<Rightarrow> Inr (si, parsed))
            | None \<Rightarrow>
                (case kg_schema_name of
                   None \<Rightarrow> Inl (KeyError ''None'')
                 | Some n \<Rightarrow>
                     (case map_of KG_SCHEMAS n of
                        None \<Rightarrow> Inl (KeyError n)
                      | Some si \<Rightarrow> Inr (si, [])))) of
        Inl e \<Rightarrow> Inl e
      | Inr (si, g0) \<Rightarrow>
          (let top = from_schema_info load ds_schema_info;
               bottom = from_schema_info load si;
               visu = from_schema_info load visu_schema_info
           in parse_kgs Q
                \<lparr> top_level_schema = top, bottom_level_schema = bottom, visu_schema = visu,
                  input_kg = kg_union g0 (kg_union (kg_union (kg top) (kg bottom)) (kg visu)),
                  output_kg = [],
                  task_type_dict = Map.empty, method_type_dict = Map.empty,
                  atomic_task_list = [], atomic_method_list = [], data_type_list = [],
                  data_semantics_list = [], data_structure_list = [],
                  last_created_task = None \<rparr>))"

subsection \<open>Construction: \<open>create_pipeline_task\<close>, \<open>create_data_entity\<close>\<close>

definition create_pipeline_task :: "exe_kg \<Rightarrow> string \<Rightarrow> string \<Rightarrow> task \<times> exe_kg" where
  "create_pipeline_task S pipeline_name input_data_path =
     (let (pipeline, g) =
            create_pipeline_task_in (namespace (top_level_schema S))
              (namespace (bottom_level_schema S)) (pipeline_class S) (output_kg S)
              pipeline_name input_data_path
      in (pipeline, S\<lparr> output_kg := g, last_created_task := Some pipeline \<rparr>))"

definition create_data_entity :: "exe_kg \<Rightarrow> string \<Rightarrow> string \<Rightarrow> string \<Rightarrow> string \<Rightarrow> data_entity" where
  "create_data_entity S nm source data_semantics_name data_structure_name =
     DataEntity (namespace (bottom_level_schema S) @ nm) (Some (data_entity_class S))
       (Some source)
       (Some (namespace (top_level_schema S) @ data_semantics_name))
       (Some (namespace (top_level_schema S) @ data_structure_name))
       None"

subsection \<open>Construction: \<open>add_inputs_to_task\<close>\<close>

text \<open>The bound copy made for one element of a binding list (lines 370-375 and
  385-389): its IRI is the slot IRI, the task-type ordinal, \<open>_\<close> and the same-slot
  ordinal; its \<open>has_reference\<close> is the IRI of the given data entity.\<close>

definition bound_copy :: "exe_kg \<Rightarrow> string \<Rightarrow> int \<Rightarrow> int \<Rightarrow> data_entity \<Rightarrow> data_entity" where
  "bound_copy S input_entity_iri task_type_index same_input_index input_data_entity =
     DataEntity
       (input_entity_iri @ str_int task_type_index @ ''_'' @ str_int same_input_index)
       (Some (Entity input_entity_iri (Some (data_entity_class S))))
       None None None
       (Some (iri (de_entity input_data_entity)))"

text \<open>The inner loop \<open>for input_data_entity in input_data_entity_list\<close>, from the current
  \<open>same_input_index\<close>.\<close>

fun bind_inputs :: "exe_kg \<Rightarrow> task \<Rightarrow> string \<Rightarrow> string \<Rightarrow> int \<Rightarrow> int \<Rightarrow> data_entity list
    \<Rightarrow> task \<times> exe_kg" where
  "bind_inputs S t input_entity_iri input_entity_name task_type_index same_input_index [] = (t, S)"
| "bind_inputs S t input_entity_iri input_entity_name task_type_index same_input_index
      (input_data_entity # rest) =
     (let g1 = add_data_entity_instance (output_kg S) (data_class S) (kg (top_level_schema S))
                 (namespace (top_level_schema S)) input_data_entity;
          de = bound_copy S input_entity_iri task_type_index same_input_index input_data_entity;
          g2 = add_and_attach_data_entity g1 (data_class S) (kg (top_level_schema S))
                 (namespace (top_level_schema S)) de
                 (namespace (top_level_schema S) @ ''hasInput'') (task_entity t);
          t' = t\<lparr> input_dict := (input_dict t)(input_entity_name \<mapsto> de) \<rparr>
      in bind_inputs (S\<lparr> output_kg := g2 \<rparr>) t' input_entity_iri input_entity_name
           task_type_index (same_input_index + 1) rest)"

text \<open>The outer loop \<open>for _, input_entity_iri in results\<close>.\<close>

fun add_inputs_loop :: "exe_kg \<Rightarrow> task \<Rightarrow> (string \<rightharpoonup> data_entity list) \<Rightarrow> int
    \<Rightarrow> (string \<times> string) list \<Rightarrow> (error + task) \<times> exe_kg" where
  "add_inputs_loop S t input_data_entity_dict task_type_index [] = (Inr t, S)"
| "add_inputs_loop S t input_data_entity_dict task_type_index ((rel, input_entity_iri) # rest) =
     (case split_hash_1 input_entity_iri of
        None \<Rightarrow> (Inl IndexError, S)
      | Some input_entity_name \<Rightarrow>
          (case input_data_entity_dict input_entity_name of
             None \<Rightarrow> (Inl (KeyError input_entity_name), S)
           | Some input_data_entity_list \<Rightarrow>
               (let (t', S') = bind_inputs S t input_entity_iri input_entity_name
                                 task_type_index 1 input_data_entity_list
                in add_inputs_loop S' t' input_data_entity_dict task_type_index rest)))"

text \<open>\<open>self.task_type_dict[task_entity.type] - 1\<close>.\<close>

definition task_type_index_of :: "exe_kg \<Rightarrow> task \<Rightarrow> error + int" where
  "task_type_index_of S t =
     (case entity_type (task_entity t) of
        None \<Rightarrow> Inl (KeyError ''None'')
      | Some ty \<Rightarrow>
          (case task_type_dict S ty of
             None \<Rightarrow> Inl (KeyError ty)
           | Some c \<Rightarrow> Inr (c - 1)))"

definition add_inputs_to_task :: "query_utils \<Rightarrow> exe_kg \<Rightarrow> task \<Rightarrow> (string \<rightharpoonup> data_entity list)
    \<Rightarrow> (error + task) \<times> exe_kg" where
  "add_inputs_to_task Q S t input_data_entity_dict =
     (case parent_entity (task_entity t) of
        None \<Rightarrow> (Inl (AttributeError_NoneType ''iri''), S)
      | Some p \<Rightarrow>
          (let results = get_input_properties_and_inputs Q (input_kg S)
                           (namespace_prefix (top_level_schema S)) (iri p)
           in case task_type_index_of S t of
                Inl e \<Rightarrow> (Inl e, S)
              | Inr task_type_index \<Rightarrow>
                  add_inputs_loop S t input_data_entity_dict task_type_index results))"

subsection \<open>Construction: \<open>add_outputs_to_task\<close>\<close>

fun add_outputs_loop :: "exe_kg \<Rightarrow> task \<Rightarrow> int \<Rightarrow> (string \<times> string) list \<Rightarrow> (error + task) \<times> exe_kg" where
  "add_outputs_loop S t task_type_index [] = (Inr t, S)"
| "add_outputs_loop S t task_type_index ((output_property, output_entity_iri) # rest) =
     (let de = DataEntity (output_entity_iri @ str_int task_type_index)
                 (Some (data_entity_class S)) None None None None;
          g = add_and_attach_data_entity (output_kg S) (data_class S) (kg (top_level_schema S))
                (namespace (top_level_schema S)) de
                (namespace (top_level_schema S) @ ''hasOutput'') (task_entity t);
          S' = S\<lparr> output_kg := g \<rparr>
      in case split_hash_1 output_entity_iri of
           None \<Rightarrow> (Inl IndexError, S')
         | Some nm \<Rightarrow>
             add_outputs_loop S' (t\<lparr> output_dict := (output_dict t)(nm \<mapsto> de) \<rparr>)
               task_type_index rest)"

definition add_outputs_to_task :: "query_utils \<Rightarrow> exe_kg \<Rightarrow> task \<Rightarrow> (error + task) \<times> exe_kg" where
  "add_outputs_to_task Q S t =
     (case parent_entity (task_entity t) of
        None \<Rightarrow> (Inl (AttributeError_NoneType ''iri''), S)
      | Some p \<Rightarrow>
          (let results = get_output_properties_and_outputs Q (input_kg S)
                           (namespace_prefix (top_level_schema S)) (iri p)
           in case task_type_index_of S t of
                Inl e \<Rightarrow> (Inl e, S)
              | Inr task_type_index \<Rightarrow> add_outputs_loop S t task_type_index results))"

subsection \<open>Construction: \<open>add_task\<close>\<close>

text \<open>\<open>next(filter(lambda pair: pair[1].split("#")[1] == method_type, results), None)\<close>:
  the pairs are tested in order up to the first match.\<close>

fun find_method :: "string \<Rightarrow> (string \<times> string) list \<Rightarrow> error + (string \<times> string) option" where
  "find_method method_type [] = Inr None"
| "find_method method_type (pair # rest) =
     (case split_hash_1 (snd pair) of
        None \<Rightarrow> Inl IndexError
      | Some nm \<Rightarrow> if nm = method_type then Inr (Some pair) else find_method method_type rest)"

text \<open>The loop \<open>for pair in property_list\<close> (lines 327-335).\<close>

fun add_properties :: "graph \<Rightarrow> task \<Rightarrow> (string \<rightharpoonup> pyval) \<Rightarrow> (string \<times> string) list
    \<Rightarrow> (error + unit) \<times> graph" where
  "add_properties g t data_properties [] = (Inr (), g)"
| "add_properties g t data_properties ((property_iri, range_iri) # rest) =
     (case split_hash_1 property_iri of
        None \<Rightarrow> (Inl IndexError, g)
      | Some property_name \<Rightarrow>
          (case data_properties property_name of
             None \<Rightarrow> (Inl (KeyError property_name), g)
           | Some v \<Rightarrow>
               add_properties (add_literal g (task_entity t) property_iri (Literal v range_iri))
                 t data_properties rest))"

definition incompatible_method_message :: "string \<Rightarrow> string \<Rightarrow> string" where
  "incompatible_method_message task_type method_type =
     ''Property connecting task of type '' @ task_type @ '' with method of type ''
       @ method_type @ '' not found''"

text \<open>Lines 311-339: the method is instantiated and linked, the data properties are
  attached, the created task becomes the chain head.\<close>

definition attach_method :: "query_utils \<Rightarrow> exe_kg \<Rightarrow> task \<Rightarrow> entity \<Rightarrow> string \<times> string
    \<Rightarrow> (string \<rightharpoonup> pyval) \<Rightarrow> (error + task) \<times> exe_kg" where
  "attach_method Q S next_task method_parent chosen_property_method data_properties =
     (case name_instance (task_type_dict S) (method_type_dict S) method_parent of
        Inl e \<Rightarrow> (Inl e, S)
      | Inr (nm, td, md) \<Rightarrow>
          (let S1 = S\<lparr> task_type_dict := td, method_type_dict := md \<rparr>;
               g = snd (add_instance_from_parent_with_relation
                     (namespace (bottom_level_schema S1)) (output_kg S1) method_parent
                     (fst chosen_property_method) (task_entity next_task) nm);
               S2 = S1\<lparr> output_kg := g \<rparr>;
               property_list = get_data_properties_plus_inherited_by_class_iri Q (input_kg S2)
                                 (iri method_parent)
           in case add_properties (output_kg S2) next_task data_properties property_list of
                (Inl e, g') \<Rightarrow> (Inl e, S2\<lparr> output_kg := g' \<rparr>)
              | (Inr u, g') \<Rightarrow>
                  (Inr next_task, S2\<lparr> output_kg := g', last_created_task := Some next_task \<rparr>)))"

text \<open>Lines 268-272: the relation that links the new task, depending on the previous
  one.\<close>

definition task_link :: "exe_kg \<Rightarrow> task \<Rightarrow> string" where
  "task_link S prev =
     (if entity_type (task_entity prev) \<noteq> Some ''Pipeline''
      then namespace (top_level_schema S) @ ''hasNextTask''
      else namespace (top_level_schema S) @ ''hasStartTask'')"

text \<open>Lines 274-284: the task node is instantiated under its allocated name and linked to
  the previous task.\<close>

definition instantiate_task :: "exe_kg \<Rightarrow> string \<Rightarrow> string \<Rightarrow> (error + task) \<times> exe_kg" where
  "instantiate_task S namespace_to_use task_type =
     (case last_created_task S of
        None \<Rightarrow> (Inl (AttributeError_NoneType ''type''), S)
      | Some prev \<Rightarrow>
          (let relation_iri = task_link S prev;
               parent_task = Entity (namespace_to_use @ task_type) (Some (atomic_task S))
           in case name_instance (task_type_dict S) (method_type_dict S) parent_task of
                Inl e \<Rightarrow> (Inl e, S)
              | Inr (nm, td, md) \<Rightarrow>
                  (let S1 = S\<lparr> task_type_dict := td, method_type_dict := md \<rparr>;
                       (added_entity, g) =
                         add_instance_from_parent_with_relation
                           (namespace (bottom_level_schema S1)) (output_kg S1) parent_task
                           relation_iri (task_entity prev) nm
                   in (Inr (Task_from_entity added_entity), S1\<lparr> output_kg := g \<rparr>))))"

text \<open>Lines 262-266: the namespace for the task and its method.\<close>

definition namespace_to_use :: "exe_kg \<Rightarrow> bool \<Rightarrow> string" where
  "namespace_to_use S visualization =
     (if visualization then namespace (visu_schema S) else namespace (bottom_level_schema S))"

definition add_task :: "query_utils \<Rightarrow> exe_kg \<Rightarrow> string \<Rightarrow> (string \<rightharpoonup> data_entity list) \<Rightarrow> string
    \<Rightarrow> (string \<rightharpoonup> pyval) \<Rightarrow> bool \<Rightarrow> (error + task) \<times> exe_kg" where
  "add_task Q S task_type input_data_entity_dict method_type data_properties visualization =
     (let ns = namespace_to_use S visualization
      in case instantiate_task S ns task_type of
           (Inl e, S1) \<Rightarrow> (Inl e, S1)
         | (Inr next_task, S1) \<Rightarrow>
             (case add_inputs_to_task Q S1 next_task input_data_entity_dict of
                (Inl e, S2) \<Rightarrow> (Inl e, S2)
              | (Inr next_task1, S2) \<Rightarrow>
                  (case add_outputs_to_task Q S2 next_task1 of
                     (Inl e, S3) \<Rightarrow> (Inl e, S3)
                   | (Inr next_task2, S3) \<Rightarrow>
                       (let method_parent =
                              Entity (ns @ method_type) (Some (atomic_method S3))
                        in case parent_entity (task_entity next_task2) of
                             None \<Rightarrow> (Inl (AttributeError_NoneType ''iri''), S3)
                           | Some p \<Rightarrow>
                               (case find_method method_type
                                       (get_method_properties_and_methods Q (input_kg S3)
                                          (namespace_prefix (top_level_schema S3)) (iri p)) of
                                  Inl e \<Rightarrow> (Inl e, S3)
                                | Inr None \<Rightarrow>
                                    (Inl (SystemExit
                                       (incompatible_method_message task_type method_type)), S3)
                                | Inr (Some chosen_property_method) \<Rightarrow>
                                    attach_method Q S3 next_task2 method_parent
                                      chosen_property_method data_properties)))))"

subsection \<open>Execution: the objects parsed from a graph\<close>

text \<open>During execution the fields of an object are read and set by name (\<open>hasattr\<close>,
  \<open>getattr\<close>, \<open>setattr\<close>), so an object is its class name and its attributes; a
  field holds \<open>None\<close>, a string, a list, a nested object, or a reference to an object of
  the store (the canvas context).\<close>

datatype fvalue =
    VNone
  | VStr string
  | VList "fvalue list"
  | VObj string "(string \<times> fvalue) list"
  | VRef nat

fun attrs_of :: "fvalue \<Rightarrow> (string \<times> fvalue) list" where
  "attrs_of (VObj c as) = as"
| "attrs_of v = []"

definition py_getattr :: "fvalue \<Rightarrow> string \<Rightarrow> fvalue option" where
  "py_getattr obj f = map_of (attrs_of obj) f"

definition py_hasattr :: "fvalue \<Rightarrow> string \<Rightarrow> bool" where
  "py_hasattr obj f = (py_getattr obj f \<noteq> None)"

fun py_setattr :: "fvalue \<Rightarrow> string \<Rightarrow> fvalue \<Rightarrow> fvalue" where
  "py_setattr (VObj c as) f v = VObj c (AList.update f v as)"
| "py_setattr obj f v = obj"

text \<open>Modelled from the spec: the constructors of \<open>Entity\<close>, \<open>Task\<close> and
  \<open>DataEntity\<close> (spec 3, see the entity model above), as the objects they build: the
  attributes of an Entity are \<open>iri\<close>, \<open>parent_entity\<close>, \<open>name\<close> and \<open>type\<close>.\<close>

definition opt_str :: "string option \<Rightarrow> fvalue" where
  "opt_str x = (case x of None \<Rightarrow> VNone | Some s \<Rightarrow> VStr s)"

definition entity_attrs :: "string \<Rightarrow> fvalue \<Rightarrow> (string \<times> fvalue) list" where
  "entity_attrs i parent =
     [(''iri'', VStr i), (''parent_entity'', parent), (''name'', opt_str (split_hash_1 i)),
      (''type'', (case py_getattr parent ''name'' of None \<Rightarrow> VNone | Some n \<Rightarrow> n))]"

definition task_attrs :: "(string \<times> fvalue) list" where
  "task_attrs =
     [(''input_dict'', VObj ''dict'' []), (''output_dict'', VObj ''dict'' []),
      (''has_input'', VList []), (''has_output'', VList []), (''has_next_task'', VNone)]"

definition data_entity_attrs :: "(string \<times> fvalue) list" where
  "data_entity_attrs =
     [(''source_value'', VNone), (''data_semantics'', VNone), (''data_structure'', VNone),
      (''has_reference'', VNone)]"

definition Entity_obj :: "string \<Rightarrow> fvalue \<Rightarrow> fvalue" where
  "Entity_obj i parent = VObj ''Entity'' (entity_attrs i parent)"

definition Task_obj :: "string \<Rightarrow> fvalue \<Rightarrow> fvalue" where
  "Task_obj i parent = VObj ''Task'' (entity_attrs i parent @ task_attrs)"

definition DataEntity_obj :: "string \<Rightarrow> fvalue \<Rightarrow> fvalue" where
  "DataEntity_obj i parent = VObj ''DataEntity'' (entity_attrs i parent @ data_entity_attrs)"

subsection \<open>Execution: the collaborators\<close>

text \<open>The object store: the task objects made by \<open>parse_task_by_iri\<close>, by identity.\<close>

type_synonym heap = "nat \<Rightarrow> fvalue"

text \<open>A class of a task module, as its constructor: \<open>Class(task_iri, Task(task_parent_iri))\<close>
  or \<open>Class(task_iri, Task(task_parent_iri), canvas_method)\<close>; it may raise.\<close>

type_synonym constructor = "heap \<Rightarrow> string \<Rightarrow> fvalue \<Rightarrow> nat option \<Rightarrow> error + fvalue"

text \<open>What lies outside \<^verbatim>\<open>exe_kg.py\<close> at execution time: \<open>property_name_to_field_name\<close>
  of \<^verbatim>\<open>utils/string_utils.py\<close>, the three task modules (\<open>getattr(module, class_name,
  None)\<close>), the \<open>run_method\<close> of the task objects, which may change any object of the
  store and returns the task's outputs or \<open>None\<close>, and \<open>pd.read_csv\<close>.\<close>

record ('d, 'v) runtime =
  property_name_to_field_name :: "string \<Rightarrow> error + string"
  visual_tasks :: "string \<Rightarrow> constructor option"
  statistic_tasks :: "string \<Rightarrow> constructor option"
  ml_tasks :: "string \<Rightarrow> constructor option"
  run_method :: "heap \<Rightarrow> nat \<Rightarrow> (string \<rightharpoonup> 'v) \<Rightarrow> 'd \<Rightarrow> error + heap \<times> (string \<rightharpoonup> 'v) option"
  read_csv :: "string \<Rightarrow> error + 'd"

subsection \<open>Execution: \<open>property_value_to_field_value\<close> and \<open>parse_data_entity_by_iri\<close>\<close>

text \<open>The two methods call each other, once for each hop from a data entity to a value
  that is a data entity again, and need not return on a graph with a cycle of such hops.
  The first argument bounds the nesting; \<open>None\<close> is the answer of a run that needs more.
  \<open>fill_data_entity\<close> is the loop over the triples of the referenced entity
  (lines 693-699).\<close>

function (sequential) property_value_to_field_value ::
      "('d, 'v) runtime \<Rightarrow> query_utils \<Rightarrow> exe_kg \<Rightarrow> nat \<Rightarrow> string \<Rightarrow> (error + fvalue) option"
  and parse_data_entity_by_iri ::
      "('d, 'v) runtime \<Rightarrow> query_utils \<Rightarrow> exe_kg \<Rightarrow> nat \<Rightarrow> string \<Rightarrow> (error + fvalue option) option"
  and fill_data_entity ::
      "('d, 'v) runtime \<Rightarrow> query_utils \<Rightarrow> exe_kg \<Rightarrow> nat \<Rightarrow> fvalue \<Rightarrow> triple list
        \<Rightarrow> (error + fvalue option) option" where
  "property_value_to_field_value E Q S 0 property_value = None"
| "property_value_to_field_value E Q S (Suc n) property_value =
     (if has_hash property_value then
        (case parse_data_entity_by_iri E Q S n property_value of
           None \<Rightarrow> None
         | Some (Inl e) \<Rightarrow> Some (Inl e)
         | Some (Inr None) \<Rightarrow> Some (Inr (VStr property_value))
         | Some (Inr (Some data_entity)) \<Rightarrow> Some (Inr data_entity))
      else Some (Inr (VStr property_value)))"
| "parse_data_entity_by_iri E Q S n in_out_data_entity_iri =
     (case query_entity_parent_iri Q (input_kg S) in_out_data_entity_iri
             (namespace (top_level_schema S) @ ''DataEntity'') of
        None \<Rightarrow> Some (Inr None)
      | Some data_entity_parent_iri \<Rightarrow>
          (let data_entity_ref_iri =
                 (case query_data_entity_reference_iri Q (input_kg S)
                         (namespace_prefix (top_level_schema S)) in_out_data_entity_iri of
                    None \<Rightarrow> in_out_data_entity_iri
                  | Some r \<Rightarrow> r);
               data_entity = DataEntity_obj in_out_data_entity_iri
                               (Entity_obj data_entity_parent_iri VNone)
           in case split_hash_1 data_entity_ref_iri of
                None \<Rightarrow> Some (Inl IndexError)
              | Some ref_name \<Rightarrow>
                  fill_data_entity E Q S n
                    (py_setattr data_entity ''has_reference'' (VStr ref_name))
                    (triples_of (input_kg S) data_entity_ref_iri)))"
| "fill_data_entity E Q S n data_entity [] = Some (Inr (Some data_entity))"
| "fill_data_entity E Q S n data_entity ((s, p, ob) # rest) =
     (case property_name_to_field_name E p of
        Inl e \<Rightarrow> Some (Inl e)
      | Inr field_name \<Rightarrow>
          if \<not> py_hasattr data_entity field_name \<or> field_name = ''type''
          then fill_data_entity E Q S n data_entity rest
          else
            (case property_value_to_field_value E Q S n (node_str ob) of
               None \<Rightarrow> None
             | Some (Inl e) \<Rightarrow> Some (Inl e)
             | Some (Inr field_value) \<Rightarrow>
                 fill_data_entity E Q S n (py_setattr data_entity field_name field_value) rest))"
  by pat_completeness auto

text \<open>Every call either lowers the bound, or goes from \<open>parse_data_entity_by_iri\<close> to
  the loop, or from the loop to the value conversion or to a shorter list.\<close>

termination
  by (relation
       "(\<lambda>x. case x of Inl (E, Q, S, n, v) \<Rightarrow> n | Inr (Inl (E, Q, S, n, v)) \<Rightarrow> n
              | Inr (Inr (E, Q, S, n, d, ts)) \<Rightarrow> n)
        <*mlex*> (\<lambda>x. case x of Inl _ \<Rightarrow> 0 | Inr (Inl _) \<Rightarrow> 2 | Inr (Inr _) \<Rightarrow> Suc 0)
        <*mlex*> measure (\<lambda>x. case x of Inl _ \<Rightarrow> 0 | Inr (Inl _) \<Rightarrow> 0
              | Inr (Inr (E, Q, S, n, d, ts)) \<Rightarrow> length ts)")
     (auto simp: wf_mlex mlex_less mlex_leq)

subsection \<open>Execution: \<open>parse_task_by_iri\<close>\<close>

text \<open>The loop over the triples of the task (lines 754-765).\<close>

fun fill_task :: "('d, 'v) runtime \<Rightarrow> query_utils \<Rightarrow> exe_kg \<Rightarrow> nat \<Rightarrow> fvalue \<Rightarrow> triple list
    \<Rightarrow> (error + fvalue) option" where
  "fill_task E Q S n task [] = Some (Inr task)"
| "fill_task E Q S n task ((s, p, ob) # rest) =
     (case property_name_to_field_name E p of
        Inl e \<Rightarrow> Some (Inl e)
      | Inr field_name \<Rightarrow>
          if \<not> py_hasattr task field_name \<or> field_name = ''type''
          then fill_task E Q S n task rest
          else
            (case property_value_to_field_value E Q S n (node_str ob) of
               None \<Rightarrow> None
             | Some (Inl e) \<Rightarrow> Some (Inl e)
             | Some (Inr field_value) \<Rightarrow>
                 if field_name = ''has_input'' \<or> field_name = ''has_output'' then
                   (case py_getattr task field_name of
                      Some (VList xs) \<Rightarrow>
                        fill_task E Q S n
                          (py_setattr task field_name (VList (xs @ [field_value]))) rest
                    | _ \<Rightarrow> Some (Inl (AttributeError ''append'')))
                 else fill_task E Q S n (py_setattr task field_name field_value) rest))"

text \<open>The three \<open>getattr(module, class_name, None)\<close> in their order.\<close>

definition resolve_class :: "('d, 'v) runtime \<Rightarrow> string \<Rightarrow> constructor option" where
  "resolve_class E class_name =
     (case visual_tasks E class_name of
        Some c \<Rightarrow> Some c
      | None \<Rightarrow>
          (case statistic_tasks E class_name of
             Some c \<Rightarrow> Some c
           | None \<Rightarrow> ml_tasks E class_name))"

definition cannot_retrieve_parent_message :: "string \<Rightarrow> string" where
  "cannot_retrieve_parent_message task_iri =
     ''Cannot retrieve parent of task with iri '' @ task_iri @ ''. Exiting...''"

text \<open>\<open>task.type\<close> of \<open>Task(task_iri, Task(task_parent_iri))\<close> is the short name of the
  parent class. A missing method is reported by a \<open>print\<close> only, so the read of
  \<open>method.type\<close> that follows raises.\<close>

definition parse_task_by_iri :: "('d, 'v) runtime \<Rightarrow> query_utils \<Rightarrow> exe_kg \<Rightarrow> nat \<Rightarrow> heap \<Rightarrow> string
    \<Rightarrow> nat option \<Rightarrow> (error + fvalue) option" where
  "parse_task_by_iri E Q S n h task_iri canvas_method =
     (case query_entity_parent_iri Q (input_kg S) task_iri
             (namespace (top_level_schema S) @ ''AtomicTask'') of
        None \<Rightarrow> Some (Inl (SystemExit (cannot_retrieve_parent_message task_iri)))
      | Some task_parent_iri \<Rightarrow>
          (case get_method_by_task_iri Q (input_kg S) (namespace_prefix (top_level_schema S))
                  (namespace (top_level_schema S)) task_iri of
             None \<Rightarrow> Some (Inl (AttributeError_NoneType ''type''))
           | Some method \<Rightarrow>
               (case (split_hash_1 task_parent_iri, entity_type method) of
                  (Some task_type, Some method_type) \<Rightarrow>
                    (case resolve_class E (task_type @ method_type) of
                       None \<Rightarrow> Some (Inl TypeError_NoneType_not_callable)
                     | Some Class \<Rightarrow>
                         (case Class h task_iri (Task_obj task_parent_iri VNone) canvas_method of
                            Inl e \<Rightarrow> Some (Inl e)
                          | Inr task \<Rightarrow>
                              fill_task E Q S n task (triples_of (input_kg S) task_iri)))
                | _ \<Rightarrow> Some (Inl TypeError_NoneType_concat))))"

subsection \<open>Execution: \<open>execute_pipeline\<close>\<close>

text \<open>The local variables of \<open>execute_pipeline\<close> and the object store. \<open>visited\<close> is a
  record of the iterations, kept for the statements below: the IRI of the task parsed, the
  canvas context passed to \<open>parse_task_by_iri\<close>, and the identity of the object it
  returned.\<close>

record 'v exec_state =
  objects :: heap
  next_id :: nat
  canvas_method :: "nat option"
  task_output_dict :: "string \<rightharpoonup> 'v"
  visited :: "(string \<times> nat option \<times> nat) list"

text \<open>The \<open>while next_task_iri is not None\<close> loop. It need not end (a chain of next-links
  may come back to a task); the bound counts iterations, \<open>None\<close> is the answer of a run
  that needs more.\<close>

fun pipeline_loop :: "('d, 'v) runtime \<Rightarrow> query_utils \<Rightarrow> exe_kg \<Rightarrow> nat \<Rightarrow> 'd \<Rightarrow> nat \<Rightarrow> 'v exec_state
    \<Rightarrow> string option \<Rightarrow> (error + 'v exec_state) option" where
  "pipeline_loop E Q S depth input_data steps st None = Some (Inr st)"
| "pipeline_loop E Q S depth input_data 0 st (Some next_task_iri) = None"
| "pipeline_loop E Q S depth input_data (Suc steps) st (Some next_task_iri) =
     (case parse_task_by_iri E Q S depth (objects st) next_task_iri (canvas_method st) of
        None \<Rightarrow> None
      | Some (Inl e) \<Rightarrow> Some (Inl e)
      | Some (Inr next_task) \<Rightarrow>
          (let i = next_id st in
           case run_method E ((objects st)(i := next_task)) i (task_output_dict st) input_data of
             Inl e \<Rightarrow> Some (Inl e)
           | Inr (h, output) \<Rightarrow>
               (case py_getattr (h i) ''type'' of
                  None \<Rightarrow> Some (Inl (AttributeError ''type''))
                | Some ty \<Rightarrow>
                    (let st' = st\<lparr> objects := h, next_id := Suc i,
                                 canvas_method :=
                                   (if ty = VStr ''CanvasTask'' then Some i else canvas_method st),
                                 task_output_dict :=
                                   (case output of
                                      None \<Rightarrow> task_output_dict st
                                    | Some out \<Rightarrow> task_output_dict st ++ out),
                                 visited :=
                                   visited st @ [(next_task_iri, canvas_method st, i)] \<rparr>
                     in case py_getattr (h i) ''has_next_task'' of
                          None \<Rightarrow> Some (Inl (AttributeError ''has_next_task''))
                        | Some VNone \<Rightarrow> pipeline_loop E Q S depth input_data steps st' None
                        | Some (VStr iri') \<Rightarrow>
                            pipeline_loop E Q S depth input_data steps st' (Some iri')
                        | Some other \<Rightarrow> Some (Inl NotAnIRI)))))"

definition initial_exec_state :: "'v exec_state" where
  "initial_exec_state =
     \<lparr> objects = (\<lambda>i. VNone), next_id = 0, canvas_method = None,
       task_output_dict = Map.empty, visited = [] \<rparr>"

definition execute_pipeline :: "('d, 'v) runtime \<Rightarrow> query_utils \<Rightarrow> exe_kg \<Rightarrow> nat \<Rightarrow> nat
    \<Rightarrow> (error + 'v exec_state) option" where
  "execute_pipeline E Q S depth steps =
     (case get_pipeline_and_first_task_iri Q (input_kg S)
             (namespace_prefix (top_level_schema S)) of
        Inl e \<Rightarrow> Some (Inl e)
      | Inr (pipeline_iri, input_data_path, next_task_iri) \<Rightarrow>
          (case read_csv E input_data_path of
             Inl e \<Rightarrow> Some (Inl e)
           | Inr input_data \<Rightarrow>
               pipeline_loop E Q S depth input_data steps initial_exec_state next_task_iri))"

subsection \<open>Construction sessions\<close>

text \<open>What \<open>__init__\<close> fixes for the life of an engine: the top-level schema is the Data
  Science schema, the Visualization schema is the one of \<open>KG_SCHEMAS\<close>, and the
  bottom-level schema is one of the table.\<close>

definition session_schemas :: "exe_kg \<Rightarrow> bool" where
  "session_schemas S =
     (namespace (top_level_schema S) = namespace ds_schema_info
      \<and> namespace_prefix (top_level_schema S) = namespace_prefix ds_schema_info
      \<and> namespace (visu_schema S) = namespace visu_schema_info
      \<and> namespace (bottom_level_schema S) \<in> set (map (\<lambda>entry. namespace (snd entry)) KG_SCHEMAS))"

text \<open>A call of \<open>add_task\<close>, by its arguments, and a sequence of calls made one after
  the other on the same engine; the sequence ends at the first call that fails.\<close>

type_synonym add_task_call =
  "string \<times> (string \<rightharpoonup> data_entity list) \<times> string \<times> (string \<rightharpoonup> pyval) \<times> bool"

fun add_tasks :: "query_utils \<Rightarrow> exe_kg \<Rightarrow> add_task_call list \<Rightarrow> (error + task list) \<times> exe_kg" where
  "add_tasks Q S [] = (Inr [], S)"
| "add_tasks Q S ((task_type, inputs, method_type, properties, visualization) # calls) =
     (case add_task Q S task_type inputs method_type properties visualization of
        (Inl e, S') \<Rightarrow> (Inl e, S')
      | (Inr t, S') \<Rightarrow>
          (case add_tasks Q S' calls of
             (Inl e, S'') \<Rightarrow> (Inl e, S'')
           | (Inr ts, S'') \<Rightarrow> (Inr (t # ts), S'')))"

text \<open>The key under which a task or method type is counted: the short name of the class
  \<open>namespace + type\<close>, which is the type itself when it has no \<open>#\<close>.\<close>

definition type_key :: "string \<Rightarrow> string" where
  "type_key ty = takeWhile (\<lambda>c. c \<noteq> CHR ''#'') ty"

text \<open>Two states of one engine that differ in the output graph only.\<close>

definition same_session :: "exe_kg \<Rightarrow> exe_kg \<Rightarrow> bool" where
  "same_session S S' = (S' = S\<lparr> output_kg := output_kg S' \<rparr>)"

subsection \<open>An example schema and its collaborators\<close>

text \<open>A small schema in the shape of the ExeKG ontologies, used to run the engine on
  concrete inputs: a Statistics task \<open>Filter\<close> with one input slot, one output slot, the
  method \<open>MeanFilter\<close> and its data property \<open>hasWindowSize\<close>, and the Visualization
  tasks \<open>CanvasTask\<close> and \<open>PlotTask\<close> with their methods.\<close>

definition ds :: "string \<Rightarrow> string" where
  "ds x = namespace ds_schema_info @ x"

definition stats :: "string \<Rightarrow> string" where
  "stats x = namespace stats_schema_info @ x"

definition visu :: "string \<Rightarrow> string" where
  "visu x = namespace visu_schema_info @ x"

definition XSD_int :: string where
  "XSD_int = ''http://www.w3.org/2001/XMLSchema#int''"

definition example_subclasses :: "string \<Rightarrow> string list" where
  "example_subclasses cls =
     (if cls = ds ''AtomicTask'' then [stats ''Filter'', visu ''CanvasTask'', visu ''PlotTask'']
      else if cls = ds ''AtomicMethod''
      then [stats ''MeanFilter'', visu ''CanvasMethod'', visu ''LineplotMethod'']
      else if cls = ds ''DataEntity''
      then [stats ''DataInFilter'', stats ''DataOutFilter'', visu ''DataInPlot'']
      else [])"

text \<open>The first object \<open>o\<close> of a triple \<open>(s, p, o)\<close> of the graph that passes a test.\<close>

definition first_object :: "graph \<Rightarrow> string \<Rightarrow> string \<Rightarrow> (node \<Rightarrow> bool) \<Rightarrow> node option" where
  "first_object g s p ok =
     map_option (\<lambda>t. snd (snd t)) (find (\<lambda>t. fst t = s \<and> fst (snd t) = p \<and> ok (snd (snd t))) g)"

definition is_uri_in :: "string list \<Rightarrow> node \<Rightarrow> bool" where
  "is_uri_in xs ob = (case ob of URIRef i \<Rightarrow> i \<in> set xs | Literal v dt \<Rightarrow> False)"

definition example_parent_iri :: "graph \<Rightarrow> string \<Rightarrow> string \<Rightarrow> string option" where
  "example_parent_iri g e upper =
     map_option node_str (first_object g e RDF_type (is_uri_in (upper # example_subclasses upper)))"

definition example_method_of :: "graph \<Rightarrow> string \<Rightarrow> entity option" where
  "example_method_of g task_iri =
     (case find (\<lambda>t. fst t = task_iri
                     \<and> example_parent_iri g (node_str (snd (snd t))) (ds ''AtomicMethod'') \<noteq> None) g of
        None \<Rightarrow> None
      | Some t \<Rightarrow>
          (case example_parent_iri g (node_str (snd (snd t))) (ds ''AtomicMethod'') of
             None \<Rightarrow> None
           | Some c \<Rightarrow> Some (Entity (node_str (snd (snd t))) (Some (Entity c None)))))"

definition example_pipeline_entry :: "graph \<Rightarrow> error + string \<times> string \<times> string option" where
  "example_pipeline_entry g =
     (case find (\<lambda>t. fst (snd t) = RDF_type \<and> snd (snd t) = URIRef (ds ''Pipeline'')) g of
        None \<Rightarrow> Inl (ExternalError ''no pipeline'')
      | Some t \<Rightarrow>
          (case first_object g (fst t) (ds ''hasInputDataPath'') (\<lambda>ob. True) of
             None \<Rightarrow> Inl (ExternalError ''no input data path'')
           | Some path_node \<Rightarrow>
               Inr (fst t, node_str path_node,
                    map_option node_str (first_object g (fst t) (ds ''hasStartTask'') (\<lambda>ob. True)))))"

definition example_queries :: query_utils where
  "example_queries =
     \<lparr> get_subclasses_of = (\<lambda>cls g. example_subclasses cls),
       get_input_properties_and_inputs = (\<lambda>g prefix c.
         if c = stats ''Filter'' then [(stats ''hasFilterInput'', stats ''DataInFilter'')]
         else if c = visu ''PlotTask'' then [(visu ''hasPlotInput'', visu ''DataInPlot'')]
         else []),
       get_output_properties_and_outputs = (\<lambda>g prefix c.
         if c = stats ''Filter'' then [(stats ''hasFilterOutput'', stats ''DataOutFilter'')]
         else []),
       get_method_properties_and_methods = (\<lambda>g prefix c.
         if c = stats ''Filter'' then [(stats ''hasMeanFilterMethod'', stats ''MeanFilter'')]
         else if c = visu ''CanvasTask'' then [(visu ''hasCanvasMethod'', visu ''CanvasMethod'')]
         else if c = visu ''PlotTask'' then [(visu ''hasLineplotMethod'', visu ''LineplotMethod'')]
         else []),
       get_data_properties_plus_inherited_by_class_iri = (\<lambda>g c.
         if c = stats ''MeanFilter'' then [(stats ''hasWindowSize'', XSD_int)] else []),
       get_pipeline_and_first_task_iri = (\<lambda>g prefix. example_pipeline_entry g),
       get_method_by_task_iri = (\<lambda>g prefix ns task_iri. example_method_of g task_iri),
       query_entity_parent_iri = example_parent_iri,
       query_data_entity_reference_iri = (\<lambda>g prefix e.
         map_option node_str (first_object g e (ds ''hasReference'') (\<lambda>ob. True))) \<rparr>"

text \<open>The ontologies are loaded as empty graphs: the example answers the schema queries
  from the tables above.\<close>

definition example_load :: "string \<Rightarrow> graph" where
  "example_load p = []"

text \<open>A construction session on the Statistics schema with its pipeline root, and a data
  entity to bind.\<close>

definition example_engine :: exe_kg where
  "example_engine = projr (ExeKG_init example_queries example_load (Some ''Statistics'') None)"

definition example_session :: exe_kg where
  "example_session = snd (create_pipeline_task example_engine ''Pipeline1'' ''data.csv'')"

definition example_data :: data_entity where
  "example_data = create_data_entity example_session ''de1'' ''column1'' ''TimeSeries'' ''Vector''"

definition filter_call :: add_task_call where
  "filter_call = (''Filter'', [''DataInFilter'' \<mapsto> [example_data]], ''MeanFilter'',
                  [''hasWindowSize'' \<mapsto> PInt 5], False)"

text \<open>A call of \<open>add_task\<close> on the example session that names a method, \<open>KMeans\<close>,
  which the example schema does not list for \<open>Filter\<close>.\<close>

definition incompatible_method_run :: "(error + task) \<times> exe_kg" where
  "incompatible_method_run =
     add_task example_queries example_session ''Filter'' [''DataInFilter'' \<mapsto> [example_data]]
       ''KMeans'' [''hasWindowSize'' \<mapsto> PInt 5] False"

text \<open>Two calls of \<open>add_task\<close> on the example session for \<open>Filter\<close> with
  \<open>MeanFilter\<close>: one without a value for the declared property \<open>hasWindowSize\<close>, one
  with the value 5.\<close>

definition missing_property_run :: "(error + task) \<times> exe_kg" where
  "missing_property_run =
     add_task example_queries example_session ''Filter'' [''DataInFilter'' \<mapsto> [example_data]]
       ''MeanFilter'' Map.empty False"

definition complete_run :: "(error + task) \<times> exe_kg" where
  "complete_run =
     add_task example_queries example_session ''Filter'' [''DataInFilter'' \<mapsto> [example_data]]
       ''MeanFilter'' [''hasWindowSize'' \<mapsto> PInt 5] False"

text \<open>The triple that attaches to a task the bound copy made for a slot, a task-type
  ordinal and a same-slot ordinal.\<close>

definition input_link :: "exe_kg \<Rightarrow> task \<Rightarrow> string \<Rightarrow> int \<Rightarrow> int \<Rightarrow> triple" where
  "input_link S t slot_iri idx k =
     (iri (task_entity t), namespace (top_level_schema S) @ ''hasInput'',
      URIRef (slot_iri @ str_int idx @ ''_'' @ str_int k))"

text \<open>A task of the example session with two data entities bound to its one input
  slot.\<close>

definition example_data2 :: data_entity where
  "example_data2 = create_data_entity example_session ''de2'' ''column2'' ''TimeSeries'' ''Vector''"

definition example_task_state :: "(error + task) \<times> exe_kg" where
  "example_task_state = instantiate_task example_session (namespace stats_schema_info) ''Filter''"

definition two_inputs_run :: "(error + task) \<times> exe_kg" where
  "two_inputs_run =
     add_inputs_to_task example_queries (snd example_task_state) (projr (fst example_task_state))
       [''DataInFilter'' \<mapsto> [example_data, example_data2]]"

subsection \<open>The stages of an example call\<close>

text \<open>The steps of \<open>add_task\<close> for \<open>Filter\<close> on the example session, one by one: the task
  node (\<open>example_task_state\<close> above), its inputs, its outputs.\<close>

definition example_inputs_state :: "(error + task) \<times> exe_kg" where
  "example_inputs_state =
     add_inputs_to_task example_queries (snd example_task_state) (projr (fst example_task_state))
       [''DataInFilter'' \<mapsto> [example_data]]"

definition example_outputs_state :: "(error + task) \<times> exe_kg" where
  "example_outputs_state =
     add_outputs_to_task example_queries (snd example_inputs_state) (projr (fst example_inputs_state))"

text \<open>The node of a bound copy in the graph: its type triple and its reference to the
  data entity it was made for.\<close>

definition copy_node :: "exe_kg \<Rightarrow> string \<Rightarrow> int \<Rightarrow> int \<Rightarrow> data_entity \<Rightarrow> triple list" where
  "copy_node S slot_iri idx k e =
     [(slot_iri @ str_int idx @ ''_'' @ str_int k, RDF_type, URIRef slot_iri),
      (slot_iri @ str_int idx @ ''_'' @ str_int k, namespace (top_level_schema S) @ ''hasReference'',
       URIRef (iri (de_entity e)))]"

subsection \<open>An example runtime and a persisted pipeline\<close>

text \<open>The field names of the predicates the example graphs use, in the manner of
  \<open>property_name_to_field_name\<close>; any other predicate maps to its fragment.\<close>

definition example_field_name :: "string \<Rightarrow> error + string" where
  "example_field_name p =
     (if p = RDF_type then Inr ''type''
      else (case split_hash_1 p of
              None \<Rightarrow> Inl IndexError
            | Some n \<Rightarrow>
                (case map_of [(''hasNextTask'', ''has_next_task''), (''hasInput'', ''has_input''),
                              (''hasOutput'', ''has_output''), (''hasReference'', ''has_reference''),
                              (''hasSource'', ''has_source''),
                              (''hasDataStructure'', ''has_data_structure''),
                              (''hasDataSemantics'', ''has_data_semantics'')] n of
                   None \<Rightarrow> Inr n
                 | Some f \<Rightarrow> Inr f)))"

text \<open>A task class of the example: a \<open>Task\<close> that keeps the canvas context it is
  given.\<close>

definition example_class :: "string \<Rightarrow> constructor" where
  "example_class cls h i parent canvas =
     Inr (VObj cls (entity_attrs i parent @ task_attrs
            @ [(''canvas_method'', (case canvas of None \<Rightarrow> VNone | Some c \<Rightarrow> VRef c))]))"

definition example_runtime :: "(unit, string) runtime" where
  "example_runtime =
     \<lparr> property_name_to_field_name = example_field_name,
       visual_tasks = map_of
         [(''CanvasTaskCanvasMethod'', example_class ''CanvasTaskCanvasMethod''),
          (''PlotTaskLineplotMethod'', example_class ''PlotTaskLineplotMethod'')],
       statistic_tasks = Map.empty,
       ml_tasks = Map.empty,
       run_method = (\<lambda>h i outs d. Inr (h, None)),
       read_csv = (\<lambda>p. Inr ()) \<rparr>"

text \<open>A pipeline built on the example session, a canvas task and two plot tasks, and the
  engine that loads its graph for execution.\<close>

definition canvas_call :: add_task_call where
  "canvas_call = (''CanvasTask'', Map.empty, ''CanvasMethod'', Map.empty, True)"

definition plot_call :: add_task_call where
  "plot_call = (''PlotTask'', [''DataInPlot'' \<mapsto> [example_data]], ''LineplotMethod'', Map.empty, True)"


definition example_bindings :: "ns_binding list" where
  "example_bindings =
     [binding_of ds_schema_info, binding_of stats_schema_info, binding_of visu_schema_info]"


text \<open>The engine that loads the graph of the \<open>Filter\<close> task made above: the example
  runtime has no class \<open>FilterMeanFilter\<close>.\<close>

definition example_filter_executor :: exe_kg where
  "example_filter_executor =
     projr (ExeKG_init example_queries example_load None
              (Some (output_kg (snd complete_run), example_bindings)))"

subsection \<open>The fields of a parsed object, field by field\<close>






subsection \<open>Chains of tasks\<close>





section \<open>Properties\<close>

subsection \<open>Strings\<close>

lemma of_char_digit_char: "d < 10 \<Longrightarrow> of_char (digit_char d) = (48 + d :: nat)"
  by (simp add: digit_char_def)

lemma digit_char_inj: "a < 10 \<Longrightarrow> b < 10 \<Longrightarrow> digit_char a = digit_char b \<Longrightarrow> a = b"
proof -
  assume a: "a < 10" and b: "b < 10" and e: "digit_char a = digit_char b"
  have "(48 + a :: nat) = of_char (digit_char a)" using a by (simp only: of_char_digit_char)
  also have "\<dots> = of_char (digit_char b)" by (simp only: e)
  also have "\<dots> = 48 + b" using b by (simp only: of_char_digit_char)
  finally show "a = b" by (simp only: add_left_cancel)
qed

lemma str_nat_nonempty: "str_nat n \<noteq> []"
  by (subst str_nat.simps) simp

lemma str_nat_inj: "str_nat a = str_nat b \<Longrightarrow> a = b"
proof (induction a arbitrary: b rule: str_nat.induct)
  case (1 n)
  show ?case
  proof (cases "n < 10")
    case True
    then have sn: "str_nat n = [digit_char n]" by (subst str_nat.simps) simp
    show ?thesis
    proof (cases "b < 10")
      case True
      then have "str_nat b = [digit_char b]" by (subst str_nat.simps) simp
      with sn 1(2) \<open>n < 10\<close> True show ?thesis by (auto dest: digit_char_inj)
    next
      case False
      then have "str_nat b = str_nat (b div 10) @ [digit_char (b mod 10)]" by (subst str_nat.simps) simp
      with sn 1(2) have "str_nat (b div 10) = []" by (metis append_butlast_last_id butlast_snoc butlast.simps(2) list.distinct(1) self_append_conv2)
      then show ?thesis using str_nat_nonempty by blast
    qed
  next
    case False
    then have sn: "str_nat n = str_nat (n div 10) @ [digit_char (n mod 10)]" by (subst str_nat.simps) simp
    show ?thesis
    proof (cases "b < 10")
      case True
      then have "str_nat b = [digit_char b]" by (subst str_nat.simps) simp
      with sn 1(2) have "str_nat (n div 10) = []" by (metis append_butlast_last_id butlast_snoc butlast.simps(2) list.distinct(1) self_append_conv2)
      then show ?thesis using str_nat_nonempty by blast
    next
      case b: False
      then have sb: "str_nat b = str_nat (b div 10) @ [digit_char (b mod 10)]" by (subst str_nat.simps) simp
      from sn sb 1(2) have e1: "str_nat (n div 10) = str_nat (b div 10)" and e2: "digit_char (n mod 10) = digit_char (b mod 10)" by auto
      from 1(1)[OF False e1] have "n div 10 = b div 10" .
      moreover from e2 have "n mod 10 = b mod 10" by (auto dest!: digit_char_inj[rotated 2])
      ultimately show ?thesis by (metis div_mult_mod_eq)
    qed
  qed
qed

lemma digit_char_not_hash: "d < 10 \<Longrightarrow> digit_char d \<noteq> CHR ''#''"
proof
  assume d: "d < 10" and e: "digit_char d = CHR ''#''"
  have "(48 + d :: nat) = of_char (digit_char d)" using d by (simp only: of_char_digit_char)
  also have "\<dots> = of_char (CHR ''#'')" by (simp only: e)
  also have "\<dots> = 35" by simp
  finally show False by arith
qed

lemma str_nat_no_hash: "CHR ''#'' \<notin> set (str_nat n)"
proof (induction n rule: str_nat.induct)
  case (1 n)
  have d: "digit_char (n mod 10) \<noteq> CHR ''#''" by (rule digit_char_not_hash) simp
  show ?case
  proof (cases "n < 10")
    case True
    then show ?thesis using digit_char_not_hash[of n] by (subst str_nat.simps) auto
  next
    case False
    then show ?thesis using 1 d by (subst str_nat.simps) auto
  qed
qed

lemma str_int_nonneg_inj: "0 \<le> a \<Longrightarrow> 0 \<le> b \<Longrightarrow> str_int a = str_int b \<Longrightarrow> a = b"
  by (auto simp: str_int_def dest: str_nat_inj)

lemma str_int_no_hash: "0 \<le> a \<Longrightarrow> CHR ''#'' \<notin> set (str_int a)"
  by (simp add: str_int_def str_nat_no_hash)

lemma split_hash_1_ns:
  "CHR ''#'' \<notin> set base \<Longrightarrow> split_hash_1 (base @ CHR ''#'' # x) = Some (takeWhile (\<lambda>c. c \<noteq> CHR ''#'') x)"
  by (simp add: split_hash_1_def dropWhile_append3 dropWhile_append)

lemma ontology_base_no_hash: "CHR ''#'' \<notin> set ontology_base"
  by (simp add: ontology_base_def)

lemma split_hash_1_ds: "split_hash_1 (namespace ds_schema_info @ x) = Some (takeWhile (\<lambda>c. c \<noteq> CHR ''#'') x)"
  using split_hash_1_ns [of "ontology_base @ ''ds_exeKGOntology.ttl''" x] ontology_base_no_hash
  by (simp add: ds_schema_info_def)

lemma split_hash_1_visu: "split_hash_1 (namespace visu_schema_info @ x) = Some (takeWhile (\<lambda>c. c \<noteq> CHR ''#'') x)"
  using split_hash_1_ns [of "ontology_base @ ''visu_exeKGOntology.ttl''" x] ontology_base_no_hash
  by (simp add: visu_schema_info_def)

lemma split_hash_1_stats: "split_hash_1 (namespace stats_schema_info @ x) = Some (takeWhile (\<lambda>c. c \<noteq> CHR ''#'') x)"
  using split_hash_1_ns [of "ontology_base @ ''stats_exeKGOntology.ttl''" x] ontology_base_no_hash
  by (simp add: stats_schema_info_def)

lemma split_hash_1_ml: "split_hash_1 (namespace ml_schema_info @ x) = Some (takeWhile (\<lambda>c. c \<noteq> CHR ''#'') x)"
  using split_hash_1_ns [of "ontology_base @ ''ml_exeKGOntology.ttl''" x] ontology_base_no_hash
  by (simp add: ml_schema_info_def)

subsection \<open>Detection of the bottom-level schema\<close>

lemma search_bottom_level_schema_KG_SCHEMAS:
  "search_bottom_level_schema KG_SCHEMAS all_ns =
     (if binding_of stats_schema_info \<in> set all_ns then Some stats_schema_info
      else if binding_of ml_schema_info \<in> set all_ns then Some ml_schema_info
      else None)"
  by (simp add: KG_SCHEMAS_def)

lemma detect_bottom_level_schema_eq:
  "detect_bottom_level_schema all_ns =
     (if binding_of stats_schema_info \<in> set all_ns then Inr stats_schema_info
      else if binding_of ml_schema_info \<in> set all_ns then Inr ml_schema_info
      else if binding_of visu_schema_info \<in> set all_ns then Inr visu_schema_info
      else Inl (SystemExit ''Input executable KG did not have any bottom level KG schemas''))"
  by (simp add: detect_bottom_level_schema_def search_bottom_level_schema_KG_SCHEMAS)

lemma visu_schema_info_distinct:
  "visu_schema_info \<noteq> stats_schema_info" "visu_schema_info \<noteq> ml_schema_info"
  by (simp_all add: visu_schema_info_def stats_schema_info_def ml_schema_info_def)

subsection \<open>Namespaces and graphs\<close>

lemma split_hash_1_session_ns:
  assumes "ns \<in> set (map (\<lambda>entry. namespace (snd entry)) KG_SCHEMAS)"
  shows "split_hash_1 (ns @ x) = Some (type_key x)"
  using assms
  by (auto simp: KG_SCHEMAS_def type_key_def split_hash_1_ds split_hash_1_visu split_hash_1_stats split_hash_1_ml)

lemma entity_name_top_entity:
  "session_schemas S \<Longrightarrow> CHR ''#'' \<notin> set x \<Longrightarrow> entity_name (top_entity S x) = Some x"
  by (auto simp: entity_name_def top_entity_def session_schemas_def split_hash_1_ds takeWhile_eq_all_conv)

lemma entity_name_atomic_task: "session_schemas S \<Longrightarrow> entity_name (atomic_task S) = Some ''AtomicTask''"
  by (simp add: atomic_task_def entity_name_top_entity)

lemma entity_name_atomic_method: "session_schemas S \<Longrightarrow> entity_name (atomic_method S) = Some ''AtomicMethod''"
  by (simp add: atomic_method_def entity_name_top_entity)

lemma entity_name_pipeline_class: "session_schemas S \<Longrightarrow> entity_name (pipeline_class S) = Some ''Pipeline''"
  by (simp add: pipeline_class_def entity_name_top_entity)

lemma kg_add_set: "set (kg_add g t) = insert t (set g)"
  by (auto simp: kg_add_def)

lemma kg_add_distinct: "distinct g \<Longrightarrow> distinct (kg_add g t)"
  by (auto simp: kg_add_def)

lemma add_instance_set:
  "set (add_instance g e) = (case parent_entity e of None \<Rightarrow> set g | Some p \<Rightarrow> insert (iri e, RDF_type, URIRef (iri p)) (set g))"
  by (simp add: add_instance_def kg_add_set split: option.splits)

lemma add_relation_set:
  "set (add_relation g a r b) = insert (iri a, r, URIRef (iri b)) (set g)"
  by (simp add: add_relation_def kg_add_set)

lemma add_literal_set: "set (add_literal g a r l) = insert (iri a, r, l) (set g)"
  by (simp add: add_literal_def kg_add_set)

lemma add_optional_relation_mono: "set g \<subseteq> set (add_optional_relation g e r x)"
  by (auto simp: add_optional_relation_def kg_add_set split: option.splits)

lemma add_optional_relation_set:
  "set (add_optional_relation g e r x) = (case x of None \<Rightarrow> set g | Some y \<Rightarrow> insert (iri e, r, URIRef y) (set g))"
  by (auto simp: add_optional_relation_def kg_add_set split: option.splits)

lemma add_data_entity_instance_mono: "set g \<subseteq> set (add_data_entity_instance g d tk ns de)"
  by (auto simp: add_data_entity_instance_def Let_def add_optional_relation_set add_instance_set add_literal_set split: option.splits)

lemma add_and_attach_data_entity_mono: "set g \<subseteq> set (add_and_attach_data_entity g d tk ns de r t)"
  using add_data_entity_instance_mono [of g d tk ns de] by (auto simp: add_and_attach_data_entity_def add_relation_set)

lemma add_and_attach_data_entity_link:
  "(iri t, r, URIRef (iri (de_entity de))) \<in> set (add_and_attach_data_entity g d tk ns de r t)"
  by (simp add: add_and_attach_data_entity_def add_relation_set)

lemma add_data_entity_instance_reference:
  "has_reference de = Some x \<Longrightarrow> (iri (de_entity de), ns @ ''hasReference'', URIRef x) \<in> set (add_data_entity_instance g d tk ns de)"
  by (simp add: add_data_entity_instance_def Let_def add_optional_relation_set)

subsection \<open>Construction: what the steps of \<open>add_task\<close> leave unchanged\<close>

lemma entity_type_under: "entity_type (Entity i (Some p)) = entity_name p"
  by (simp add: entity_type_def)

lemma entity_name_Entity: "entity_name (Entity i p) = split_hash_1 i"
  by (simp add: entity_name_def)

lemma name_instance_task_class:
  assumes "session_schemas S"
  shows "name_instance td md (Entity i (Some (atomic_task S))) =
     (case split_hash_1 i of
        None \<Rightarrow> Inl IndexError
      | Some nm \<Rightarrow> (case td nm of None \<Rightarrow> Inl (KeyError nm)
                     | Some c \<Rightarrow> Inr (nm @ str_int c, td(nm \<mapsto> c + 1), md)))"
proof -
  have ty: "entity_type (Entity i (Some (atomic_task S))) = Some ''AtomicTask''"
    using assms by (simp add: entity_type_under entity_name_atomic_task)
  show ?thesis
    unfolding name_instance_def ty entity_name_Entity by (simp split: option.splits)
qed

lemma name_instance_method_class:
  assumes "session_schemas S"
  shows "name_instance td md (Entity i (Some (atomic_method S))) =
     (case split_hash_1 i of
        None \<Rightarrow> Inl IndexError
      | Some nm \<Rightarrow> (case md nm of None \<Rightarrow> Inl (KeyError nm)
                     | Some c \<Rightarrow> Inr (nm @ str_int c, td, md(nm \<mapsto> c + 1))))"
proof -
  have ty: "entity_type (Entity i (Some (atomic_method S))) = Some ''AtomicMethod''"
    using assms by (simp add: entity_type_under entity_name_atomic_method)
  show ?thesis
    unfolding name_instance_def ty entity_name_Entity by (simp split: option.splits)
qed

lemma bound_copy_output_kg [simp]: "bound_copy (S\<lparr>output_kg := g\<rparr>) = bound_copy S"
  by (rule ext)+ (simp add: bound_copy_def data_entity_class_def top_entity_def)

lemma data_class_output_kg [simp]: "data_class (S\<lparr>output_kg := g\<rparr>) = data_class S"
  by (simp add: data_class_def top_entity_def)

lemma data_entity_class_output_kg [simp]: "data_entity_class (S\<lparr>output_kg := g\<rparr>) = data_entity_class S"
  by (simp add: data_entity_class_def top_entity_def)

lemma same_session_refl [simp]: "same_session S S"
  by (simp add: same_session_def)

lemma same_session_update [simp]: "same_session S (S\<lparr>output_kg := g\<rparr>)"
  by (simp add: same_session_def)

lemma same_session_trans: "same_session S S1 \<Longrightarrow> same_session S1 S2 \<Longrightarrow> same_session S S2"
proof -
  assume a: "same_session S S1" and b: "same_session S1 S2"
  from b have "S2 = S1\<lparr>output_kg := output_kg S2\<rparr>" by (simp add: same_session_def)
  also from a have "S1 = S\<lparr>output_kg := output_kg S1\<rparr>" by (simp add: same_session_def)
  finally have "S2 = S\<lparr>output_kg := output_kg S2\<rparr>" by simp
  then show ?thesis by (simp add: same_session_def)
qed

lemma same_session_update_left: "same_session (S\<lparr>output_kg := g\<rparr>) S' \<Longrightarrow> same_session S S'"
  using same_session_trans [OF same_session_update] .

lemma same_session_fields:
  assumes "same_session S S'"
  shows "top_level_schema S' = top_level_schema S" "bottom_level_schema S' = bottom_level_schema S"
    "visu_schema S' = visu_schema S" "input_kg S' = input_kg S"
    "task_type_dict S' = task_type_dict S" "method_type_dict S' = method_type_dict S"
    "last_created_task S' = last_created_task S"
proof -
  from assms have e: "S' = S\<lparr>output_kg := output_kg S'\<rparr>" by (simp add: same_session_def)
  show "top_level_schema S' = top_level_schema S" by (subst e) simp
  show "bottom_level_schema S' = bottom_level_schema S" by (subst e) simp
  show "visu_schema S' = visu_schema S" by (subst e) simp
  show "input_kg S' = input_kg S" by (subst e) simp
  show "task_type_dict S' = task_type_dict S" by (subst e) simp
  show "method_type_dict S' = method_type_dict S" by (subst e) simp
  show "last_created_task S' = last_created_task S" by (subst e) simp
qed

lemma bind_inputs_frame:
  "bind_inputs S t i nm idx k es = (t', S') \<Longrightarrow>
     same_session S S' \<and> set (output_kg S) \<subseteq> set (output_kg S')
     \<and> task_entity t' = task_entity t \<and> output_dict t' = output_dict t"
proof (induction es arbitrary: S t k)
  case Nil
  then show ?case by simp
next
  case (Cons e es)
  let ?g1 = "add_data_entity_instance (output_kg S) (data_class S) (kg (top_level_schema S))
                 (namespace (top_level_schema S)) e"
  let ?de = "bound_copy S i idx k e"
  let ?g2 = "add_and_attach_data_entity ?g1 (data_class S) (kg (top_level_schema S))
                 (namespace (top_level_schema S)) ?de
                 (namespace (top_level_schema S) @ ''hasInput'') (task_entity t)"
  from Cons.prems have rec: "bind_inputs (S\<lparr>output_kg := ?g2\<rparr>) (t\<lparr>input_dict := (input_dict t)(nm \<mapsto> ?de)\<rparr>) i nm idx (k + 1) es = (t', S')"
    by (simp add: Let_def)
  note ih = Cons.IH [OF rec]
  from ih have "same_session (S\<lparr>output_kg := ?g2\<rparr>) S'" by (rule conjunct1)
  then have g: "same_session S S'" by (rule same_session_update_left)
  from ih have sub: "set ?g2 \<subseteq> set (output_kg S')" by simp
  from ih have rest: "task_entity t' = task_entity t" "output_dict t' = output_dict t" by simp_all
  have "set (output_kg S) \<subseteq> set ?g1" by (rule add_data_entity_instance_mono)
  also have "\<dots> \<subseteq> set ?g2" by (rule add_and_attach_data_entity_mono)
  finally have "set (output_kg S) \<subseteq> set (output_kg S')" using sub by blast
  with g rest show ?case by (intro conjI)
qed

lemma add_inputs_loop_frame:
  "add_inputs_loop S t d idx results = (r, S') \<Longrightarrow>
     same_session S S' \<and> set (output_kg S) \<subseteq> set (output_kg S')"
proof (induction results arbitrary: S t)
  case Nil
  then have "S' = S" by simp
  then show ?case by simp
next
  case (Cons pr results)
  obtain rel i where pr: "pr = (rel, i)" by (cases pr)
  show ?case
  proof (cases "split_hash_1 i")
    case None
    with Cons.prems pr have "S' = S" by simp
    then show ?thesis by simp
  next
    case (Some nm)
    show ?thesis
    proof (cases "d nm")
      case None
      with Cons.prems pr Some have "S' = S" by simp
      then show ?thesis by simp
    next
      case es: (Some es)
      obtain t1 S1 where b: "bind_inputs S t i nm idx 1 es = (t1, S1)" by (cases "bind_inputs S t i nm idx 1 es")
      from Cons.prems pr Some es b have rec: "add_inputs_loop S1 t1 d idx results = (r, S')" by simp
      from bind_inputs_frame [OF b] have f1: "same_session S S1" "set (output_kg S) \<subseteq> set (output_kg S1)"
        by simp_all
      from Cons.IH [OF rec] have f2: "same_session S1 S'" "set (output_kg S1) \<subseteq> set (output_kg S')"
        by simp_all
      from f1(1) f2(1) have "same_session S S'" by (rule same_session_trans)
      moreover from f1(2) f2(2) have "set (output_kg S) \<subseteq> set (output_kg S')" by (rule order_trans)
      ultimately show ?thesis by (rule conjI)
    qed
  qed
qed

lemma add_inputs_loop_task:
  "add_inputs_loop S t d idx results = (Inr t', S') \<Longrightarrow>
     task_entity t' = task_entity t \<and> output_dict t' = output_dict t"
proof (induction results arbitrary: S t)
  case Nil
  then have "t' = t" by simp
  then show ?case by simp
next
  case (Cons pr results)
  obtain rel i where pr: "pr = (rel, i)" by (cases pr)
  show ?case
  proof (cases "split_hash_1 i")
    case None
    with Cons.prems pr show ?thesis by simp
  next
    case (Some nm)
    show ?thesis
    proof (cases "d nm")
      case None
      with Cons.prems pr Some show ?thesis by simp
    next
      case es: (Some es)
      obtain t1 S1 where b: "bind_inputs S t i nm idx 1 es = (t1, S1)" by (cases "bind_inputs S t i nm idx 1 es")
      from Cons.prems pr Some es b have rec: "add_inputs_loop S1 t1 d idx results = (Inr t', S')" by simp
      from bind_inputs_frame [OF b] have f1: "task_entity t1 = task_entity t" "output_dict t1 = output_dict t"
        by simp_all
      from Cons.IH [OF rec] have f2: "task_entity t' = task_entity t1" "output_dict t' = output_dict t1"
        by simp_all
      from f1 f2 show ?thesis by (simp only:)
    qed
  qed
qed

lemma add_inputs_to_task_cases:
  assumes "add_inputs_to_task Q S t d = (r, S')"
  shows "(S' = S \<and> (\<exists>e. r = Inl e)) \<or>
     (\<exists>p idx. parent_entity (task_entity t) = Some p \<and> task_type_index_of S t = Inr idx \<and>
        add_inputs_loop S t d idx (get_input_properties_and_inputs Q (input_kg S)
          (namespace_prefix (top_level_schema S)) (iri p)) = (r, S'))"
proof (cases "parent_entity (task_entity t)")
  case None
  with assms have "r = Inl (AttributeError_NoneType ''iri'')" "S' = S" by (simp_all add: add_inputs_to_task_def)
  then show ?thesis by simp
next
  case (Some p)
  show ?thesis
  proof (cases "task_type_index_of S t")
    case (Inl e)
    with assms Some have "r = Inl e" "S' = S" by (simp_all add: add_inputs_to_task_def)
    then show ?thesis by simp
  next
    case (Inr idx)
    with assms Some show ?thesis by (simp add: add_inputs_to_task_def)
  qed
qed

lemma add_inputs_to_task_frame:
  assumes "add_inputs_to_task Q S t d = (r, S')"
  shows "same_session S S' \<and> set (output_kg S) \<subseteq> set (output_kg S')"
  using add_inputs_to_task_cases [OF assms]
proof (elim disjE exE conjE)
  assume "S' = S"
  then show ?thesis by simp
next
  fix p idx
  assume "add_inputs_loop S t d idx (get_input_properties_and_inputs Q (input_kg S)
          (namespace_prefix (top_level_schema S)) (iri p)) = (r, S')"
  then show ?thesis by (rule add_inputs_loop_frame)
qed

lemma add_inputs_to_task_task:
  assumes "add_inputs_to_task Q S t d = (Inr t', S')"
  shows "task_entity t' = task_entity t \<and> output_dict t' = output_dict t"
  using add_inputs_to_task_cases [OF assms]
proof (elim disjE exE conjE)
  fix e assume "Inr t' = Inl e"
  then show ?thesis by simp
next
  fix p idx
  assume "add_inputs_loop S t d idx (get_input_properties_and_inputs Q (input_kg S)
          (namespace_prefix (top_level_schema S)) (iri p)) = (Inr t', S')"
  then show ?thesis by (rule add_inputs_loop_task)
qed

lemma add_outputs_loop_frame:
  "add_outputs_loop S t idx results = (r, S') \<Longrightarrow>
     same_session S S' \<and> set (output_kg S) \<subseteq> set (output_kg S')"
proof (induction results arbitrary: S t)
  case Nil
  then have "S' = S" by simp
  then show ?case by simp
next
  case (Cons pr results)
  obtain rel i where pr: "pr = (rel, i)" by (cases pr)
  let ?de = "DataEntity (i @ str_int idx) (Some (data_entity_class S)) None None None None"
  let ?g = "add_and_attach_data_entity (output_kg S) (data_class S) (kg (top_level_schema S))
                (namespace (top_level_schema S)) ?de
                (namespace (top_level_schema S) @ ''hasOutput'') (task_entity t)"
  have m: "set (output_kg S) \<subseteq> set ?g" by (rule add_and_attach_data_entity_mono)
  show ?case
  proof (cases "split_hash_1 i")
    case None
    with Cons.prems pr have "S' = S\<lparr>output_kg := ?g\<rparr>" by (simp add: Let_def)
    with m show ?thesis by simp
  next
    case (Some nm)
    with Cons.prems pr have rec: "add_outputs_loop (S\<lparr>output_kg := ?g\<rparr>) (t\<lparr>output_dict := (output_dict t)(nm \<mapsto> ?de)\<rparr>) idx results = (r, S')"
      by (simp add: Let_def)
    from Cons.IH [OF rec] have f: "same_session (S\<lparr>output_kg := ?g\<rparr>) S'" "set ?g \<subseteq> set (output_kg S')"
      by simp_all
    from f(1) have "same_session S S'" by (rule same_session_update_left)
    moreover from m f(2) have "set (output_kg S) \<subseteq> set (output_kg S')" by (rule order_trans)
    ultimately show ?thesis by (rule conjI)
  qed
qed

lemma add_outputs_loop_task:
  "add_outputs_loop S t idx results = (Inr t', S') \<Longrightarrow>
     task_entity t' = task_entity t \<and> input_dict t' = input_dict t"
proof (induction results arbitrary: S t)
  case Nil
  then have "t' = t" by simp
  then show ?case by simp
next
  case (Cons pr results)
  obtain rel i where pr: "pr = (rel, i)" by (cases pr)
  let ?de = "DataEntity (i @ str_int idx) (Some (data_entity_class S)) None None None None"
  let ?g = "add_and_attach_data_entity (output_kg S) (data_class S) (kg (top_level_schema S))
                (namespace (top_level_schema S)) ?de
                (namespace (top_level_schema S) @ ''hasOutput'') (task_entity t)"
  show ?case
  proof (cases "split_hash_1 i")
    case None
    with Cons.prems pr show ?thesis by (simp add: Let_def)
  next
    case (Some nm)
    with Cons.prems pr have rec: "add_outputs_loop (S\<lparr>output_kg := ?g\<rparr>) (t\<lparr>output_dict := (output_dict t)(nm \<mapsto> ?de)\<rparr>) idx results = (Inr t', S')"
      by (simp add: Let_def)
    from Cons.IH [OF rec] show ?thesis by simp
  qed
qed

lemma add_outputs_to_task_cases:
  assumes "add_outputs_to_task Q S t = (r, S')"
  shows "(S' = S \<and> (\<exists>e. r = Inl e)) \<or>
     (\<exists>p idx. parent_entity (task_entity t) = Some p \<and> task_type_index_of S t = Inr idx \<and>
        add_outputs_loop S t idx (get_output_properties_and_outputs Q (input_kg S)
          (namespace_prefix (top_level_schema S)) (iri p)) = (r, S'))"
proof (cases "parent_entity (task_entity t)")
  case None
  with assms have "r = Inl (AttributeError_NoneType ''iri'')" "S' = S" by (simp_all add: add_outputs_to_task_def)
  then show ?thesis by simp
next
  case (Some p)
  show ?thesis
  proof (cases "task_type_index_of S t")
    case (Inl e)
    with assms Some have "r = Inl e" "S' = S" by (simp_all add: add_outputs_to_task_def)
    then show ?thesis by simp
  next
    case (Inr idx)
    with assms Some show ?thesis by (simp add: add_outputs_to_task_def)
  qed
qed

lemma add_outputs_to_task_frame:
  assumes "add_outputs_to_task Q S t = (r, S')"
  shows "same_session S S' \<and> set (output_kg S) \<subseteq> set (output_kg S')"
  using add_outputs_to_task_cases [OF assms]
proof (elim disjE exE conjE)
  assume "S' = S"
  then show ?thesis by simp
next
  fix p idx
  assume "add_outputs_loop S t idx (get_output_properties_and_outputs Q (input_kg S)
          (namespace_prefix (top_level_schema S)) (iri p)) = (r, S')"
  then show ?thesis by (rule add_outputs_loop_frame)
qed

lemma add_outputs_to_task_task:
  assumes "add_outputs_to_task Q S t = (Inr t', S')"
  shows "task_entity t' = task_entity t \<and> input_dict t' = input_dict t"
  using add_outputs_to_task_cases [OF assms]
proof (elim disjE exE conjE)
  fix e assume "Inr t' = Inl e"
  then show ?thesis by simp
next
  fix p idx
  assume "add_outputs_loop S t idx (get_output_properties_and_outputs Q (input_kg S)
          (namespace_prefix (top_level_schema S)) (iri p)) = (Inr t', S')"
  then show ?thesis by (rule add_outputs_loop_task)
qed

lemma add_properties_mono:
  "add_properties g t props ps = (r, g') \<Longrightarrow> set g \<subseteq> set g'"
proof (induction ps arbitrary: g)
  case Nil
  then show ?case by simp
next
  case (Cons pr ps)
  obtain p rg where pr: "pr = (p, rg)" by (cases pr)
  show ?case
  proof (cases "split_hash_1 p")
    case None
    with Cons.prems pr have "g' = g" by simp
    then show ?thesis by simp
  next
    case (Some nm)
    show ?thesis
    proof (cases "props nm")
      case None
      with Cons.prems pr Some have "g' = g" by simp
      then show ?thesis by simp
    next
      case v: (Some v)
      with Cons.prems pr Some have "add_properties (add_literal g (task_entity t) p (Literal v rg)) t props ps = (r, g')" by simp
      from Cons.IH [OF this] show ?thesis by (simp add: add_literal_set)
    qed
  qed
qed

subsection \<open>Construction: the stages of \<open>add_task\<close>\<close>

lemma session_schemas_cong:
  "top_level_schema S' = top_level_schema S \<Longrightarrow> bottom_level_schema S' = bottom_level_schema S \<Longrightarrow>
   visu_schema S' = visu_schema S \<Longrightarrow> session_schemas S' = session_schemas S"
  by (simp add: session_schemas_def)

lemma same_session_schemas: "same_session S S' \<Longrightarrow> session_schemas S' = session_schemas S"
  by (rule session_schemas_cong) (simp_all add: same_session_fields)

lemma atomic_task_cong: "top_level_schema S' = top_level_schema S \<Longrightarrow> atomic_task S' = atomic_task S"
  by (simp add: atomic_task_def top_entity_def)

lemma atomic_method_cong: "top_level_schema S' = top_level_schema S \<Longrightarrow> atomic_method S' = atomic_method S"
  by (simp add: atomic_method_def top_entity_def)

lemma namespace_bottom_session: "session_schemas S \<Longrightarrow> 
   namespace (bottom_level_schema S) \<in> set (map (\<lambda>entry. namespace (snd entry)) KG_SCHEMAS)"
  by (simp add: session_schemas_def)

lemma namespace_visu_session: "session_schemas S \<Longrightarrow> 
   namespace (visu_schema S) \<in> set (map (\<lambda>entry. namespace (snd entry)) KG_SCHEMAS)"
  by (simp add: session_schemas_def KG_SCHEMAS_def)

lemma instantiate_task_Inl: "instantiate_task S ns tt = (Inl e, S1) \<Longrightarrow> S1 = S"
  by (auto simp: instantiate_task_def Let_def split: option.splits sum.splits prod.splits)

lemma instantiate_task_Inr:
  assumes ss: "session_schemas S"
    and ns: "ns \<in> set (map (\<lambda>entry. namespace (snd entry)) KG_SCHEMAS)"
    and r: "instantiate_task S ns tt = (Inr t, S1)"
  shows "\<exists>prev c. last_created_task S = Some prev \<and> task_type_dict S (type_key tt) = Some c
     \<and> t = Task (namespace (bottom_level_schema S) @ type_key tt @ str_int c)
             (Some (Entity (ns @ tt) (Some (atomic_task S))))
     \<and> S1 = S\<lparr> task_type_dict := (task_type_dict S)(type_key tt \<mapsto> c + 1),
               method_type_dict := method_type_dict S,
               output_kg := add_relation
                  (add_instance (output_kg S)
                     (Entity (namespace (bottom_level_schema S) @ type_key tt @ str_int c)
                        (Some (Entity (ns @ tt) (Some (atomic_task S))))))
                  (task_entity prev) (task_link S prev)
                  (Entity (namespace (bottom_level_schema S) @ type_key tt @ str_int c)
                        (Some (Entity (ns @ tt) (Some (atomic_task S))))) \<rparr>"
proof -
  from r obtain prev where prev: "last_created_task S = Some prev"
    by (cases "last_created_task S") (simp_all add: instantiate_task_def)
  have ni: "name_instance (task_type_dict S) (method_type_dict S) (Entity (ns @ tt) (Some (atomic_task S)))
     = (case task_type_dict S (type_key tt) of None \<Rightarrow> Inl (KeyError (type_key tt))
        | Some c \<Rightarrow> Inr (type_key tt @ str_int c, (task_type_dict S)(type_key tt \<mapsto> c + 1), method_type_dict S))"
    by (simp add: name_instance_task_class [OF ss] split_hash_1_session_ns [OF ns])
  from r prev ni obtain c where c: "task_type_dict S (type_key tt) = Some c"
    by (cases "task_type_dict S (type_key tt)") (simp_all add: instantiate_task_def Let_def)
  from r prev ni c show ?thesis
    by (simp add: instantiate_task_def Let_def add_instance_from_parent_with_relation_def
        Task_from_entity_def)
qed


lemma attach_method_mono:
  assumes "attach_method Q S t mp ch props = (r, S')"
  shows "set (output_kg S) \<subseteq> set (output_kg S')"
proof (cases "name_instance (task_type_dict S) (method_type_dict S) mp")
  case (Inl e)
  with assms have "S' = S" by (simp add: attach_method_def)
  then show ?thesis by simp
next
  case (Inr x)
  obtain nm td md where x: "x = (nm, td, md)" by (cases x)
  let ?g = "snd (add_instance_from_parent_with_relation (namespace (bottom_level_schema S))
              (output_kg S) mp (fst ch) (task_entity t) nm)"
  let ?pl = "get_data_properties_plus_inherited_by_class_iri Q (input_kg S) (iri mp)"
  obtain r0 g' where ap: "add_properties ?g t props ?pl = (r0, g')" by (cases "add_properties ?g t props ?pl")
  have m1: "set (output_kg S) \<subseteq> set ?g"
    by (auto simp: add_instance_from_parent_with_relation_def Let_def add_relation_set add_instance_set)
  from add_properties_mono [OF ap] have m2: "set ?g \<subseteq> set g'" .
  from assms Inr x ap have "output_kg S' = g'"
    by (cases r0) (auto simp: attach_method_def Let_def)
  with m1 m2 show ?thesis by simp
qed

lemma attach_method_Inr:
  assumes ss: "session_schemas S"
    and r: "attach_method Q S t (Entity i (Some (atomic_method S))) ch props = (Inr t', S')"
  shows "t' = t \<and> task_type_dict S' = task_type_dict S \<and> top_level_schema S' = top_level_schema S
     \<and> bottom_level_schema S' = bottom_level_schema S \<and> visu_schema S' = visu_schema S
     \<and> input_kg S' = input_kg S \<and> last_created_task S' = Some t
     \<and> dom (method_type_dict S) \<subseteq> dom (method_type_dict S')"
proof -
  let ?mp = "Entity i (Some (atomic_method S))"
  have ni: "name_instance (task_type_dict S) (method_type_dict S) ?mp =
     (case split_hash_1 i of
        None \<Rightarrow> Inl IndexError
      | Some nm \<Rightarrow> (case method_type_dict S nm of None \<Rightarrow> Inl (KeyError nm)
                     | Some c \<Rightarrow> Inr (nm @ str_int c, task_type_dict S, (method_type_dict S)(nm \<mapsto> c + 1))))"
    by (rule name_instance_method_class [OF ss])
  from r obtain x where x: "name_instance (task_type_dict S) (method_type_dict S) ?mp = Inr x"
    by (cases "name_instance (task_type_dict S) (method_type_dict S) ?mp") (simp_all add: attach_method_def)
  obtain nm td md where xx: "x = (nm, td, md)" by (cases x)
  from x xx ni have td: "td = task_type_dict S" and md: "dom (method_type_dict S) \<subseteq> dom md"
    by (auto split: option.splits)
  let ?g = "snd (add_instance_from_parent_with_relation (namespace (bottom_level_schema S))
              (output_kg S) ?mp (fst ch) (task_entity t) nm)"
  let ?pl = "get_data_properties_plus_inherited_by_class_iri Q (input_kg S) (iri ?mp)"
  obtain r0 g' where ap: "add_properties ?g t props ?pl = (r0, g')" by (cases "add_properties ?g t props ?pl")
  from r x xx ap have "t' = t \<and> S' = S\<lparr>task_type_dict := td, method_type_dict := md, output_kg := g', last_created_task := Some t\<rparr>"
    by (cases r0) (auto simp: attach_method_def Let_def)
  then have t: "t' = t" and S': "S' = S\<lparr>task_type_dict := td, method_type_dict := md, output_kg := g', last_created_task := Some t\<rparr>"
    by simp_all
  show ?thesis unfolding S' t using td md by simp
qed


lemma add_task_stages:
  obtains
    (instantiate_fails) e where
      "instantiate_task S (namespace_to_use S vis) tt = (Inl e, S)"
      "add_task Q S tt ins mt props vis = (Inl e, S)"
  | (inputs_fail) t1 S1 e S2 where
      "instantiate_task S (namespace_to_use S vis) tt = (Inr t1, S1)"
      "add_inputs_to_task Q S1 t1 ins = (Inl e, S2)"
      "add_task Q S tt ins mt props vis = (Inl e, S2)"
  | (outputs_fail) t1 S1 t2 S2 e S3 where
      "instantiate_task S (namespace_to_use S vis) tt = (Inr t1, S1)"
      "add_inputs_to_task Q S1 t1 ins = (Inr t2, S2)"
      "add_outputs_to_task Q S2 t2 = (Inl e, S3)"
      "add_task Q S tt ins mt props vis = (Inl e, S3)"
  | (no_parent) t1 S1 t2 S2 t3 S3 where
      "instantiate_task S (namespace_to_use S vis) tt = (Inr t1, S1)"
      "add_inputs_to_task Q S1 t1 ins = (Inr t2, S2)"
      "add_outputs_to_task Q S2 t2 = (Inr t3, S3)"
      "parent_entity (task_entity t3) = None"
      "add_task Q S tt ins mt props vis = (Inl (AttributeError_NoneType ''iri''), S3)"
  | (method_search_fails) t1 S1 t2 S2 t3 S3 p e where
      "instantiate_task S (namespace_to_use S vis) tt = (Inr t1, S1)"
      "add_inputs_to_task Q S1 t1 ins = (Inr t2, S2)"
      "add_outputs_to_task Q S2 t2 = (Inr t3, S3)"
      "parent_entity (task_entity t3) = Some p"
      "find_method mt (get_method_properties_and_methods Q (input_kg S3)
          (namespace_prefix (top_level_schema S3)) (iri p)) = Inl e"
      "add_task Q S tt ins mt props vis = (Inl e, S3)"
  | (method_not_found) t1 S1 t2 S2 t3 S3 p where
      "instantiate_task S (namespace_to_use S vis) tt = (Inr t1, S1)"
      "add_inputs_to_task Q S1 t1 ins = (Inr t2, S2)"
      "add_outputs_to_task Q S2 t2 = (Inr t3, S3)"
      "parent_entity (task_entity t3) = Some p"
      "find_method mt (get_method_properties_and_methods Q (input_kg S3)
          (namespace_prefix (top_level_schema S3)) (iri p)) = Inr None"
      "add_task Q S tt ins mt props vis = (Inl (SystemExit (incompatible_method_message tt mt)), S3)"
  | (method_found) t1 S1 t2 S2 t3 S3 p ch where
      "instantiate_task S (namespace_to_use S vis) tt = (Inr t1, S1)"
      "add_inputs_to_task Q S1 t1 ins = (Inr t2, S2)"
      "add_outputs_to_task Q S2 t2 = (Inr t3, S3)"
      "parent_entity (task_entity t3) = Some p"
      "find_method mt (get_method_properties_and_methods Q (input_kg S3)
          (namespace_prefix (top_level_schema S3)) (iri p)) = Inr (Some ch)"
      "add_task Q S tt ins mt props vis =
         attach_method Q S3 t3 (Entity (namespace_to_use S vis @ mt) (Some (atomic_method S3))) ch props"
proof -
  let ?ns = "namespace_to_use S vis"
  obtain r1 S1 where i: "instantiate_task S ?ns tt = (r1, S1)" by (cases "instantiate_task S ?ns tt")
  show ?thesis
  proof (cases r1)
    case (Inl e)
    with i instantiate_task_Inl [of S ?ns tt e S1] have "S1 = S" by simp
    with i Inl show ?thesis
      by (intro instantiate_fails [of e]) (simp_all add: add_task_def)
  next
    case t1: (Inr t1)
    obtain r2 S2 where a: "add_inputs_to_task Q S1 t1 ins = (r2, S2)" by (cases "add_inputs_to_task Q S1 t1 ins")
    show ?thesis
    proof (cases r2)
      case (Inl e)
      with i t1 a show ?thesis
        by (intro inputs_fail [of t1 S1 e S2]) (simp_all add: add_task_def)
    next
      case t2: (Inr t2)
      obtain r3 S3 where b: "add_outputs_to_task Q S2 t2 = (r3, S3)" by (cases "add_outputs_to_task Q S2 t2")
      show ?thesis
      proof (cases r3)
        case (Inl e)
        with i t1 a t2 b show ?thesis
          by (intro outputs_fail [of t1 S1 t2 S2 e S3]) (simp_all add: add_task_def)
      next
        case t3: (Inr t3)
        show ?thesis
        proof (cases "parent_entity (task_entity t3)")
          case None
          with i t1 a t2 b t3 show ?thesis
            by (intro no_parent [of t1 S1 t2 S2 t3 S3]) (simp_all add: add_task_def Let_def)
        next
          case (Some p)
          let ?f = "find_method mt (get_method_properties_and_methods Q (input_kg S3)
                      (namespace_prefix (top_level_schema S3)) (iri p))"
          show ?thesis
          proof (cases ?f)
            case (Inl e)
            with i t1 a t2 b t3 Some show ?thesis
              by (intro method_search_fails [of t1 S1 t2 S2 t3 S3 p e]) (simp_all add: add_task_def Let_def)
          next
            case (Inr m)
            show ?thesis
            proof (cases m)
              case None
              with Inr i t1 a t2 b t3 Some show ?thesis
                by (intro method_not_found [of t1 S1 t2 S2 t3 S3 p]) (simp_all add: add_task_def Let_def)
            next
              case ch: (Some ch)
              with Inr i t1 a t2 b t3 Some show ?thesis
                by (intro method_found [of t1 S1 t2 S2 t3 S3 p ch]) (simp_all add: add_task_def Let_def)
            qed
          qed
        qed
      qed
    qed
  qed
qed

lemma namespace_to_use_session:
  "session_schemas S \<Longrightarrow> namespace_to_use S vis \<in> set (map (\<lambda>entry. namespace (snd entry)) KG_SCHEMAS)"
  using namespace_bottom_session [of S] namespace_visu_session [of S]
  by (simp add: namespace_to_use_def)

lemma entity_type_Task: "entity_type (task_entity (Task i (Some p))) = entity_name p"
  by (simp add: Task_def entity_type_def)

lemma add_task_Inr:
  assumes ss: "session_schemas S"
    and r: "add_task Q S tt ins mt props vis = (Inr t, S')"
  shows "\<exists>c. task_type_dict S (type_key tt) = Some c
     \<and> iri (task_entity t) = namespace (bottom_level_schema S) @ type_key tt @ str_int c
     \<and> entity_type (task_entity t) = Some (type_key tt)
     \<and> task_type_dict S' = (task_type_dict S)(type_key tt \<mapsto> c + 1)
     \<and> top_level_schema S' = top_level_schema S
     \<and> bottom_level_schema S' = bottom_level_schema S
     \<and> visu_schema S' = visu_schema S
     \<and> input_kg S' = input_kg S
     \<and> last_created_task S' = Some t
     \<and> dom (method_type_dict S) \<subseteq> dom (method_type_dict S')
     \<and> set (output_kg S) \<subseteq> set (output_kg S')"
proof (cases rule: add_task_stages [of S vis tt Q ins mt props])
  case (instantiate_fails e)
  with r show ?thesis by simp
next
  case (inputs_fail t1 S1 e S2)
  with r show ?thesis by simp
next
  case (outputs_fail t1 S1 t2 S2 e S3)
  with r show ?thesis by simp
next
  case (no_parent t1 S1 t2 S2 t3 S3)
  with r show ?thesis by simp
next
  case (method_search_fails t1 S1 t2 S2 t3 S3 p e)
  with r show ?thesis by simp
next
  case (method_not_found t1 S1 t2 S2 t3 S3 p)
  with r show ?thesis by simp
next
  case (method_found t1 S1 t2 S2 t3 S3 p ch)
  let ?ns = "namespace_to_use S vis"
  note ns = namespace_to_use_session [OF ss, of vis]
  from instantiate_task_Inr [OF ss ns method_found(1)]
  obtain prev c where prev: "last_created_task S = Some prev"
    and c: "task_type_dict S (type_key tt) = Some c"
    and t1: "t1 = Task (namespace (bottom_level_schema S) @ type_key tt @ str_int c)
             (Some (Entity (?ns @ tt) (Some (atomic_task S))))"
    and S1: "S1 = S\<lparr> task_type_dict := (task_type_dict S)(type_key tt \<mapsto> c + 1),
               method_type_dict := method_type_dict S,
               output_kg := add_relation
                  (add_instance (output_kg S)
                     (Entity (namespace (bottom_level_schema S) @ type_key tt @ str_int c)
                        (Some (Entity (?ns @ tt) (Some (atomic_task S))))))
                  (task_entity prev) (task_link S prev)
                  (Entity (namespace (bottom_level_schema S) @ type_key tt @ str_int c)
                        (Some (Entity (?ns @ tt) (Some (atomic_task S))))) \<rparr>"
    by blast
  have S1f: "top_level_schema S1 = top_level_schema S" "bottom_level_schema S1 = bottom_level_schema S"
    "visu_schema S1 = visu_schema S" "input_kg S1 = input_kg S"
    "task_type_dict S1 = (task_type_dict S)(type_key tt \<mapsto> c + 1)"
    "method_type_dict S1 = method_type_dict S"
    by (simp_all add: S1)
  have g1: "set (output_kg S) \<subseteq> set (output_kg S1)"
    by (auto simp: S1 add_relation_set add_instance_set)
  note f2 = add_inputs_to_task_frame [OF method_found(2)]
  note e2 = add_inputs_to_task_task [OF method_found(2)]
  note f3 = add_outputs_to_task_frame [OF method_found(3)]
  note e3 = add_outputs_to_task_task [OF method_found(3)]
  from f2 f3 have s13: "same_session S1 S3" by (metis same_session_trans)
  note S3f = same_session_fields [OF s13]
  from f2 f3 g1 have g3: "set (output_kg S) \<subseteq> set (output_kg S3)" by (metis order_trans)
  have ss3: "session_schemas S3"
    using ss session_schemas_cong [of S3 S] S3f(1-3) S1f(1-3) by simp
  have am: "atomic_method S3 = atomic_method S"
    using atomic_method_cong [of S3 S] S3f(1) S1f(1) by simp
  from e2 e3 have te: "task_entity t3 = task_entity t1" by simp
  from r method_found(6) have at: "attach_method Q S3 t3 (Entity (?ns @ mt) (Some (atomic_method S3))) ch props = (Inr t, S')"
    by simp
  note A = attach_method_Inr [OF ss3 at]
  note M = attach_method_mono [OF at]
  have "iri (task_entity t) = namespace (bottom_level_schema S) @ type_key tt @ str_int c"
    using A te t1 by (simp add: Task_def)
  moreover have "entity_type (task_entity t) = Some (type_key tt)"
    using A te t1 split_hash_1_session_ns [OF ns, of tt] by (simp add: entity_type_Task entity_name_Entity)
  moreover have "task_type_dict S' = (task_type_dict S)(type_key tt \<mapsto> c + 1)"
    using A S3f(5) S1f(5) by simp
  moreover have "top_level_schema S' = top_level_schema S" using A S3f(1) S1f(1) by simp
  moreover have "bottom_level_schema S' = bottom_level_schema S" using A S3f(2) S1f(2) by simp
  moreover have "visu_schema S' = visu_schema S" using A S3f(3) S1f(3) by simp
  moreover have "input_kg S' = input_kg S" using A S3f(4) S1f(4) by simp
  moreover have "last_created_task S' = Some t" using A by simp
  moreover have "dom (method_type_dict S) \<subseteq> dom (method_type_dict S')" using A S3f(6) S1f(6) by simp
  moreover have "set (output_kg S) \<subseteq> set (output_kg S')" using g3 M by (rule order_trans)
  ultimately show ?thesis using c by simp
qed

subsection \<open>Sessions: \<open>__init__\<close>, \<open>parse_kgs\<close>, \<open>create_pipeline_task\<close>\<close>

lemma seed_types_dict:
  "seed_types parent ts lst d = Inr (lst', d') \<Longrightarrow>
     (\<forall>t \<in> set ts. split_hash_1 t \<noteq> None)
     \<and> (\<forall>nm. d' nm = (if \<exists>t \<in> set ts. split_hash_1 t = Some nm then Some 1 else d nm))"
proof (induction ts arbitrary: lst d)
  case Nil
  then show ?case by simp
next
  case (Cons t ts)
  from Cons.prems obtain nm where nm: "split_hash_1 t = Some nm"
    by (cases "split_hash_1 t") (simp_all add: Let_def entity_name_Entity)
  with Cons.prems have rec: "seed_types parent ts (lst @ [Entity t (Some parent)]) (d(nm \<mapsto> 1)) = Inr (lst', d')"
    by (simp add: Let_def entity_name_Entity)
  from Cons.IH [OF rec] have a: "\<forall>t \<in> set ts. split_hash_1 t \<noteq> None"
    and b: "\<And>k. d' k = (if \<exists>t \<in> set ts. split_hash_1 t = Some k then Some 1 else (d(nm \<mapsto> 1)) k)"
    by simp_all
  from a nm have "\<forall>t \<in> set (t # ts). split_hash_1 t \<noteq> None" by simp
  moreover have "\<forall>k. d' k = (if \<exists>t \<in> set (t # ts). split_hash_1 t = Some k then Some 1 else d k)"
    using b nm by auto
  ultimately show ?case by (rule conjI)
qed

lemma parse_kgs_Inr:
  assumes "parse_kgs Q S = Inr S'"
  shows "top_level_schema S' = top_level_schema S \<and> bottom_level_schema S' = bottom_level_schema S
    \<and> visu_schema S' = visu_schema S \<and> input_kg S' = input_kg S \<and> output_kg S' = output_kg S
    \<and> last_created_task S' = last_created_task S
    \<and> (\<forall>nm. task_type_dict S' nm =
          (if \<exists>t \<in> set (get_subclasses_of Q (iri (atomic_task S)) (input_kg S)). split_hash_1 t = Some nm
           then Some 1 else task_type_dict S nm))
    \<and> (\<forall>nm. method_type_dict S' nm =
          (if \<exists>t \<in> set (get_subclasses_of Q (iri (atomic_method S)) (input_kg S)). split_hash_1 t = Some nm
           then Some 1 else method_type_dict S nm))
    \<and> (\<forall>t \<in> set (get_subclasses_of Q (iri (atomic_task S)) (input_kg S)). split_hash_1 t \<noteq> None)
    \<and> (\<forall>t \<in> set (get_subclasses_of Q (iri (atomic_method S)) (input_kg S)). split_hash_1 t \<noteq> None)"
proof -
  let ?s1 = "seed_types (atomic_task S) (get_subclasses_of Q (iri (atomic_task S)) (input_kg S))
             (atomic_task_list S) (task_type_dict S)"
  let ?s2 = "seed_types (atomic_method S) (get_subclasses_of Q (iri (atomic_method S)) (input_kg S))
                  (atomic_method_list S) (method_type_dict S)"
  from assms obtain tasks td where s1: "?s1 = Inr (tasks, td)"
    by (cases ?s1) (auto simp: parse_kgs_def)
  from assms s1 obtain methods md where s2: "?s2 = Inr (methods, md)"
    by (cases ?s2) (auto simp: parse_kgs_def)
  note d1 = seed_types_dict [OF s1]
  note d2 = seed_types_dict [OF s2]
  from assms s1 s2 have S': "task_type_dict S' = td" "method_type_dict S' = md"
    "top_level_schema S' = top_level_schema S" "bottom_level_schema S' = bottom_level_schema S"
    "visu_schema S' = visu_schema S" "input_kg S' = input_kg S" "output_kg S' = output_kg S"
    "last_created_task S' = last_created_task S"
    by (auto simp: parse_kgs_def)
  show ?thesis unfolding S' using d1 d2 by simp
qed

lemma ExeKG_init_Inr:
  assumes "ExeKG_init Q load kg_schema_name input_exe_kg = Inr S0"
  shows "session_schemas S0 \<and> output_kg S0 = [] \<and> last_created_task S0 = None
    \<and> (\<forall>nm. task_type_dict S0 nm =
          (if \<exists>t \<in> set (get_subclasses_of Q (iri (atomic_task S0)) (input_kg S0)). split_hash_1 t = Some nm
           then Some 1 else None))
    \<and> (\<forall>nm. method_type_dict S0 nm =
          (if \<exists>t \<in> set (get_subclasses_of Q (iri (atomic_method S0)) (input_kg S0)). split_hash_1 t = Some nm
           then Some 1 else None))
    \<and> (\<forall>t \<in> set (get_subclasses_of Q (iri (atomic_task S0)) (input_kg S0)). split_hash_1 t \<noteq> None)
    \<and> (\<forall>t \<in> set (get_subclasses_of Q (iri (atomic_method S0)) (input_kg S0)). split_hash_1 t \<noteq> None)"
proof -
  let ?sel = "(case input_exe_kg of
              Some (parsed, all_ns) \<Rightarrow>
                (case detect_bottom_level_schema all_ns of
                   Inl e \<Rightarrow> Inl e
                 | Inr si \<Rightarrow> Inr (si, parsed))
            | None \<Rightarrow>
                (case kg_schema_name of
                   None \<Rightarrow> Inl (KeyError ''None'')
                 | Some n \<Rightarrow>
                     (case map_of KG_SCHEMAS n of
                        None \<Rightarrow> Inl (KeyError n)
                      | Some si \<Rightarrow> Inr (si, []))))"
  from assms obtain si g0 where sel: "?sel = Inr (si, g0)"
    by (cases ?sel) (auto simp: ExeKG_init_def)
  have si: "si \<in> {stats_schema_info, ml_schema_info, visu_schema_info} \<or> si \<in> snd ` set KG_SCHEMAS"
  proof (cases input_exe_kg)
    case None
    with sel obtain n where "map_of KG_SCHEMAS n = Some si"
      by (auto split: option.splits)
    then have "(n, si) \<in> set KG_SCHEMAS" by (rule map_of_SomeD)
    then show ?thesis by force
  next
    case (Some a)
    obtain parsed all_ns where a: "a = (parsed, all_ns)" by (cases a)
    with sel Some have "detect_bottom_level_schema all_ns = Inr si"
      by (auto split: sum.splits)
    then show ?thesis by (auto simp: detect_bottom_level_schema_eq split: if_splits)
  qed
  then have ns: "namespace si \<in> set (map (\<lambda>entry. namespace (snd entry)) KG_SCHEMAS)"
    by (auto simp: KG_SCHEMAS_def)
  let ?S = "\<lparr> top_level_schema = from_schema_info load ds_schema_info,
              bottom_level_schema = from_schema_info load si,
              visu_schema = from_schema_info load visu_schema_info,
              input_kg = kg_union g0 (kg_union (kg_union (kg (from_schema_info load ds_schema_info))
                  (kg (from_schema_info load si))) (kg (from_schema_info load visu_schema_info))),
              output_kg = [],
              task_type_dict = Map.empty, method_type_dict = Map.empty,
              atomic_task_list = [], atomic_method_list = [], data_type_list = [],
              data_semantics_list = [], data_structure_list = [],
              last_created_task = None \<rparr>"
  from assms sel have p: "parse_kgs Q ?S = Inr S0"
    by (simp add: ExeKG_init_def Let_def)
  note P = parse_kgs_Inr [OF p]
  have nsf: "namespace (from_schema_info load x) = namespace x"
    "namespace_prefix (from_schema_info load x) = namespace_prefix x" for x
    by (simp_all add: from_schema_info_def schema_info.defs)
  have ss: "session_schemas S0"
    using P ns by (simp add: session_schemas_def nsf)
  have at: "atomic_task S0 = atomic_task ?S" "atomic_method S0 = atomic_method ?S"
    using P by (simp_all add: atomic_task_cong atomic_method_cong)
  show ?thesis using P ss unfolding at by simp
qed

lemma create_pipeline_task_facts:
  assumes "create_pipeline_task S pn ip = (pl, S1)"
  shows "top_level_schema S1 = top_level_schema S \<and> bottom_level_schema S1 = bottom_level_schema S
    \<and> visu_schema S1 = visu_schema S \<and> input_kg S1 = input_kg S
    \<and> task_type_dict S1 = task_type_dict S \<and> method_type_dict S1 = method_type_dict S
    \<and> last_created_task S1 = Some pl
    \<and> task_entity pl = Entity (namespace (bottom_level_schema S) @ pn) (Some (pipeline_class S))"
  using assms
  by (auto simp: create_pipeline_task_def create_pipeline_task_in_def Let_def Task_def)

subsection \<open>Sequences of \<open>add_task\<close> calls\<close>

lemma type_key_no_hash: "CHR ''#'' \<notin> set (type_key x)"
  unfolding type_key_def by (induction x) auto

lemma type_key_idem: "CHR ''#'' \<notin> set x \<Longrightarrow> type_key x = x"
  by (auto simp: type_key_def takeWhile_eq_all_conv)

lemma add_tasks_session:
  "session_schemas S \<Longrightarrow> add_tasks Q S calls = (Inr ts, S') \<Longrightarrow>
     session_schemas S' \<and> bottom_level_schema S' = bottom_level_schema S
     \<and> top_level_schema S' = top_level_schema S \<and> visu_schema S' = visu_schema S
     \<and> dom (task_type_dict S) \<subseteq> dom (task_type_dict S')
     \<and> dom (method_type_dict S) \<subseteq> dom (method_type_dict S')
     \<and> length ts = length calls"
proof (induction calls arbitrary: S ts)
  case Nil
  then show ?case by simp
next
  case (Cons call calls)
  obtain tt ins mt props vis where call: "call = (tt, ins, mt, props, vis)" by (cases call)
  obtain r1 S1 where a: "add_task Q S tt ins mt props vis = (r1, S1)" by (cases "add_task Q S tt ins mt props vis")
  from Cons.prems(2) call a obtain t where r1: "r1 = Inr t" by (cases r1) simp_all
  obtain r2 S2 where b: "add_tasks Q S1 calls = (r2, S2)" by (cases "add_tasks Q S1 calls")
  from Cons.prems(2) call a r1 b obtain ts' where r2: "r2 = Inr ts'" by (cases r2) simp_all
  from Cons.prems(2) call a r1 b r2 have ts: "ts = t # ts'" and S2: "S2 = S'" by simp_all
  from a r1 have a': "add_task Q S tt ins mt props vis = (Inr t, S1)" by simp
  from add_task_Inr [OF Cons.prems(1) a'] obtain c where
    A: "task_type_dict S (type_key tt) = Some c"
       "task_type_dict S1 = (task_type_dict S)(type_key tt \<mapsto> c + 1)"
       "top_level_schema S1 = top_level_schema S" "bottom_level_schema S1 = bottom_level_schema S"
       "visu_schema S1 = visu_schema S" "dom (method_type_dict S) \<subseteq> dom (method_type_dict S1)"
    by blast
  have ss1: "session_schemas S1" using Cons.prems(1) session_schemas_cong [of S1 S] A by simp
  from b r2 S2 have b': "add_tasks Q S1 calls = (Inr ts', S')" by simp
  note IH = Cons.IH [OF ss1 b']
  have d1: "dom (task_type_dict S) \<subseteq> dom (task_type_dict S1)" using A(1,2) by auto
  from IH have d2: "dom (task_type_dict S1) \<subseteq> dom (task_type_dict S')"
    and m2: "dom (method_type_dict S1) \<subseteq> dom (method_type_dict S')" by simp_all
  from d1 d2 have "dom (task_type_dict S) \<subseteq> dom (task_type_dict S')" by (rule order_trans)
  moreover from A(6) m2 have "dom (method_type_dict S) \<subseteq> dom (method_type_dict S')" by (rule order_trans)
  moreover from IH A ts have "session_schemas S'" "bottom_level_schema S' = bottom_level_schema S"
     "top_level_schema S' = top_level_schema S" "visu_schema S' = visu_schema S"
     "length ts = length (call # calls)" by simp_all
  ultimately show ?case by simp
qed

lemma add_tasks_names:
  "session_schemas S \<Longrightarrow> add_tasks Q S calls = (Inr ts, S') \<Longrightarrow>
     (task_type_dict S K = None \<longrightarrow>
        filter (\<lambda>t. entity_type (task_entity t) = Some K) ts = []
        \<and> filter (\<lambda>call. type_key (fst call) = K) calls = [])
     \<and> (\<forall>c. task_type_dict S K = Some c \<longrightarrow>
        map (\<lambda>t. iri (task_entity t)) (filter (\<lambda>t. entity_type (task_entity t) = Some K) ts)
         = map (\<lambda>j. namespace (bottom_level_schema S) @ K @ str_int (c + int j))
             [0..<length (filter (\<lambda>call. type_key (fst call) = K) calls)])"
proof (induction calls arbitrary: S ts)
  case Nil
  then show ?case by simp
next
  case (Cons call calls)
  obtain tt ins mt props vis where call: "call = (tt, ins, mt, props, vis)" by (cases call)
  obtain r1 S1 where a: "add_task Q S tt ins mt props vis = (r1, S1)" by (cases "add_task Q S tt ins mt props vis")
  from Cons.prems(2) call a obtain t where r1: "r1 = Inr t" by (cases r1) simp_all
  obtain r2 S2 where b: "add_tasks Q S1 calls = (r2, S2)" by (cases "add_tasks Q S1 calls")
  from Cons.prems(2) call a r1 b obtain ts' where r2: "r2 = Inr ts'" by (cases r2) simp_all
  from Cons.prems(2) call a r1 b r2 have ts: "ts = t # ts'" and S2: "S2 = S'" by simp_all
  from a r1 have a': "add_task Q S tt ins mt props vis = (Inr t, S1)" by simp
  from add_task_Inr [OF Cons.prems(1) a'] obtain c0 where
    A: "task_type_dict S (type_key tt) = Some c0"
       "iri (task_entity t) = namespace (bottom_level_schema S) @ type_key tt @ str_int c0"
       "entity_type (task_entity t) = Some (type_key tt)"
       "task_type_dict S1 = (task_type_dict S)(type_key tt \<mapsto> c0 + 1)"
       "top_level_schema S1 = top_level_schema S" "bottom_level_schema S1 = bottom_level_schema S"
       "visu_schema S1 = visu_schema S"
    by blast
  have ss1: "session_schemas S1" using Cons.prems(1) session_schemas_cong [of S1 S] A by simp
  from b r2 S2 have b': "add_tasks Q S1 calls = (Inr ts', S')" by simp
  note IH = Cons.IH [OF ss1 b']
  let ?N = "length (filter (\<lambda>call. type_key (fst call) = K) calls)"
  show ?case
  proof (cases "type_key tt = K")
    case True
    with A have d1: "task_type_dict S1 K = Some (c0 + 1)" by simp
    from IH d1 have e: "map (\<lambda>t. iri (task_entity t)) (filter (\<lambda>t. entity_type (task_entity t) = Some K) ts')
         = map (\<lambda>j. namespace (bottom_level_schema S) @ K @ str_int (c0 + 1 + int j)) [0..<?N]"
      using A(6) by simp
    have "map (\<lambda>j. namespace (bottom_level_schema S) @ K @ str_int (c0 + int j)) [0..<Suc ?N]
        = (namespace (bottom_level_schema S) @ K @ str_int c0)
          # map (\<lambda>j. namespace (bottom_level_schema S) @ K @ str_int (c0 + 1 + int j)) [0..<?N]"
      by (simp add: upt_conv_Cons map_Suc_upt [symmetric] del: upt_Suc) (simp add: add.commute add.left_commute)
    with e True A ts call show ?thesis by simp
  next
    case False
    with A have d1: "task_type_dict S1 K = task_type_dict S K" by simp
    from False A ts call have f: "filter (\<lambda>t. entity_type (task_entity t) = Some K) ts
        = filter (\<lambda>t. entity_type (task_entity t) = Some K) ts'"
      "filter (\<lambda>call. type_key (fst call) = K) (call # calls) = filter (\<lambda>call. type_key (fst call) = K) calls"
      by simp_all
    show ?thesis unfolding f using IH d1 A(6) by simp
  qed
qed

lemma map_from_one: "map f [1..<Suc n] = map (\<lambda>j. f (Suc j)) [0..<n]"
proof -
  have "[1..<Suc n] = map Suc [0..<n]" by (simp add: map_Suc_upt)
  then show ?thesis by (simp add: comp_def)
qed

lemma str_int_inj_on_nat: "inj_on (\<lambda>n. str_int (int n)) A"
  by (rule inj_onI) (auto dest: str_int_nonneg_inj [rotated 2])

subsection \<open>Running the example\<close>

text \<open>The namespaces stay folded while the example is evaluated: IRIs are compared by
  their fragments.\<close>

lemma ns_inject: "ds x = ds y \<longleftrightarrow> x = y" "stats x = stats y \<longleftrightarrow> x = y" "visu x = visu y \<longleftrightarrow> x = y"
  by (simp_all add: ds_def stats_def visu_def)

lemma ns_distinct:
  "ds x \<noteq> stats y" "stats y \<noteq> ds x" "ds x \<noteq> visu y" "visu y \<noteq> ds x" "stats x \<noteq> visu y" "visu y \<noteq> stats x"
  by (simp_all add: ds_def stats_def visu_def ds_schema_info_def stats_schema_info_def visu_schema_info_def)

lemma ns_not_RDF_type:
  "ds x \<noteq> RDF_type" "RDF_type \<noteq> ds x" "stats x \<noteq> RDF_type" "RDF_type \<noteq> stats x"
  "visu x \<noteq> RDF_type" "RDF_type \<noteq> visu x"
  by (auto simp: ds_def stats_def visu_def ds_schema_info_def stats_schema_info_def visu_schema_info_def
      RDF_type_def ontology_base_def)

lemma ns_split_hash_1:
  "split_hash_1 (ds x) = Some (type_key x)" "split_hash_1 (stats x) = Some (type_key x)"
  "split_hash_1 (visu x) = Some (type_key x)"
  by (simp_all add: ds_def stats_def visu_def split_hash_1_ds split_hash_1_stats split_hash_1_visu type_key_def)

lemma ns_has_hash: "has_hash (ds x)" "has_hash (stats x)" "has_hash (visu x)"
  by (simp_all add: has_hash_def ds_def stats_def visu_def ds_schema_info_def stats_schema_info_def visu_schema_info_def)

lemma schema_prefixes:
  "namespace_prefix ds_schema_info = ''ds''" "namespace_prefix stats_schema_info = ''stats''"
  "namespace_prefix visu_schema_info = ''visu''"
  by (simp_all add: ds_schema_info_def stats_schema_info_def visu_schema_info_def)

lemma ns_fold:
  "namespace ds_schema_info @ x = ds x" "namespace stats_schema_info @ x = stats x"
  "namespace visu_schema_info @ x = visu x"
  "ds x @ y = ds (x @ y)" "stats x @ y = stats (x @ y)" "visu x @ y = visu (x @ y)"
  unfolding ds_def stats_def visu_def by (simp_all only: append_assoc)

lemma map_of_KG_SCHEMAS_Statistics: "map_of KG_SCHEMAS ''Statistics'' = Some stats_schema_info"
  by (simp add: KG_SCHEMAS_def)

lemma str_int_small: "str_int 0 = ''0''" "str_int 1 = ''1''" "str_int 2 = ''2''" "str_int 3 = ''3''"
  by code_simp+

lemmas eval_strings = ns_inject ns_distinct ns_not_RDF_type ns_split_hash_1 ns_has_hash schema_prefixes
  ns_fold map_of_KG_SCHEMAS_Statistics str_int_small type_key_def

lemmas eval_example = example_engine_def example_session_def example_data_def filter_call_def
  example_queries_def example_load_def example_subclasses_def

lemmas eval_construction = ExeKG_init_def parse_kgs_def from_schema_info_def schema_info.defs kg_schema.defs
  atomic_task_def atomic_method_def data_entity_class_def data_semantics_class_def data_structure_class_def
  data_class_def pipeline_class_def top_entity_def collect_classes_def kg_union_def entity_name_def entity_type_def
  create_pipeline_task_def create_pipeline_task_in_def Task_def add_instance_def add_literal_def kg_add_def
  add_relation_def create_data_entity_def DataEntity_def
  add_task_def namespace_to_use_def instantiate_task_def task_link_def name_instance_def
  add_instance_from_parent_with_relation_def Task_from_entity_def add_inputs_to_task_def task_type_index_of_def
  bound_copy_def add_data_entity_instance_def add_and_attach_data_entity_def add_optional_relation_def
  add_outputs_to_task_def attach_method_def incompatible_method_message_def Let_def

lemma example_engine_init:
  "ExeKG_init example_queries example_load (Some ''Statistics'') None = Inr example_engine"
  by (simp add: eval_strings eval_example eval_construction)

lemma example_session_pipeline:
  "create_pipeline_task example_engine ''Pipeline1'' ''data.csv''
     = (fst (create_pipeline_task example_engine ''Pipeline1'' ''data.csv''), example_session)"
  by (simp add: example_session_def)

lemma sum_pair_collapse: "\<not> isl (fst r) \<Longrightarrow> r = (Inr (projr (fst r)), snd r)"
  by (cases r) (auto simp: sum.collapse)

lemma example_two_filters:
  "\<not> isl (fst (add_tasks example_queries example_session [filter_call, filter_call]))"
  by (simp add: eval_strings eval_example eval_construction)

subsection \<open>Construction: the errors of the stages\<close>

lemma name_instance_not_exit: "name_instance td md p = Inl e \<Longrightarrow> e \<noteq> SystemExit m"
  by (auto simp: name_instance_def split: option.splits if_splits)

lemma instantiate_task_not_exit: "instantiate_task S ns tt = (Inl e, S1) \<Longrightarrow> e \<noteq> SystemExit m"
  by (auto simp: instantiate_task_def Let_def split: option.splits sum.splits prod.splits
      dest: name_instance_not_exit)

lemma task_type_index_of_not_exit: "task_type_index_of S t = Inl e \<Longrightarrow> e \<noteq> SystemExit m"
  by (auto simp: task_type_index_of_def split: option.splits)

lemma add_inputs_loop_not_exit:
  "add_inputs_loop S t d idx results = (Inl e, S') \<Longrightarrow> e \<noteq> SystemExit m"
proof (induction results arbitrary: S t)
  case Nil
  then show ?case by simp
next
  case (Cons pr results)
  obtain rel i where pr: "pr = (rel, i)" by (cases pr)
  show ?case
  proof (cases "split_hash_1 i")
    case None
    with Cons.prems pr show ?thesis by auto
  next
    case (Some nm)
    show ?thesis
    proof (cases "d nm")
      case None
      with Cons.prems pr Some show ?thesis by auto
    next
      case es: (Some es)
      obtain t1 S1 where b: "bind_inputs S t i nm idx 1 es = (t1, S1)" by (cases "bind_inputs S t i nm idx 1 es")
      from Cons.prems pr Some es b have rec: "add_inputs_loop S1 t1 d idx results = (Inl e, S')" by simp
      then show ?thesis by (rule Cons.IH)
    qed
  qed
qed

lemma add_inputs_to_task_not_exit:
  assumes "add_inputs_to_task Q S t d = (Inl e, S')"
  shows "e \<noteq> SystemExit m"
proof (cases "parent_entity (task_entity t)")
  case None
  with assms show ?thesis by (auto simp: add_inputs_to_task_def)
next
  case (Some p)
  show ?thesis
  proof (cases "task_type_index_of S t")
    case (Inl e')
    with assms Some have "e = e'" by (simp add: add_inputs_to_task_def)
    with Inl show ?thesis by (auto dest: task_type_index_of_not_exit)
  next
    case (Inr idx)
    with assms Some have "add_inputs_loop S t d idx (get_input_properties_and_inputs Q (input_kg S)
                           (namespace_prefix (top_level_schema S)) (iri p)) = (Inl e, S')"
      by (simp add: add_inputs_to_task_def)
    then show ?thesis by (rule add_inputs_loop_not_exit)
  qed
qed

lemma add_outputs_loop_not_exit:
  "add_outputs_loop S t idx results = (Inl e, S') \<Longrightarrow> e \<noteq> SystemExit m"
proof (induction results arbitrary: S t)
  case Nil
  then show ?case by simp
next
  case (Cons pr results)
  obtain rel i where pr: "pr = (rel, i)" by (cases pr)
  show ?case
  proof (cases "split_hash_1 i")
    case None
    with Cons.prems pr show ?thesis by (auto simp: Let_def)
  next
    case (Some nm)
    with Cons.prems pr have "\<exists>S1 t1. add_outputs_loop S1 t1 idx results = (Inl e, S')"
      by (auto simp: Let_def)
    then show ?thesis using Cons.IH by blast
  qed
qed

lemma add_outputs_to_task_not_exit:
  assumes "add_outputs_to_task Q S t = (Inl e, S')"
  shows "e \<noteq> SystemExit m"
proof (cases "parent_entity (task_entity t)")
  case None
  with assms show ?thesis by (auto simp: add_outputs_to_task_def)
next
  case (Some p)
  show ?thesis
  proof (cases "task_type_index_of S t")
    case (Inl e')
    with assms Some have "e = e'" by (simp add: add_outputs_to_task_def)
    with Inl show ?thesis by (auto dest: task_type_index_of_not_exit)
  next
    case (Inr idx)
    with assms Some have "add_outputs_loop S t idx (get_output_properties_and_outputs Q (input_kg S)
                           (namespace_prefix (top_level_schema S)) (iri p)) = (Inl e, S')"
      by (simp add: add_outputs_to_task_def)
    then show ?thesis by (rule add_outputs_loop_not_exit)
  qed
qed

lemma find_method_Inl: "find_method mt results = Inl e \<Longrightarrow> e = IndexError"
  by (induction results) (auto split: option.splits if_splits)

lemma find_method_Some:
  "find_method mt results = Inr (Some ch) \<Longrightarrow> ch \<in> set results \<and> split_hash_1 (snd ch) = Some mt"
  by (induction results) (auto split: option.splits if_splits)

lemma find_method_None:
  "find_method mt results = Inr None \<Longrightarrow> \<forall>pair \<in> set results. \<exists>nm. split_hash_1 (snd pair) = Some nm \<and> nm \<noteq> mt"
  by (induction results) (auto split: option.splits if_splits)

lemma find_method_None_iff:
  "find_method mt results = Inr None \<longleftrightarrow> (\<forall>pair \<in> set results. \<exists>nm. split_hash_1 (snd pair) = Some nm \<and> nm \<noteq> mt)"
  by (induction results) (auto split: option.splits if_splits)

lemma example_session_schemas: "session_schemas example_session"
proof -
  note I = ExeKG_init_Inr [OF example_engine_init]
  note P = create_pipeline_task_facts [OF example_session_pipeline]
  from I have "session_schemas example_engine" by simp
  then show ?thesis using session_schemas_cong [of example_session example_engine] P by simp
qed

lemma incompatible_method_run_eval:
  "fst incompatible_method_run = Inl (SystemExit (incompatible_method_message ''Filter'' ''KMeans''))
   \<and> output_kg (snd incompatible_method_run) =
       output_kg example_session @
       [(stats ''Filter1'', RDF_type, URIRef (stats ''Filter'')),
        (stats ''Pipeline1'', ds ''hasStartTask'', URIRef (stats ''Filter1'')),
        (stats ''de1'', RDF_type, URIRef (ds ''DataEntity'')),
        (stats ''de1'', ds ''hasSource'', Literal (PStr ''column1'') XSD_string),
        (stats ''de1'', ds ''hasDataStructure'', URIRef (ds ''Vector'')),
        (stats ''de1'', ds ''hasDataSemantics'', URIRef (ds ''TimeSeries'')),
        (stats ''DataInFilter1_1'', RDF_type, URIRef (stats ''DataInFilter'')),
        (stats ''DataInFilter1_1'', ds ''hasReference'', URIRef (stats ''de1'')),
        (stats ''Filter1'', ds ''hasInput'', URIRef (stats ''DataInFilter1_1'')),
        (stats ''DataOutFilter1'', RDF_type, URIRef (ds ''DataEntity'')),
        (stats ''Filter1'', ds ''hasOutput'', URIRef (stats ''DataOutFilter1''))]"
  by (simp add: incompatible_method_run_def eval_strings eval_example eval_construction)

subsection \<open>Construction: the data properties\<close>

lemma add_properties_Inl:
  "add_properties g t props ps = (Inl e, g') \<Longrightarrow>
     e = IndexError \<or>
     (\<exists>pr \<in> set ps. \<exists>nm. split_hash_1 (fst pr) = Some nm \<and> props nm = None \<and> e = KeyError nm)"
proof (induction ps arbitrary: g)
  case Nil
  then show ?case by simp
next
  case (Cons pr ps)
  obtain p rg where pr: "pr = (p, rg)" by (cases pr)
  show ?case
  proof (cases "split_hash_1 p")
    case None
    with Cons.prems pr show ?thesis by simp
  next
    case (Some nm)
    show ?thesis
    proof (cases "props nm")
      case None
      with Cons.prems pr Some show ?thesis by auto
    next
      case v: (Some v)
      with Cons.prems pr Some have "add_properties (add_literal g (task_entity t) p (Literal v rg)) t props ps = (Inl e, g')" by simp
      from Cons.IH [OF this] show ?thesis by auto
    qed
  qed
qed

lemma add_properties_Inr:
  "add_properties g t props ps = (Inr u, g') \<Longrightarrow>
     (\<forall>pr \<in> set ps. \<exists>nm v. split_hash_1 (fst pr) = Some nm \<and> props nm = Some v
         \<and> (iri (task_entity t), fst pr, Literal v (snd pr)) \<in> set g')"
proof (induction ps arbitrary: g)
  case Nil
  then show ?case by simp
next
  case (Cons pr ps)
  obtain p rg where pr: "pr = (p, rg)" by (cases pr)
  from Cons.prems pr obtain nm where nm: "split_hash_1 p = Some nm"
    by (cases "split_hash_1 p") simp_all
  from Cons.prems pr nm obtain v where v: "props nm = Some v"
    by (cases "props nm") simp_all
  let ?g = "add_literal g (task_entity t) p (Literal v rg)"
  from Cons.prems pr nm v have rec: "add_properties ?g t props ps = (Inr u, g')" by simp
  have "(iri (task_entity t), p, Literal v rg) \<in> set ?g" by (simp add: add_literal_set)
  with add_properties_mono [OF rec] have "(iri (task_entity t), p, Literal v rg) \<in> set g'" by blast
  with Cons.IH [OF rec] pr nm v show ?case by simp
qed

lemma add_properties_missing:
  assumes "\<exists>pr \<in> set ps. \<exists>nm. split_hash_1 (fst pr) = Some nm \<and> props nm = None"
  shows "\<exists>e g'. add_properties g t props ps = (Inl e, g')"
proof -
  obtain r g' where r: "add_properties g t props ps = (r, g')" by (cases "add_properties g t props ps")
  show ?thesis
  proof (cases r)
    case (Inl e)
    with r show ?thesis by simp
  next
    case (Inr u)
    with r add_properties_Inr [of g t props ps u g'] assms show ?thesis by fastforce
  qed
qed

lemma attach_method_cases:
  assumes ss: "session_schemas S"
  obtains (name_fails) e where
      "attach_method Q S t (Entity i (Some (atomic_method S))) ch props = (Inl e, S)"
  | (properties_fail) g e g' nm c where
      "add_properties g t props (get_data_properties_plus_inherited_by_class_iri Q (input_kg S) i) = (Inl e, g')"
      "attach_method Q S t (Entity i (Some (atomic_method S))) ch props =
         (Inl e, S\<lparr>task_type_dict := task_type_dict S,
                    method_type_dict := (method_type_dict S)(nm \<mapsto> c + 1), output_kg := g'\<rparr>)"
  | (attached) g g' nm c where
      "add_properties g t props (get_data_properties_plus_inherited_by_class_iri Q (input_kg S) i) = (Inr (), g')"
      "attach_method Q S t (Entity i (Some (atomic_method S))) ch props =
         (Inr t, S\<lparr>task_type_dict := task_type_dict S,
                    method_type_dict := (method_type_dict S)(nm \<mapsto> c + 1), output_kg := g',
                    last_created_task := Some t\<rparr>)"
proof -
  let ?mp = "Entity i (Some (atomic_method S))"
  have ni: "name_instance (task_type_dict S) (method_type_dict S) ?mp =
     (case split_hash_1 i of
        None \<Rightarrow> Inl IndexError
      | Some nm \<Rightarrow> (case method_type_dict S nm of None \<Rightarrow> Inl (KeyError nm)
                     | Some c \<Rightarrow> Inr (nm @ str_int c, task_type_dict S, (method_type_dict S)(nm \<mapsto> c + 1))))"
    by (rule name_instance_method_class [OF ss])
  show ?thesis
  proof (cases "name_instance (task_type_dict S) (method_type_dict S) ?mp")
    case (Inl e)
    then show ?thesis by (intro name_fails [of e]) (simp add: attach_method_def)
  next
    case (Inr x)
    with ni obtain nm c where x: "x = (nm @ str_int c, task_type_dict S, (method_type_dict S)(nm \<mapsto> c + 1))"
      by (auto split: option.splits)
    let ?g = "snd (add_instance_from_parent_with_relation (namespace (bottom_level_schema S))
              (output_kg S) ?mp (fst ch) (task_entity t) (nm @ str_int c))"
    let ?pl = "get_data_properties_plus_inherited_by_class_iri Q (input_kg S) i"
    obtain r0 g' where ap: "add_properties ?g t props ?pl = (r0, g')" by (cases "add_properties ?g t props ?pl")
    show ?thesis
    proof (cases r0)
      case (Inl e)
      with Inr x ap show ?thesis
        by (intro properties_fail [of ?g e g' nm c]) (simp_all add: attach_method_def Let_def)
    next
      case (Inr u)
      with \<open>name_instance (task_type_dict S) (method_type_dict S) ?mp = Inr x\<close> x ap show ?thesis
        by (intro attached [of ?g g' nm c]) (simp_all add: attach_method_def Let_def)
    qed
  qed
qed

lemma add_task_to_attach:
  assumes ss: "session_schemas S"
    and st: "instantiate_task S (namespace_to_use S vis) tt = (Inr t1, S1)"
      "add_inputs_to_task Q S1 t1 ins = (Inr t2, S2)"
      "add_outputs_to_task Q S2 t2 = (Inr t3, S3)"
  shows "session_schemas S3 \<and> input_kg S3 = input_kg S \<and> atomic_method S3 = atomic_method S
    \<and> method_type_dict S3 = method_type_dict S \<and> method_type_dict S1 = method_type_dict S
    \<and> method_type_dict S2 = method_type_dict S"
proof -
  from instantiate_task_Inr [OF ss namespace_to_use_session [OF ss] st(1)]
  have S1f: "top_level_schema S1 = top_level_schema S" "bottom_level_schema S1 = bottom_level_schema S"
    "visu_schema S1 = visu_schema S" "input_kg S1 = input_kg S" "method_type_dict S1 = method_type_dict S"
    by auto
  from add_inputs_to_task_frame [OF st(2)] have s12: "same_session S1 S2" by simp
  from add_outputs_to_task_frame [OF st(3)] have s23: "same_session S2 S3" by simp
  from s12 s23 have s13: "same_session S1 S3" by (rule same_session_trans)
  note F = same_session_fields [OF s13]
  note F2 = same_session_fields [OF s12]
  have "session_schemas S3" using ss session_schemas_cong [of S3 S] F(1-3) S1f(1-3) by simp
  moreover have "atomic_method S3 = atomic_method S" using atomic_method_cong [of S3 S] F(1) S1f(1) by simp
  ultimately show ?thesis using F(4,6) F2(6) S1f(4,5) by simp
qed

lemma missing_property_run_eval:
  "fst missing_property_run = Inl (KeyError ''hasWindowSize'')
   \<and> method_type_dict (snd missing_property_run) ''MeanFilter'' = Some 2
   \<and> method_type_dict example_session ''MeanFilter'' = Some 1"
  by (simp add: missing_property_run_def eval_strings eval_example eval_construction)

lemma complete_run_eval:
  "map_sum id (\<lambda>t. iri (task_entity t)) (fst complete_run) = Inr (stats ''Filter1'')"
  by (simp add: complete_run_def eval_strings eval_example eval_construction)

lemma example_property_list:
  "get_data_properties_plus_inherited_by_class_iri example_queries (input_kg example_session)
      (namespace_to_use example_session False @ ''MeanFilter'') = [(stats ''hasWindowSize'', XSD_int)]"
  by (simp add: eval_strings eval_example eval_construction)

subsection \<open>Construction: the bound copies of \<open>add_inputs_to_task\<close>\<close>

lemma bound_copy_same_session: "same_session S S1 \<Longrightarrow> bound_copy S1 = bound_copy S"
  by (rule ext)+ (simp add: bound_copy_def data_entity_class_def top_entity_def same_session_fields)

lemma input_link_same_session: "same_session S S1 \<Longrightarrow> input_link S1 = input_link S"
  by (rule ext)+ (simp add: input_link_def same_session_fields)

lemma input_link_task: "task_entity t1 = task_entity t \<Longrightarrow> input_link S t1 = input_link S t"
  by (rule ext)+ (simp add: input_link_def)

lemma bind_inputs_attached:
  "bind_inputs S t i nm idx k es = (t', S') \<Longrightarrow>
     \<forall>j < length es. input_link S t i idx (k + int j) \<in> set (output_kg S')"
proof (induction es arbitrary: S t k)
  case Nil
  then show ?case by simp
next
  case (Cons e es)
  let ?g1 = "add_data_entity_instance (output_kg S) (data_class S) (kg (top_level_schema S))
                 (namespace (top_level_schema S)) e"
  let ?de = "bound_copy S i idx k e"
  let ?g2 = "add_and_attach_data_entity ?g1 (data_class S) (kg (top_level_schema S))
                 (namespace (top_level_schema S)) ?de
                 (namespace (top_level_schema S) @ ''hasInput'') (task_entity t)"
  let ?S1 = "S\<lparr>output_kg := ?g2\<rparr>"
  let ?t1 = "t\<lparr>input_dict := (input_dict t)(nm \<mapsto> ?de)\<rparr>"
  from Cons.prems have rec: "bind_inputs ?S1 ?t1 i nm idx (k + 1) es = (t', S')"
    by (simp add: Let_def)
  have first: "input_link S t i idx k \<in> set ?g2"
    using add_and_attach_data_entity_link [of "task_entity t" "namespace (top_level_schema S) @ ''hasInput''" ?de ?g1]
    by (simp add: input_link_def bound_copy_def DataEntity_def)
  from bind_inputs_frame [OF rec] have "set ?g2 \<subseteq> set (output_kg S')" by simp
  with first have f: "input_link S t i idx k \<in> set (output_kg S')" by blast
  have il: "input_link ?S1 ?t1 = input_link S t"
    by (rule ext)+ (simp add: input_link_def)
  from Cons.IH [OF rec] have ih: "\<forall>j < length es. input_link S t i idx (k + 1 + int j) \<in> set (output_kg S')"
    unfolding il .
  show ?case
  proof (intro allI impI)
    fix j assume j: "j < length (e # es)"
    show "input_link S t i idx (k + int j) \<in> set (output_kg S')"
    proof (cases j)
      case 0
      with f show ?thesis by simp
    next
      case (Suc j')
      with j ih have "input_link S t i idx (k + 1 + int j') \<in> set (output_kg S')" by simp
      moreover have "k + 1 + int j' = k + int j" using Suc by simp
      ultimately show ?thesis by simp
    qed
  qed
qed

lemma bind_inputs_dict:
  "bind_inputs S t i nm idx k es = (t', S') \<Longrightarrow>
     input_dict t' =
       (if es = [] then input_dict t
        else (input_dict t)(nm \<mapsto> bound_copy S i idx (k + int (length es) - 1) (last es)))"
proof (induction es arbitrary: S t k)
  case Nil
  then show ?case by simp
next
  case (Cons e es)
  let ?g1 = "add_data_entity_instance (output_kg S) (data_class S) (kg (top_level_schema S))
                 (namespace (top_level_schema S)) e"
  let ?de = "bound_copy S i idx k e"
  let ?g2 = "add_and_attach_data_entity ?g1 (data_class S) (kg (top_level_schema S))
                 (namespace (top_level_schema S)) ?de
                 (namespace (top_level_schema S) @ ''hasInput'') (task_entity t)"
  let ?S1 = "S\<lparr>output_kg := ?g2\<rparr>"
  let ?t1 = "t\<lparr>input_dict := (input_dict t)(nm \<mapsto> ?de)\<rparr>"
  from Cons.prems have rec: "bind_inputs ?S1 ?t1 i nm idx (k + 1) es = (t', S')"
    by (simp add: Let_def)
  note ih = Cons.IH [OF rec]
  show ?case
  proof (cases "es = []")
    case True
    with ih show ?thesis by simp
  next
    case False
    have "k + 1 + int (length es) - 1 = k + int (length (e # es)) - 1" by simp
    with ih False show ?thesis by simp
  qed
qed

lemma add_inputs_loop_attached:
  "add_inputs_loop S t d idx results = (Inr t', S') \<Longrightarrow> (rel, X) \<in> set results \<Longrightarrow>
   split_hash_1 X = Some nm \<Longrightarrow> d nm = Some es \<Longrightarrow>
     \<forall>j < length es. input_link S t X idx (1 + int j) \<in> set (output_kg S')"
proof (induction results arbitrary: S t)
  case Nil
  then show ?case by simp
next
  case (Cons pr results)
  obtain rel0 i where pr: "pr = (rel0, i)" by (cases pr)
  from Cons.prems(1) pr obtain nm0 where nm0: "split_hash_1 i = Some nm0"
    by (cases "split_hash_1 i") simp_all
  from Cons.prems(1) pr nm0 obtain es0 where es0: "d nm0 = Some es0"
    by (cases "d nm0") simp_all
  obtain t1 S1 where b: "bind_inputs S t i nm0 idx 1 es0 = (t1, S1)" by (cases "bind_inputs S t i nm0 idx 1 es0")
  from Cons.prems(1) pr nm0 es0 b have rec: "add_inputs_loop S1 t1 d idx results = (Inr t', S')" by simp
  note F = bind_inputs_frame [OF b]
  from F have il: "input_link S1 t1 = input_link S t"
    using input_link_same_session [of S S1] input_link_task [of t1 t S] by simp
  show ?case
  proof (cases "(rel, X) \<in> set results")
    case True
    from Cons.IH [OF rec True Cons.prems(3,4)] show ?thesis unfolding il .
  next
    case False
    with Cons.prems(2) pr have X: "i = X" by simp
    with nm0 es0 Cons.prems(3,4) have "nm0 = nm" "es0 = es" by simp_all
    with b X have b': "bind_inputs S t X nm idx 1 es = (t1, S1)" by simp
    from bind_inputs_attached [OF b']
    have "\<forall>j < length es. input_link S t X idx (1 + int j) \<in> set (output_kg S1)" .
    moreover from add_inputs_loop_frame [OF rec] have "set (output_kg S1) \<subseteq> set (output_kg S')" by simp
    ultimately show ?thesis by blast
  qed
qed

lemma add_inputs_loop_dict_other:
  "add_inputs_loop S t d idx results = (Inr t', S') \<Longrightarrow>
   \<forall>row \<in> set results. split_hash_1 (snd row) \<noteq> Some nm \<Longrightarrow> input_dict t' nm = input_dict t nm"
proof (induction results arbitrary: S t)
  case Nil
  then show ?case by simp
next
  case (Cons pr results)
  obtain rel0 i where pr: "pr = (rel0, i)" by (cases pr)
  from Cons.prems(1) pr obtain nm0 where nm0: "split_hash_1 i = Some nm0"
    by (cases "split_hash_1 i") simp_all
  from Cons.prems(1) pr nm0 obtain es0 where es0: "d nm0 = Some es0"
    by (cases "d nm0") simp_all
  obtain t1 S1 where b: "bind_inputs S t i nm0 idx 1 es0 = (t1, S1)" by (cases "bind_inputs S t i nm0 idx 1 es0")
  from Cons.prems(1) pr nm0 es0 b have rec: "add_inputs_loop S1 t1 d idx results = (Inr t', S')" by simp
  from Cons.prems(2) pr nm0 have ne: "nm0 \<noteq> nm" and rest: "\<forall>row \<in> set results. split_hash_1 (snd row) \<noteq> Some nm"
    by auto
  from bind_inputs_dict [OF b] ne have "input_dict t1 nm = input_dict t nm" by simp
  with Cons.IH [OF rec rest] show ?case by simp
qed

lemma add_inputs_loop_dict:
  "add_inputs_loop S t d idx results = (Inr t', S') \<Longrightarrow>
   distinct (map (\<lambda>row. split_hash_1 (snd row)) results) \<Longrightarrow> (rel, X) \<in> set results \<Longrightarrow>
   split_hash_1 X = Some nm \<Longrightarrow> d nm = Some es \<Longrightarrow> es \<noteq> [] \<Longrightarrow>
     input_dict t' nm = Some (bound_copy S X idx (int (length es)) (last es))"
proof (induction results arbitrary: S t)
  case Nil
  then show ?case by simp
next
  case (Cons pr results)
  obtain rel0 i where pr: "pr = (rel0, i)" by (cases pr)
  from Cons.prems(1) pr obtain nm0 where nm0: "split_hash_1 i = Some nm0"
    by (cases "split_hash_1 i") simp_all
  from Cons.prems(1) pr nm0 obtain es0 where es0: "d nm0 = Some es0"
    by (cases "d nm0") simp_all
  obtain t1 S1 where b: "bind_inputs S t i nm0 idx 1 es0 = (t1, S1)" by (cases "bind_inputs S t i nm0 idx 1 es0")
  from Cons.prems(1) pr nm0 es0 b have rec: "add_inputs_loop S1 t1 d idx results = (Inr t', S')" by simp
  from bind_inputs_frame [OF b] have bc: "bound_copy S1 = bound_copy S"
    using bound_copy_same_session [of S S1] by simp
  from Cons.prems(2) have dist: "distinct (map (\<lambda>row. split_hash_1 (snd row)) results)" by simp
  show ?case
  proof (cases "(rel, X) \<in> set results")
    case True
    from Cons.IH [OF rec dist True Cons.prems(4,5,6)] show ?thesis unfolding bc .
  next
    case False
    with Cons.prems(3) pr have X: "i = X" by simp
    with nm0 es0 Cons.prems(4,5) have e: "nm0 = nm" "es0 = es" by simp_all
    from Cons.prems(2) pr X Cons.prems(4)
    have "\<forall>row \<in> set results. split_hash_1 (snd row) \<noteq> Some nm" by force
    from add_inputs_loop_dict_other [OF rec this] have "input_dict t' nm = input_dict t1 nm" .
    also from bind_inputs_dict [OF b] e X Cons.prems(6)
    have "input_dict t1 nm = Some (bound_copy S X idx (1 + int (length es) - 1) (last es))" by simp
    finally show ?thesis by simp
  qed
qed

lemma add_inputs_loop_dict_values:
  "add_inputs_loop S t d idx results = (Inr t', S') \<Longrightarrow> input_dict t' key = Some v \<Longrightarrow>
     input_dict t key = Some v \<or>
     (\<exists>row \<in> set results. \<exists>es. split_hash_1 (snd row) = Some key \<and> d key = Some es \<and> es \<noteq> []
         \<and> v = bound_copy S (snd row) idx (int (length es)) (last es))"
proof (induction results arbitrary: S t)
  case Nil
  then show ?case by simp
next
  case (Cons pr results)
  obtain rel0 i where pr: "pr = (rel0, i)" by (cases pr)
  from Cons.prems(1) pr obtain nm0 where nm0: "split_hash_1 i = Some nm0"
    by (cases "split_hash_1 i") simp_all
  from Cons.prems(1) pr nm0 obtain es0 where es0: "d nm0 = Some es0"
    by (cases "d nm0") simp_all
  obtain t1 S1 where b: "bind_inputs S t i nm0 idx 1 es0 = (t1, S1)" by (cases "bind_inputs S t i nm0 idx 1 es0")
  from Cons.prems(1) pr nm0 es0 b have rec: "add_inputs_loop S1 t1 d idx results = (Inr t', S')" by simp
  from bind_inputs_frame [OF b] have bc: "bound_copy S1 = bound_copy S"
    using bound_copy_same_session [of S S1] by simp
  from Cons.IH [OF rec Cons.prems(2)]
  consider (old) "input_dict t1 key = Some v"
    | (later) "\<exists>row \<in> set results. \<exists>es. split_hash_1 (snd row) = Some key \<and> d key = Some es \<and> es \<noteq> []
         \<and> v = bound_copy S (snd row) idx (int (length es)) (last es)"
    unfolding bc by blast
  then show ?case
  proof cases
    case old
    note D = bind_inputs_dict [OF b]
    show ?thesis
    proof (cases "es0 = [] \<or> key \<noteq> nm0")
      case True
      with D old have "input_dict t key = Some v" by (auto split: if_splits)
      then show ?thesis by simp
    next
      case False
      with D old have "v = bound_copy S i idx (1 + int (length es0) - 1) (last es0)" by simp
      with False nm0 es0 pr show ?thesis by auto
    qed
  next
    case later
    then show ?thesis by auto
  qed
qed

lemma digit_char_not_underscore: "d < 10 \<Longrightarrow> digit_char d \<noteq> CHR ''_''"
proof
  assume d: "d < 10" and e: "digit_char d = CHR ''_''"
  have "(48 + d :: nat) = of_char (digit_char d)" using d by (simp only: of_char_digit_char)
  also have "\<dots> = of_char (CHR ''_'')" by (simp only: e)
  also have "\<dots> = 95" by simp
  finally show False using d by arith
qed

lemma str_nat_no_underscore: "CHR ''_'' \<notin> set (str_nat n)"
proof (induction n rule: str_nat.induct)
  case (1 n)
  have d: "digit_char (n mod 10) \<noteq> CHR ''_''" by (rule digit_char_not_underscore) simp
  show ?case
  proof (cases "n < 10")
    case True
    then show ?thesis using digit_char_not_underscore [of n] by (subst str_nat.simps) auto
  next
    case False
    then show ?thesis using 1 d by (subst str_nat.simps) auto
  qed
qed

lemma str_int_no_underscore: "0 \<le> a \<Longrightarrow> CHR ''_'' \<notin> set (str_int a)"
  by (simp add: str_int_def str_nat_no_underscore)

lemma split_at_last_underscore:
  assumes "CHR ''_'' \<notin> set A" "CHR ''_'' \<notin> set B" "P @ CHR ''_'' # A = Q @ CHR ''_'' # B"
  shows "A = B \<and> P = Q"
proof -
  from assms(3) have "rev (P @ CHR ''_'' # A) = rev (Q @ CHR ''_'' # B)" by simp
  then have e: "rev A @ CHR ''_'' # rev P = rev B @ CHR ''_'' # rev Q" by simp
  have "takeWhile (\<lambda>c. c \<noteq> CHR ''_'') (rev A @ CHR ''_'' # rev P) = rev A"
    using assms(1) by (auto simp: takeWhile_tail)
  moreover have "takeWhile (\<lambda>c. c \<noteq> CHR ''_'') (rev B @ CHR ''_'' # rev Q) = rev B"
    using assms(2) by (auto simp: takeWhile_tail)
  ultimately have "rev A = rev B" using e by simp
  then have "A = B" by simp
  with assms(3) show ?thesis by simp
qed

lemma copy_iri_inj:
  assumes "0 \<le> a" "0 \<le> b"
    and "X @ str_int idx @ ''_'' @ str_int a = Y @ str_int idx @ ''_'' @ str_int b"
  shows "a = b \<and> X = Y"
proof -
  from assms(3) have "(X @ str_int idx) @ CHR ''_'' # str_int a = (Y @ str_int idx) @ CHR ''_'' # str_int b"
    by simp
  from split_at_last_underscore [OF str_int_no_underscore [OF assms(1)] str_int_no_underscore [OF assms(2)] this]
  have "str_int a = str_int b" "X = Y" by simp_all
  with assms(1,2) show ?thesis by (auto dest: str_int_nonneg_inj)
qed

lemma iri_bound_copy: "iri (de_entity (bound_copy S X idx k e)) = X @ str_int idx @ ''_'' @ str_int k"
  by (simp add: bound_copy_def DataEntity_def)

lemmas eval_two_inputs = two_inputs_run_def example_task_state_def example_data2_def

lemma two_inputs_run_eval:
  "\<not> isl (fst two_inputs_run)
   \<and> parent_entity (task_entity (projr (fst example_task_state)))
       = Some (Entity (stats ''Filter'') (Some (Entity (ds ''AtomicTask'') None)))
   \<and> iri (task_entity (projr (fst example_task_state))) = stats ''Filter1''
   \<and> input_dict (projr (fst example_task_state)) = Map.empty
   \<and> task_type_index_of (snd example_task_state) (projr (fst example_task_state)) = Inr 1
   \<and> namespace (top_level_schema (snd example_task_state)) = namespace ds_schema_info
   \<and> get_input_properties_and_inputs example_queries (input_kg (snd example_task_state))
        (namespace_prefix (top_level_schema (snd example_task_state))) (stats ''Filter'')
       = [(stats ''hasFilterInput'', stats ''DataInFilter'')]"
  by (simp add: eval_two_inputs eval_strings eval_example eval_construction cong: let_weak_cong)

subsection \<open>Execution: the loop over a chain of tasks\<close>



subsection \<open>Construction: the steps of \<open>add_task\<close> in sequence\<close>

lemma add_task_at_lookup:
  assumes ss: "session_schemas S"
    and task: "instantiate_task S (namespace_to_use S vis) tt = (Inr t1, S1)"
    and ins: "add_inputs_to_task Q S1 t1 inputs = (Inr t2, S2)"
    and outs: "add_outputs_to_task Q S2 t2 = (Inr t3, S3)"
  shows "add_task Q S tt inputs mt props vis =
     (case find_method mt (get_method_properties_and_methods Q (input_kg S)
             (namespace_prefix (top_level_schema S)) (namespace_to_use S vis @ tt)) of
        Inl e \<Rightarrow> (Inl e, S3)
      | Inr None \<Rightarrow> (Inl (SystemExit (incompatible_method_message tt mt)), S3)
      | Inr (Some ch) \<Rightarrow>
          attach_method Q S3 t3 (Entity (namespace_to_use S vis @ mt) (Some (atomic_method S3))) ch props)"
proof -
  let ?ns = "namespace_to_use S vis"
  from instantiate_task_Inr [OF ss namespace_to_use_session [OF ss] task]
  obtain c where t1: "t1 = Task (namespace (bottom_level_schema S) @ type_key tt @ str_int c)
             (Some (Entity (?ns @ tt) (Some (atomic_task S))))"
    and S1f: "input_kg S1 = input_kg S" "top_level_schema S1 = top_level_schema S"
    by auto
  note f2 = add_inputs_to_task_frame [OF ins]
  note e2 = add_inputs_to_task_task [OF ins]
  note f3 = add_outputs_to_task_frame [OF outs]
  note e3 = add_outputs_to_task_task [OF outs]
  from f2 f3 have s13: "same_session S1 S3" by (metis same_session_trans)
  from e2 e3 have "task_entity t3 = task_entity t1" by simp
  with t1 have p: "parent_entity (task_entity t3) = Some (Entity (?ns @ tt) (Some (atomic_task S)))"
    by (simp add: Task_def)
  from same_session_fields(1,4) [OF s13] S1f
  have k: "input_kg S3 = input_kg S" "top_level_schema S3 = top_level_schema S" by simp_all
  show ?thesis
    unfolding add_task_def Let_def task ins outs prod.case sum.case p option.case k entity.sel
    by (rule refl)
qed

lemma stages_graph:
  assumes ss: "session_schemas S"
    and task: "instantiate_task S (namespace_to_use S vis) tt = (Inr t1, S1)"
    and ins: "add_inputs_to_task Q S1 t1 inputs = (Inr t2, S2)"
    and outs: "add_outputs_to_task Q S2 t2 = (Inr t3, S3)"
  shows "set (output_kg S) \<subseteq> set (output_kg S3)
     \<and> (\<exists>c prev. task_type_dict S (type_key tt) = Some c
           \<and> last_created_task S = Some prev
           \<and> task_type_dict S3 = (task_type_dict S)(type_key tt \<mapsto> c + 1)
           \<and> iri (task_entity t3) = namespace (bottom_level_schema S) @ type_key tt @ str_int c
           \<and> (namespace (bottom_level_schema S) @ type_key tt @ str_int c, RDF_type,
                URIRef (namespace_to_use S vis @ tt)) \<in> set (output_kg S3)
           \<and> (iri (task_entity prev), task_link S prev,
                URIRef (namespace (bottom_level_schema S) @ type_key tt @ str_int c))
               \<in> set (output_kg S3))"
proof -
  let ?ns = "namespace_to_use S vis"
  from instantiate_task_Inr [OF ss namespace_to_use_session [OF ss] task]
  obtain prev c where prev: "last_created_task S = Some prev"
    and c: "task_type_dict S (type_key tt) = Some c"
    and t1: "t1 = Task (namespace (bottom_level_schema S) @ type_key tt @ str_int c)
             (Some (Entity (?ns @ tt) (Some (atomic_task S))))"
    and S1: "S1 = S\<lparr> task_type_dict := (task_type_dict S)(type_key tt \<mapsto> c + 1),
               method_type_dict := method_type_dict S,
               output_kg := add_relation
                  (add_instance (output_kg S)
                     (Entity (namespace (bottom_level_schema S) @ type_key tt @ str_int c)
                        (Some (Entity (?ns @ tt) (Some (atomic_task S))))))
                  (task_entity prev) (task_link S prev)
                  (Entity (namespace (bottom_level_schema S) @ type_key tt @ str_int c)
                        (Some (Entity (?ns @ tt) (Some (atomic_task S))))) \<rparr>"
    by blast
  have g1: "set (output_kg S) \<subseteq> set (output_kg S1)"
    and n1: "(namespace (bottom_level_schema S) @ type_key tt @ str_int c, RDF_type,
                  URIRef (?ns @ tt)) \<in> set (output_kg S1)"
    and n2: "(iri (task_entity prev), task_link S prev,
                  URIRef (namespace (bottom_level_schema S) @ type_key tt @ str_int c))
                 \<in> set (output_kg S1)"
    and d1: "task_type_dict S1 = (task_type_dict S)(type_key tt \<mapsto> c + 1)"
    by (auto simp: S1 add_relation_set add_instance_set)
  note f2 = add_inputs_to_task_frame [OF ins]
  note f3 = add_outputs_to_task_frame [OF outs]
  from f2 f3 have s13: "same_session S1 S3" by (metis same_session_trans)
  from f2 f3 have g13: "set (output_kg S1) \<subseteq> set (output_kg S3)" by (metis order_trans)
  from same_session_fields(5) [OF s13] d1
  have d3: "task_type_dict S3 = (task_type_dict S)(type_key tt \<mapsto> c + 1)" by simp
  from add_inputs_to_task_task [OF ins] add_outputs_to_task_task [OF outs] t1
  have i3: "iri (task_entity t3) = namespace (bottom_level_schema S) @ type_key tt @ str_int c"
    by (simp add: Task_def)
  from g1 g13 have "set (output_kg S) \<subseteq> set (output_kg S3)" by (rule order_trans)
  with prev c d3 i3 n1 n2 g13 show ?thesis by auto
qed

lemma example_stages_eval:
  "\<not> isl (fst example_task_state) \<and> \<not> isl (fst example_inputs_state)
   \<and> \<not> isl (fst example_outputs_state)
   \<and> namespace_to_use example_session False = namespace stats_schema_info"
  by (simp add: example_task_state_def example_inputs_state_def example_outputs_state_def
        eval_strings eval_example eval_construction cong: let_weak_cong)

lemma example_stages:
  "instantiate_task example_session (namespace_to_use example_session False) ''Filter''
     = (Inr (projr (fst example_task_state)), snd example_task_state)"
  "add_inputs_to_task example_queries (snd example_task_state) (projr (fst example_task_state))
       [''DataInFilter'' \<mapsto> [example_data]]
     = (Inr (projr (fst example_inputs_state)), snd example_inputs_state)"
  "add_outputs_to_task example_queries (snd example_inputs_state) (projr (fst example_inputs_state))
     = (Inr (projr (fst example_outputs_state)), snd example_outputs_state)"
  using example_stages_eval sum_pair_collapse [of example_task_state]
    sum_pair_collapse [of example_inputs_state] sum_pair_collapse [of example_outputs_state]
  by (simp_all add: example_task_state_def [symmetric] example_inputs_state_def [symmetric]
        example_outputs_state_def [symmetric])

lemma example_session_facts:
  "task_type_dict example_session (type_key ''Filter'') = Some 1"
  "last_created_task example_session = Some (Task (stats ''Pipeline1'') (Some (Entity (ds ''Pipeline'') None)))"
  "namespace (bottom_level_schema example_session) = namespace stats_schema_info"
  "namespace (top_level_schema example_session) = namespace ds_schema_info"
  "namespace_prefix (top_level_schema example_session) = ''ds''"
  "method_type_dict example_session (type_key ''MeanFilter'') = Some 1"
  "input_kg example_session = []"
  by (simp_all add: eval_strings eval_example eval_construction)

lemma add_properties_KeyError:
  "add_properties g t props ps = (Inl e, g') \<Longrightarrow> \<forall>pr \<in> set ps. split_hash_1 (fst pr) \<noteq> None \<Longrightarrow>
     \<exists>pr \<in> set ps. \<exists>nm. split_hash_1 (fst pr) = Some nm \<and> props nm = None \<and> e = KeyError nm"
  using add_properties_Inl [of g t props ps e g']
proof (induction ps arbitrary: g)
  case Nil
  then show ?case by simp
next
  case (Cons pr ps)
  obtain p r where pr: "pr = (p, r)" by (cases pr)
  from Cons.prems(2) pr obtain nm where nm: "split_hash_1 p = Some nm" by auto
  show ?case
  proof (cases "props nm")
    case None
    with Cons.prems(1) pr nm show ?thesis by simp
  next
    case (Some v)
    with Cons.prems(1) pr nm
    have rec: "add_properties (add_literal g (task_entity t) p (Literal v r)) t props ps = (Inl e, g')"
      by simp
    from Cons.prems(2) have "\<forall>pr \<in> set ps. split_hash_1 (fst pr) \<noteq> None" by simp
    from Cons.IH [OF rec this add_properties_Inl [OF rec]] show ?thesis by auto
  qed
qed

lemma add_properties_supplied:
  "\<forall>pr \<in> set ps. \<exists>nm. split_hash_1 (fst pr) = Some nm \<and> props nm \<noteq> None \<Longrightarrow>
     \<exists>g'. add_properties g t props ps = (Inr (), g')"
proof (induction ps arbitrary: g)
  case Nil
  then show ?case by simp
next
  case (Cons pr ps)
  obtain p r where pr: "pr = (p, r)" by (cases pr)
  from Cons.prems pr obtain nm v where nm: "split_hash_1 p = Some nm" "props nm = Some v" by auto
  from Cons.prems have "\<forall>pr \<in> set ps. \<exists>nm. split_hash_1 (fst pr) = Some nm \<and> props nm \<noteq> None" by simp
  from Cons.IH [OF this, of "add_literal g (task_entity t) p (Literal v r)"] pr nm
  show ?case by simp
qed

lemma attach_method_seeded:
  assumes ss: "session_schemas S" and nm: "split_hash_1 i = Some nm"
    and c: "method_type_dict S nm = Some c"
  shows "attach_method Q S t (Entity i (Some (atomic_method S))) ch props =
     (case add_properties
             (snd (add_instance_from_parent_with_relation (namespace (bottom_level_schema S))
                     (output_kg S) (Entity i (Some (atomic_method S))) (fst ch) (task_entity t)
                     (nm @ str_int c)))
             t props (get_data_properties_plus_inherited_by_class_iri Q (input_kg S) i) of
        (Inl e, g') \<Rightarrow>
          (Inl e, S\<lparr>method_type_dict := (method_type_dict S)(nm \<mapsto> c + 1), output_kg := g'\<rparr>)
      | (Inr u, g') \<Rightarrow>
          (Inr t, S\<lparr>method_type_dict := (method_type_dict S)(nm \<mapsto> c + 1), output_kg := g',
                     last_created_task := Some t\<rparr>))"
  by (simp add: attach_method_def name_instance_method_class [OF ss] nm c Let_def
       split: prod.splits sum.splits)

lemma method_instance_mono:
  "set g \<subseteq> set (snd (add_instance_from_parent_with_relation ns g parent rel related nm))"
  by (auto simp: add_instance_from_parent_with_relation_def Let_def add_relation_set add_instance_set)

lemma example_outputs_task:
  "iri (task_entity (projr (fst example_outputs_state))) = stats ''Filter1''"
  by (simp add: example_task_state_def example_inputs_state_def example_outputs_state_def
        eval_strings eval_example eval_construction cong: let_weak_cong)

lemma example_method_found:
  "find_method ''MeanFilter''
     (get_method_properties_and_methods example_queries (input_kg example_session)
        (namespace_prefix (top_level_schema example_session))
        (namespace_to_use example_session False @ ''Filter''))
   = Inr (Some (stats ''hasMeanFilterMethod'', stats ''MeanFilter''))"
  by (simp add: eval_strings eval_example eval_construction)

lemma copy_node_same_session: "same_session S S1 \<Longrightarrow> copy_node S1 = copy_node S"
  by (rule ext)+ (simp add: copy_node_def same_session_fields)

lemma add_data_entity_instance_type:
  "parent_entity (de_entity de) = Some p \<Longrightarrow>
     (iri (de_entity de), RDF_type, URIRef (iri p)) \<in> set (add_data_entity_instance g d tk ns de)"
proof -
  assume p: "parent_entity (de_entity de) = Some p"
  then have "(iri (de_entity de), RDF_type, URIRef (iri p)) \<in> set (add_instance g (de_entity de))"
    by (simp add: add_instance_set)
  then show ?thesis
    by (auto simp: add_data_entity_instance_def Let_def add_optional_relation_set add_literal_set
          split: option.splits)
qed

lemma bind_inputs_copy_nodes:
  "bind_inputs S t i nm idx k es = (t', S') \<Longrightarrow>
     \<forall>j < length es. set (copy_node S i idx (k + int j) (es ! j)) \<subseteq> set (output_kg S')"
proof (induction es arbitrary: S t k)
  case Nil
  then show ?case by simp
next
  case (Cons e es)
  let ?g1 = "add_data_entity_instance (output_kg S) (data_class S) (kg (top_level_schema S))
                 (namespace (top_level_schema S)) e"
  let ?de = "bound_copy S i idx k e"
  let ?g2 = "add_and_attach_data_entity ?g1 (data_class S) (kg (top_level_schema S))
                 (namespace (top_level_schema S)) ?de
                 (namespace (top_level_schema S) @ ''hasInput'') (task_entity t)"
  let ?S1 = "S\<lparr>output_kg := ?g2\<rparr>"
  let ?t1 = "t\<lparr>input_dict := (input_dict t)(nm \<mapsto> ?de)\<rparr>"
  from Cons.prems have rec: "bind_inputs ?S1 ?t1 i nm idx (k + 1) es = (t', S')"
    by (simp add: Let_def)
  have "set (copy_node S i idx k e)
      \<subseteq> set (add_data_entity_instance ?g1 (data_class S) (kg (top_level_schema S))
                 (namespace (top_level_schema S)) ?de)"
    using add_data_entity_instance_type [of ?de "Entity i (Some (data_entity_class S))" ?g1]
      add_data_entity_instance_reference [of ?de "iri (de_entity e)" "namespace (top_level_schema S)" ?g1]
    by (simp add: copy_node_def bound_copy_def DataEntity_def)
  then have first: "set (copy_node S i idx k e) \<subseteq> set ?g2"
    by (auto simp: add_and_attach_data_entity_def add_relation_set)
  from bind_inputs_frame [OF rec] have "set ?g2 \<subseteq> set (output_kg S')" by simp
  with first have f: "set (copy_node S i idx k e) \<subseteq> set (output_kg S')" by (rule order_trans)
  have il: "copy_node ?S1 = copy_node S"
    by (rule ext)+ (simp add: copy_node_def)
  from Cons.IH [OF rec] have ih: "\<forall>j < length es. set (copy_node S i idx (k + 1 + int j) (es ! j)) \<subseteq> set (output_kg S')"
    unfolding il .
  show ?case
  proof (intro allI impI)
    fix j assume j: "j < length (e # es)"
    show "set (copy_node S i idx (k + int j) ((e # es) ! j)) \<subseteq> set (output_kg S')"
    proof (cases j)
      case 0
      with f show ?thesis by simp
    next
      case (Suc j')
      with j ih have "set (copy_node S i idx (k + 1 + int j') (es ! j')) \<subseteq> set (output_kg S')" by simp
      moreover have "k + 1 + int j' = k + int j" using Suc by simp
      ultimately show ?thesis using Suc by simp
    qed
  qed
qed

lemma add_inputs_loop_copy_nodes:
  "add_inputs_loop S t d idx results = (Inr t', S') \<Longrightarrow> (rel, X) \<in> set results \<Longrightarrow>
   split_hash_1 X = Some nm \<Longrightarrow> d nm = Some es \<Longrightarrow>
     \<forall>j < length es. set (copy_node S X idx (1 + int j) (es ! j)) \<subseteq> set (output_kg S')"
proof (induction results arbitrary: S t)
  case Nil
  then show ?case by simp
next
  case (Cons pr results)
  obtain rel0 i where pr: "pr = (rel0, i)" by (cases pr)
  from Cons.prems(1) pr obtain nm0 where nm0: "split_hash_1 i = Some nm0"
    by (cases "split_hash_1 i") simp_all
  from Cons.prems(1) pr nm0 obtain es0 where es0: "d nm0 = Some es0"
    by (cases "d nm0") simp_all
  obtain t1 S1 where b: "bind_inputs S t i nm0 idx 1 es0 = (t1, S1)" by (cases "bind_inputs S t i nm0 idx 1 es0")
  from Cons.prems(1) pr nm0 es0 b have rec: "add_inputs_loop S1 t1 d idx results = (Inr t', S')" by simp
  note F = bind_inputs_frame [OF b]
  from F have il: "copy_node S1 = copy_node S"
    using copy_node_same_session [of S S1] by simp
  show ?case
  proof (cases "(rel, X) \<in> set results")
    case True
    from Cons.IH [OF rec True Cons.prems(3,4)] show ?thesis unfolding il .
  next
    case False
    with Cons.prems(2) pr have X: "i = X" by simp
    with nm0 es0 Cons.prems(3,4) have "nm0 = nm" "es0 = es" by simp_all
    with b X have b': "bind_inputs S t X nm idx 1 es = (t1, S1)" by simp
    from bind_inputs_copy_nodes [OF b']
    have "\<forall>j < length es. set (copy_node S X idx (1 + int j) (es ! j)) \<subseteq> set (output_kg S1)" .
    moreover from add_inputs_loop_frame [OF rec] have "set (output_kg S1) \<subseteq> set (output_kg S')" by simp
    ultimately show ?thesis by blast
  qed
qed

subsection \<open>Running the example pipeline\<close>

lemmas eval_exec_example = example_field_name_def example_class_def example_runtime_def canvas_call_def
  plot_call_def example_bindings_def 
  first_object_def is_uri_in_def example_parent_iri_def example_method_of_def
  example_pipeline_entry_def


lemma example_filter_kg_eval:
  "output_kg (snd complete_run) =
     [(stats ''Pipeline1'', RDF_type, URIRef (ds ''Pipeline'')),
      (stats ''Pipeline1'', ds ''hasInputDataPath'', Literal (PStr ''data.csv'') XSD_string),
      (stats ''Filter1'', RDF_type, URIRef (stats ''Filter'')),
      (stats ''Pipeline1'', ds ''hasStartTask'', URIRef (stats ''Filter1'')),
      (stats ''de1'', RDF_type, URIRef (ds ''DataEntity'')),
      (stats ''de1'', ds ''hasSource'', Literal (PStr ''column1'') XSD_string),
      (stats ''de1'', ds ''hasDataStructure'', URIRef (ds ''Vector'')),
      (stats ''de1'', ds ''hasDataSemantics'', URIRef (ds ''TimeSeries'')),
      (stats ''DataInFilter1_1'', RDF_type, URIRef (stats ''DataInFilter'')),
      (stats ''DataInFilter1_1'', ds ''hasReference'', URIRef (stats ''de1'')),
      (stats ''Filter1'', ds ''hasInput'', URIRef (stats ''DataInFilter1_1'')),
      (stats ''DataOutFilter1'', RDF_type, URIRef (ds ''DataEntity'')),
      (stats ''Filter1'', ds ''hasOutput'', URIRef (stats ''DataOutFilter1'')),
      (stats ''MeanFilter1'', RDF_type, URIRef (stats ''MeanFilter'')),
      (stats ''Filter1'', stats ''hasMeanFilterMethod'', URIRef (stats ''MeanFilter1'')),
      (stats ''Filter1'', stats ''hasWindowSize'', Literal (PInt 5) XSD_int)]"
  by (simp add: complete_run_def eval_exec_example eval_strings eval_example eval_construction cong: let_weak_cong)

lemma loaded_engine:
  "ExeKG_init example_queries example_load None (Some (g, example_bindings)) = Inr S \<Longrightarrow>
     input_kg S = g \<and> namespace (top_level_schema S) = namespace ds_schema_info
     \<and> namespace_prefix (top_level_schema S) = ''ds''"
  by (auto simp add: eval_exec_example eval_strings eval_example eval_construction 
      detect_bottom_level_schema_def search_bottom_level_schema.simps KG_SCHEMAS_def binding_of_def
       cong: let_weak_cong)

lemma loaded_engine_ok:
  "\<not> isl (ExeKG_init example_queries example_load None (Some (g, example_bindings)))"
  by (simp add: eval_exec_example eval_strings eval_example eval_construction 
      detect_bottom_level_schema_def search_bottom_level_schema.simps KG_SCHEMAS_def binding_of_def
       cong: let_weak_cong)


lemma example_filter_executor_fields:
  "input_kg example_filter_executor = output_kg (snd complete_run)"
  "namespace (top_level_schema example_filter_executor) = namespace ds_schema_info"
  "namespace_prefix (top_level_schema example_filter_executor) = ''ds''"
  using loaded_engine [of "output_kg (snd complete_run)" example_filter_executor]
    loaded_engine_ok [of "output_kg (snd complete_run)"]
  by (simp_all add: example_filter_executor_def)

lemma example_runtime_fields:
  "property_name_to_field_name example_runtime = example_field_name"
  "visual_tasks example_runtime = map_of
         [(''CanvasTaskCanvasMethod'', example_class ''CanvasTaskCanvasMethod''),
          (''PlotTaskLineplotMethod'', example_class ''PlotTaskLineplotMethod'')]"
  "statistic_tasks example_runtime = Map.empty"
  "ml_tasks example_runtime = Map.empty"
  "run_method example_runtime = (\<lambda>h i outs d. Inr (h, None))"
  "read_csv example_runtime = (\<lambda>p. Inr ())"
  by (simp_all add: example_runtime_def)

lemma example_queries_fields:
  "query_entity_parent_iri example_queries = example_parent_iri"
  "get_method_by_task_iri example_queries = (\<lambda>g prefix ns task_iri. example_method_of g task_iri)"
  "get_pipeline_and_first_task_iri example_queries = (\<lambda>g prefix. example_pipeline_entry g)"
  "query_data_entity_reference_iri example_queries = (\<lambda>g prefix e.
         map_option node_str (first_object g e (ds ''hasReference'') (\<lambda>ob. True)))"
  by (simp_all add: example_queries_def)

lemmas eval_execution = parse_task_by_iri_def resolve_class_def triples_of_def
  Task_obj_def DataEntity_obj_def Entity_obj_def entity_attrs_def task_attrs_def data_entity_attrs_def
  py_getattr_def py_hasattr_def opt_str_def example_runtime_fields example_queries_fields
  example_field_name_def example_class_def first_object_def is_uri_in_def example_parent_iri_def
  example_method_of_def example_pipeline_entry_def example_subclasses_def entity_type_def entity_name_def
  numeral_2_eq_2

lemma resolve_class_None:
  "resolve_class E class_name = None \<longleftrightarrow>
     visual_tasks E class_name = None \<and> statistic_tasks E class_name = None \<and> ml_tasks E class_name = None"
  by (simp add: resolve_class_def split: option.splits)

lemma resolve_class_first_match:
  "resolve_class E class_name =
     (if visual_tasks E class_name \<noteq> None then visual_tasks E class_name
      else if statistic_tasks E class_name \<noteq> None then statistic_tasks E class_name
      else ml_tasks E class_name)"
  by (simp add: resolve_class_def split: option.splits)




subsection \<open>Execution: the fields set by the loops over triples\<close>































section \<open>The claims\<close>

text \<open>
  C2. In a construction session (an engine made by \<open>__init__\<close>, its pipeline root, then
  \<open>add_task\<close> calls that succeed), the tasks created for one task type, in call order,
  are named \<open><type>1\<close>, \<open><type>2\<close>, ... up to the number of calls of that type, so
  the names are strictly increasing and pairwise distinct; \<open>parse_kgs\<close> has set the counter
  of every subclass of \<open>AtomicTask\<close> and \<open>AtomicMethod\<close> found in the schema to 1
  before any use, and the naming allocator does not fail for such a type at any later
  point of the session.
\<close>

theorem task_names_allocated_in_sequence:
  assumes init: "ExeKG_init Q load kg_schema_name input_exe_kg = Inr S0"
    and pipe: "create_pipeline_task S0 pipeline_name input_data_path = (pipeline, S1)"
    and run: "add_tasks Q S1 calls = (Inr ts, S')"
  shows "map (\<lambda>t. entity_name (task_entity t))
           (filter (\<lambda>t. entity_type (task_entity t) = Some K) ts)
         = map (\<lambda>n. Some (K @ str_int (int n)))
             [1..<Suc (length (filter (\<lambda>call. type_key (fst call) = K) calls))]
     \<and> distinct (map (\<lambda>t. entity_name (task_entity t))
           (filter (\<lambda>t. entity_type (task_entity t) = Some K) ts))
     \<and> (\<forall>c \<in> set (get_subclasses_of Q (iri (atomic_task S0)) (input_kg S0)).
           \<exists>nm. split_hash_1 c = Some nm \<and> task_type_dict S0 nm = Some 1)
     \<and> (\<forall>c \<in> set (get_subclasses_of Q (iri (atomic_method S0)) (input_kg S0)).
           \<exists>nm. split_hash_1 c = Some nm \<and> method_type_dict S0 nm = Some 1)
     \<and> (\<forall>task_type visualization. type_key task_type \<in> dom (task_type_dict S0) \<longrightarrow>
           (\<exists>x. name_instance (task_type_dict S') (method_type_dict S')
                  (Entity (namespace_to_use S' visualization @ task_type) (Some (atomic_task S')))
                = Inr x))
     \<and> (\<forall>method_type visualization. type_key method_type \<in> dom (method_type_dict S0) \<longrightarrow>
           (\<exists>x. name_instance (task_type_dict S') (method_type_dict S')
                  (Entity (namespace_to_use S' visualization @ method_type) (Some (atomic_method S')))
                = Inr x))"
proof -
  note I = ExeKG_init_Inr [OF init]
  note P = create_pipeline_task_facts [OF pipe]
  from I have ss0: "session_schemas S0" by simp
  have ss1: "session_schemas S1" using ss0 session_schemas_cong [of S1 S0] P by simp
  note R = add_tasks_session [OF ss1 run]
  note N = add_tasks_names [OF ss1 run, of K]
  let ?ts = "filter (\<lambda>t. entity_type (task_entity t) = Some K) ts"
  let ?N = "length (filter (\<lambda>call. type_key (fst call) = K) calls)"
  let ?b = "namespace (bottom_level_schema S1)"
  have bns: "?b \<in> set (map (\<lambda>entry. namespace (snd entry)) KG_SCHEMAS)"
    using ss1 by (rule namespace_bottom_session)
  have names: "map (\<lambda>t. entity_name (task_entity t)) ?ts = map (\<lambda>n. Some (K @ str_int (int n))) [1..<Suc ?N]"
  proof (cases "task_type_dict S1 K")
    case None
    with N show ?thesis by simp
  next
    case (Some c)
    with P I have c: "c = 1" by (auto split: if_splits)
    from N Some c have e: "map (\<lambda>t. iri (task_entity t)) ?ts = map (\<lambda>j. ?b @ K @ str_int (1 + int j)) [0..<?N]"
      by simp
    show ?thesis
    proof (cases "?N = 0")
      case True
      with e show ?thesis by simp
    next
      case False
      then obtain call where "call \<in> set calls" "type_key (fst call) = K"
        by (metis (mono_tags, lifting) filter_False length_0_conv)
      then have K: "CHR ''#'' \<notin> set K" using type_key_no_hash by blast
      have sp: "split_hash_1 (?b @ K @ str_int (1 + int j)) = Some (K @ str_int (1 + int j))" for j
      proof -
        have "CHR ''#'' \<notin> set (K @ str_int (1 + int j))" using K str_int_no_hash [of "1 + int j"] by simp
        then show ?thesis using split_hash_1_session_ns [OF bns] type_key_idem by simp
      qed
      have "map (\<lambda>t. entity_name (task_entity t)) ?ts = map split_hash_1 (map (\<lambda>t. iri (task_entity t)) ?ts)"
        by (simp add: entity_name_def comp_def)
      also have "\<dots> = map (\<lambda>j. Some (K @ str_int (1 + int j))) [0..<?N]"
        unfolding e by (simp add: sp)
      also have "\<dots> = map (\<lambda>n. Some (K @ str_int (int n))) [1..<Suc ?N]"
        unfolding map_from_one [of "\<lambda>n. Some (K @ str_int (int n))" ?N]
        by (simp add: add.commute del: upt_Suc)
      finally show ?thesis .
    qed
  qed
  have "inj_on (\<lambda>n. Some (K @ str_int (int n))) (set [1..<Suc ?N])"
    by (rule inj_onI) (auto dest: str_int_nonneg_inj [rotated 2])
  then have dist: "distinct (map (\<lambda>t. entity_name (task_entity t)) ?ts)"
    unfolding names by (simp add: distinct_map)
  have seed_t: "\<forall>c \<in> set (get_subclasses_of Q (iri (atomic_task S0)) (input_kg S0)).
           \<exists>nm. split_hash_1 c = Some nm \<and> task_type_dict S0 nm = Some 1"
  proof
    fix c assume c: "c \<in> set (get_subclasses_of Q (iri (atomic_task S0)) (input_kg S0))"
    with I obtain nm where nm: "split_hash_1 c = Some nm" by auto
    with c have "\<exists>t \<in> set (get_subclasses_of Q (iri (atomic_task S0)) (input_kg S0)). split_hash_1 t = Some nm"
      by blast
    with I have "task_type_dict S0 nm = Some 1" by simp
    with nm show "\<exists>nm. split_hash_1 c = Some nm \<and> task_type_dict S0 nm = Some 1" by blast
  qed
  have seed_m: "\<forall>c \<in> set (get_subclasses_of Q (iri (atomic_method S0)) (input_kg S0)).
           \<exists>nm. split_hash_1 c = Some nm \<and> method_type_dict S0 nm = Some 1"
  proof
    fix c assume c: "c \<in> set (get_subclasses_of Q (iri (atomic_method S0)) (input_kg S0))"
    with I obtain nm where nm: "split_hash_1 c = Some nm" by auto
    with c have "\<exists>t \<in> set (get_subclasses_of Q (iri (atomic_method S0)) (input_kg S0)). split_hash_1 t = Some nm"
      by blast
    with I have "method_type_dict S0 nm = Some 1" by simp
    with nm show "\<exists>nm. split_hash_1 c = Some nm \<and> method_type_dict S0 nm = Some 1" by blast
  qed
  from R have ss': "session_schemas S'" by simp
  have dt: "dom (task_type_dict S0) \<subseteq> dom (task_type_dict S')" using R P by simp
  have dm: "dom (method_type_dict S0) \<subseteq> dom (method_type_dict S')" using R P by simp
  have alloc_t: "\<exists>x. name_instance (task_type_dict S') (method_type_dict S')
                  (Entity (namespace_to_use S' vis @ tt) (Some (atomic_task S'))) = Inr x"
    if "type_key tt \<in> dom (task_type_dict S0)" for tt vis
  proof -
    from that dt obtain c where "task_type_dict S' (type_key tt) = Some c" by auto
    then show ?thesis
      by (simp add: name_instance_task_class [OF ss']
          split_hash_1_session_ns [OF namespace_to_use_session [OF ss']])
  qed
  have alloc_m: "\<exists>x. name_instance (task_type_dict S') (method_type_dict S')
                  (Entity (namespace_to_use S' vis @ mt) (Some (atomic_method S'))) = Inr x"
    if "type_key mt \<in> dom (method_type_dict S0)" for mt vis
  proof -
    from that dm obtain c where "method_type_dict S' (type_key mt) = Some c" by auto
    then show ?thesis
      by (simp add: name_instance_method_class [OF ss']
          split_hash_1_session_ns [OF namespace_to_use_session [OF ss']])
  qed
  from names dist seed_t seed_m alloc_t alloc_m show ?thesis by blast
qed

theorem task_names_allocated_in_sequence_witness:
  "map (\<lambda>t. entity_name (task_entity t))
     (filter (\<lambda>t. entity_type (task_entity t) = Some ''Filter'')
        (projr (fst (add_tasks example_queries example_session [filter_call, filter_call]))))
   = [Some ''Filter1'', Some ''Filter2'']"
proof -
  note r = sum_pair_collapse [OF example_two_filters]
  have n: "length (filter (\<lambda>call. type_key (fst call) = ''Filter'') [filter_call, filter_call]) = 2"
    by (simp add: filter_call_def type_key_def)
  from task_names_allocated_in_sequence [OF example_engine_init example_session_pipeline r, of "''Filter''"]
  show ?thesis unfolding n by (simp add: upt_conv_Cons str_int_small del: upt_Suc)
qed

text \<open>Claim C1 (amended). In a session, let the steps of \<open>add_task\<close> that come before
  the method lookup succeed (the task node is instantiated and linked, its inputs and its
  outputs are added), and let every method the schema lists for the task type have a short
  name other than the requested method type. Then \<open>add_task\<close> ends by the \<open>exit(1)\<close> of
  lines 305-309, with the message that names the task type and the method type, and it
  leaves the engine as those steps made it: nothing that was in the output graph is removed,
  the name of the task has been allocated (the counter of its type has moved), and the
  output graph holds the new task node and its link from the previous task. Nothing is
  rolled back.\<close>

theorem add_task_incompatible_method:
  assumes ss: "session_schemas S"
    and task: "instantiate_task S (namespace_to_use S visualization) task_type = (Inr t1, S1)"
    and ins: "add_inputs_to_task Q S1 t1 inputs = (Inr t2, S2)"
    and outs: "add_outputs_to_task Q S2 t2 = (Inr t3, S3)"
    and incompatible:
      "\<forall>pair \<in> set (get_method_properties_and_methods Q (input_kg S)
                       (namespace_prefix (top_level_schema S))
                       (namespace_to_use S visualization @ task_type)).
          \<exists>nm. split_hash_1 (snd pair) = Some nm \<and> nm \<noteq> method_type"
  shows "add_task Q S task_type inputs method_type properties visualization
           = (Inl (SystemExit (incompatible_method_message task_type method_type)), S3)
     \<and> set (output_kg S) \<subseteq> set (output_kg S3)
     \<and> (\<exists>c prev. task_type_dict S (type_key task_type) = Some c
           \<and> last_created_task S = Some prev
           \<and> task_type_dict S3 = (task_type_dict S)(type_key task_type \<mapsto> c + 1)
           \<and> (namespace (bottom_level_schema S) @ type_key task_type @ str_int c, RDF_type,
                URIRef (namespace_to_use S visualization @ task_type)) \<in> set (output_kg S3)
           \<and> (iri (task_entity prev), task_link S prev,
                URIRef (namespace (bottom_level_schema S) @ type_key task_type @ str_int c))
               \<in> set (output_kg S3))"
proof -
  from incompatible have "find_method method_type (get_method_properties_and_methods Q (input_kg S)
         (namespace_prefix (top_level_schema S)) (namespace_to_use S visualization @ task_type)) = Inr None"
    by (simp only: find_method_None_iff)
  with add_task_at_lookup [OF ss task ins outs, of method_type properties]
  have "add_task Q S task_type inputs method_type properties visualization
           = (Inl (SystemExit (incompatible_method_message task_type method_type)), S3)"
    by simp
  with stages_graph [OF ss task ins outs] show ?thesis by blast
qed

theorem add_task_incompatible_method_witness:
  "incompatible_method_run
     = (Inl (SystemExit (incompatible_method_message ''Filter'' ''KMeans'')), snd example_outputs_state)
   \<and> (stats ''Filter1'', RDF_type, URIRef (stats ''Filter'')) \<in> set (output_kg (snd example_outputs_state))
   \<and> (stats ''Pipeline1'', ds ''hasStartTask'', URIRef (stats ''Filter1''))
       \<in> set (output_kg (snd example_outputs_state))
   \<and> set (output_kg example_session) \<subseteq> set (output_kg (snd example_outputs_state))"
proof -
  have inc: "\<forall>pair \<in> set (get_method_properties_and_methods example_queries (input_kg example_session)
                       (namespace_prefix (top_level_schema example_session))
                       (namespace_to_use example_session False @ ''Filter'')).
          \<exists>nm. split_hash_1 (snd pair) = Some nm \<and> nm \<noteq> ''KMeans''"
    by (simp add: eval_strings eval_example eval_construction)
  note T = add_task_incompatible_method [OF example_session_schemas example_stages inc,
      of "[''hasWindowSize'' \<mapsto> PInt 5]"]
  from T have r: "incompatible_method_run
     = (Inl (SystemExit (incompatible_method_message ''Filter'' ''KMeans'')), snd example_outputs_state)"
    unfolding incompatible_method_run_def by (rule conjunct1)
  from T have sub: "set (output_kg example_session) \<subseteq> set (output_kg (snd example_outputs_state))"
    by (rule conjunct1 [OF conjunct2])
  from T example_session_facts(1,2) have
    "(namespace (bottom_level_schema example_session) @ type_key ''Filter'' @ str_int 1, RDF_type,
        URIRef (namespace_to_use example_session False @ ''Filter'')) \<in> set (output_kg (snd example_outputs_state))
     \<and> (stats ''Pipeline1'', task_link example_session (Task (stats ''Pipeline1'') (Some (Entity (ds ''Pipeline'') None))),
        URIRef (namespace (bottom_level_schema example_session) @ type_key ''Filter'' @ str_int 1))
          \<in> set (output_kg (snd example_outputs_state))"
    by (auto simp: Task_def)
  moreover have "namespace (bottom_level_schema example_session) @ type_key ''Filter'' @ str_int 1 = stats ''Filter1''"
    "namespace_to_use example_session False @ ''Filter'' = stats ''Filter''"
    "task_link example_session (Task (stats ''Pipeline1'') (Some (Entity (ds ''Pipeline'') None))) = ds ''hasStartTask''"
    using example_session_facts(3,4)
    by (simp_all add: eval_strings namespace_to_use_def task_link_def entity_type_def entity_name_def Task_def)
  ultimately show ?thesis using r sub by simp
qed

text \<open>Claim C1, as stated, fails: on the example session, \<open>add_task\<close> for the task type
  \<open>Filter\<close> with the method type \<open>KMeans\<close>, which the schema does not list for
  \<open>Filter\<close>, ends by \<open>exit(1)\<close> with the message of lines 306-308, and the output graph
  at that point is not the graph before the call.\<close>

theorem add_task_incompatible_method_counterexample:
  "fst incompatible_method_run = Inl (SystemExit (incompatible_method_message ''Filter'' ''KMeans''))
   \<and> output_kg (snd incompatible_method_run) \<noteq> output_kg example_session"
  using incompatible_method_run_eval by simp

text \<open>Claim C6. In a session, let the steps of \<open>add_task\<close> that come before the data
  properties succeed: the task node, its inputs and its outputs are added, the method type
  is found among the compatible methods, and the type of the method has a counter, so that
  its instance is named; and let every declared property IRI have a fragment. If a data
  property declared for the method class (the list the resolver returns, inherited ones
  included) has no value in the properties argument, \<open>add_task\<close> fails with the \<open>KeyError\<close>
  of the required-key access \<open>data_properties[property_name]\<close> for a declared property
  without a value (the MissingPropertyError of the specification), and what the earlier
  steps wrote stays in the output graph. If every declared property has a value,
  \<open>add_task\<close> returns the task, and each declared property is attached to the task node as
  a literal of the supplied value typed by its declared range.\<close>

theorem add_task_data_properties:
  assumes ss: "session_schemas S"
    and task: "instantiate_task S (namespace_to_use S visualization) task_type = (Inr t1, S1)"
    and ins: "add_inputs_to_task Q S1 t1 inputs = (Inr t2, S2)"
    and outs: "add_outputs_to_task Q S2 t2 = (Inr t3, S3)"
    and found: "find_method method_type
                   (get_method_properties_and_methods Q (input_kg S)
                      (namespace_prefix (top_level_schema S))
                      (namespace_to_use S visualization @ task_type)) = Inr (Some chosen)"
    and seeded: "method_type_dict S (type_key method_type) = Some c"
    and declared: "\<forall>pr \<in> set (get_data_properties_plus_inherited_by_class_iri Q (input_kg S)
                               (namespace_to_use S visualization @ method_type)).
                     split_hash_1 (fst pr) \<noteq> None"
  shows "((\<exists>pr \<in> set (get_data_properties_plus_inherited_by_class_iri Q (input_kg S)
                        (namespace_to_use S visualization @ method_type)).
              \<exists>nm. split_hash_1 (fst pr) = Some nm \<and> properties nm = None) \<longrightarrow>
          (\<exists>nm S'. add_task Q S task_type inputs method_type properties visualization
                       = (Inl (KeyError nm), S')
               \<and> properties nm = None
               \<and> (\<exists>pr \<in> set (get_data_properties_plus_inherited_by_class_iri Q (input_kg S)
                                (namespace_to_use S visualization @ method_type)).
                      split_hash_1 (fst pr) = Some nm)
               \<and> set (output_kg S3) \<subseteq> set (output_kg S')))
     \<and> ((\<forall>pr \<in> set (get_data_properties_plus_inherited_by_class_iri Q (input_kg S)
                        (namespace_to_use S visualization @ method_type)).
              \<exists>nm. split_hash_1 (fst pr) = Some nm \<and> properties nm \<noteq> None) \<longrightarrow>
          (\<exists>S'. add_task Q S task_type inputs method_type properties visualization = (Inr t3, S')
               \<and> (\<forall>pr \<in> set (get_data_properties_plus_inherited_by_class_iri Q (input_kg S)
                                (namespace_to_use S visualization @ method_type)).
                      \<exists>nm v. split_hash_1 (fst pr) = Some nm \<and> properties nm = Some v
                        \<and> (iri (task_entity t3), fst pr, Literal v (snd pr)) \<in> set (output_kg S'))))"
proof -
  let ?i = "namespace_to_use S visualization @ method_type"
  let ?pl = "get_data_properties_plus_inherited_by_class_iri Q (input_kg S) ?i"
  let ?run = "add_task Q S task_type inputs method_type properties visualization"
  let ?g = "snd (add_instance_from_parent_with_relation (namespace (bottom_level_schema S3))
                     (output_kg S3) (Entity ?i (Some (atomic_method S3))) (fst chosen) (task_entity t3)
                     (type_key method_type @ str_int c))"
  note A = add_task_to_attach [OF ss task ins outs]
  from A have ss3: "session_schemas S3" and ik: "input_kg S3 = input_kg S"
    and md: "method_type_dict S3 = method_type_dict S"
    by simp_all
  have nm: "split_hash_1 ?i = Some (type_key method_type)"
    by (rule split_hash_1_session_ns [OF namespace_to_use_session [OF ss]])
  from seeded md have c3: "method_type_dict S3 (type_key method_type) = Some c" by simp
  from add_task_at_lookup [OF ss task ins outs, of method_type properties] found
  have run: "?run = attach_method Q S3 t3 (Entity ?i (Some (atomic_method S3))) chosen properties"
    by simp
  have at: "?run =
     (case add_properties ?g t3 properties ?pl of
        (Inl e, g') \<Rightarrow>
          (Inl e, S3\<lparr>method_type_dict := (method_type_dict S3)(type_key method_type \<mapsto> c + 1),
                     output_kg := g'\<rparr>)
      | (Inr u, g') \<Rightarrow>
          (Inr t3, S3\<lparr>method_type_dict := (method_type_dict S3)(type_key method_type \<mapsto> c + 1),
                     output_kg := g', last_created_task := Some t3\<rparr>))"
    unfolding run attach_method_seeded [OF ss3 nm c3] ik by (rule refl)
  obtain r g' where ap: "add_properties ?g t3 properties ?pl = (r, g')"
    by (cases "add_properties ?g t3 properties ?pl")
  have missing: "\<exists>nm S'. ?run = (Inl (KeyError nm), S') \<and> properties nm = None
               \<and> (\<exists>pr \<in> set ?pl. split_hash_1 (fst pr) = Some nm)
               \<and> set (output_kg S3) \<subseteq> set (output_kg S')"
    if m: "\<exists>pr \<in> set ?pl. \<exists>nm. split_hash_1 (fst pr) = Some nm \<and> properties nm = None"
  proof -
    from add_properties_missing [OF m, of ?g t3] ap obtain e where r: "r = Inl e" by auto
    from add_properties_KeyError [OF ap [unfolded r] declared]
    obtain pr nm where pr: "pr \<in> set ?pl" "split_hash_1 (fst pr) = Some nm" "properties nm = None"
      "e = KeyError nm" by blast
    from add_properties_mono [of ?g t3 properties ?pl] ap
    have "set ?g \<subseteq> set g'" by simp
    with method_instance_mono [of "output_kg S3"] have sub: "set (output_kg S3) \<subseteq> set g'"
      by (rule order_trans)
    from at ap r pr(4) have "?run = (Inl (KeyError nm),
        S3\<lparr>method_type_dict := (method_type_dict S3)(type_key method_type \<mapsto> c + 1),
                     output_kg := g'\<rparr>)" by simp
    with pr sub show ?thesis by auto
  qed
  have supplied: "\<exists>S'. ?run = (Inr t3, S')
               \<and> (\<forall>pr \<in> set ?pl. \<exists>nm v. split_hash_1 (fst pr) = Some nm \<and> properties nm = Some v
                        \<and> (iri (task_entity t3), fst pr, Literal v (snd pr)) \<in> set (output_kg S'))"
    if s: "\<forall>pr \<in> set ?pl. \<exists>nm. split_hash_1 (fst pr) = Some nm \<and> properties nm \<noteq> None"
  proof -
    from add_properties_supplied [OF s, of ?g t3] ap have r: "r = Inr ()" by auto
    from add_properties_Inr [OF ap [unfolded r]]
    have a: "\<forall>pr \<in> set ?pl. \<exists>nm v. split_hash_1 (fst pr) = Some nm \<and> properties nm = Some v
         \<and> (iri (task_entity t3), fst pr, Literal v (snd pr)) \<in> set g'" .
    from at ap r have "?run = (Inr t3,
        S3\<lparr>method_type_dict := (method_type_dict S3)(type_key method_type \<mapsto> c + 1),
                     output_kg := g', last_created_task := Some t3\<rparr>)" by simp
    with a show ?thesis by simp
  qed
  from missing supplied show ?thesis by blast
qed

theorem add_task_data_properties_witness:
  "fst missing_property_run = Inl (KeyError ''hasWindowSize'')
   \<and> fst complete_run = Inr (projr (fst example_outputs_state))
   \<and> (stats ''Filter1'', stats ''hasWindowSize'', Literal (PInt 5) XSD_int)
       \<in> set (output_kg (snd complete_run))"
proof -
  have declared: "\<forall>pr \<in> set (get_data_properties_plus_inherited_by_class_iri example_queries
                     (input_kg example_session) (namespace_to_use example_session False @ ''MeanFilter'')).
                     split_hash_1 (fst pr) \<noteq> None"
    unfolding example_property_list by (simp add: eval_strings)
  note T = add_task_data_properties [OF example_session_schemas example_stages example_method_found
      example_session_facts(6) declared, unfolded example_property_list]
  from T [of Map.empty] obtain nm S' where
    m: "missing_property_run = (Inl (KeyError nm), S')"
    and nm: "\<exists>pr \<in> set [(stats ''hasWindowSize'', XSD_int)]. split_hash_1 (fst pr) = Some nm"
    unfolding missing_property_run_def [symmetric] by (auto simp: eval_strings)
  from nm have n: "nm = ''hasWindowSize''" by (simp add: eval_strings)
  have a: "fst missing_property_run = Inl (KeyError ''hasWindowSize'')"
    unfolding m n by (rule fst_conv)
  from T [of "[''hasWindowSize'' \<mapsto> PInt 5]"] obtain S'' where
    c: "complete_run = (Inr (projr (fst example_outputs_state)), S'')"
    and l: "\<forall>pr \<in> set [(stats ''hasWindowSize'', XSD_int)].
          \<exists>nm v. split_hash_1 (fst pr) = Some nm \<and> [''hasWindowSize'' \<mapsto> PInt 5] nm = Some v
             \<and> (iri (task_entity (projr (fst example_outputs_state))), fst pr, Literal v (snd pr))
                 \<in> set (output_kg S'')"
    unfolding complete_run_def [symmetric] by (auto simp: eval_strings)
  from l have "(stats ''Filter1'', stats ''hasWindowSize'', Literal (PInt 5) XSD_int) \<in> set (output_kg S'')"
    unfolding example_outputs_task by (auto simp: eval_strings split: if_splits)
  with a show ?thesis unfolding c fst_conv snd_conv by simp
qed

text \<open>Claim C7. When a persisted pipeline is loaded for execution, the bottom-level
  schema is read off the namespace bindings of its graph: it is the Statistics schema if the
  (prefix, namespace) binding of that schema is present, else the Machine Learning schema if
  its binding is present, else the Visualization schema if its binding is present, and
  otherwise the run ends by \<open>exit(1)\<close> with the message of line 102. So a domain-specific
  schema that is bound is always selected, the Visualization schema is selected exactly when
  it is bound and no domain-specific schema is, and the run fails exactly when none of the
  three is bound, whatever else is: the Data Science schema is never a candidate.\<close>

theorem bottom_level_schema_detection:
  "detect_bottom_level_schema all_ns =
     (if binding_of stats_schema_info \<in> set all_ns then Inr stats_schema_info
      else if binding_of ml_schema_info \<in> set all_ns then Inr ml_schema_info
      else if binding_of visu_schema_info \<in> set all_ns then Inr visu_schema_info
      else Inl (SystemExit ''Input executable KG did not have any bottom level KG schemas''))"
  by (simp add: detect_bottom_level_schema_def search_bottom_level_schema_KG_SCHEMAS)

theorem bottom_level_schema_detection_witness:
  "detect_bottom_level_schema
       [binding_of ds_schema_info, binding_of visu_schema_info, binding_of ml_schema_info]
     = Inr ml_schema_info
   \<and> detect_bottom_level_schema [binding_of ds_schema_info, binding_of visu_schema_info]
     = Inr visu_schema_info
   \<and> detect_bottom_level_schema [binding_of ds_schema_info, (''rdf'', RDF_type)]
     = Inl (SystemExit ''Input executable KG did not have any bottom level KG schemas'')"
  by (simp add: bottom_level_schema_detection binding_of_def ds_schema_info_def
      visu_schema_info_def stats_schema_info_def ml_schema_info_def)

text \<open>Claim C10. When \<open>add_inputs_to_task\<close> succeeds on a task with an empty
  \<open>input_dict\<close> and the binding list of an input slot has more than one data entity (the
  slots of the task having distinct names), then for every element of the list the output
  graph holds the node of its bound copy, that is the copy's \<open>rdf:type\<close> triple to the
  slot class and its \<open>hasReference\<close> triple to that element, and the \<open>hasInput\<close> triple
  that attaches the copy to the task; the task's \<open>input_dict\<close> maps the slot name to the
  bound copy of the last element; and the bound copy of no earlier element is a value of
  \<open>input_dict\<close>.\<close>

theorem add_inputs_to_task_multiple_bindings:
  assumes run: "add_inputs_to_task Q S t bindings = (Inr t', S')"
    and parent: "parent_entity (task_entity t) = Some p"
    and index: "task_type_index_of S t = Inr idx"
    and slot: "(rel, slot_iri) \<in> set (get_input_properties_and_inputs Q (input_kg S)
                   (namespace_prefix (top_level_schema S)) (iri p))"
    and names: "distinct (map (\<lambda>row. split_hash_1 (snd row))
                   (get_input_properties_and_inputs Q (input_kg S)
                      (namespace_prefix (top_level_schema S)) (iri p)))"
    and name: "split_hash_1 slot_iri = Some slot_name"
    and bound: "bindings slot_name = Some es"
    and several: "1 < length es"
    and fresh: "input_dict t = Map.empty"
  shows "(\<forall>j < length es.
            (iri (de_entity (bound_copy S slot_iri idx (1 + int j) (es ! j))), RDF_type, URIRef slot_iri)
              \<in> set (output_kg S')
            \<and> (iri (de_entity (bound_copy S slot_iri idx (1 + int j) (es ! j))),
               namespace (top_level_schema S) @ ''hasReference'', URIRef (iri (de_entity (es ! j))))
              \<in> set (output_kg S')
            \<and> (iri (task_entity t), namespace (top_level_schema S) @ ''hasInput'',
               URIRef (iri (de_entity (bound_copy S slot_iri idx (1 + int j) (es ! j)))))
              \<in> set (output_kg S'))
     \<and> input_dict t' slot_name = Some (bound_copy S slot_iri idx (int (length es)) (last es))
     \<and> (\<forall>j < length es - 1. \<forall>key.
            input_dict t' key \<noteq> Some (bound_copy S slot_iri idx (1 + int j) (es ! j)))"
proof -
  let ?results = "get_input_properties_and_inputs Q (input_kg S)
                   (namespace_prefix (top_level_schema S)) (iri p)"
  from add_inputs_to_task_cases [OF run] parent index
  have loop: "add_inputs_loop S t bindings idx ?results = (Inr t', S')" by auto
  from several have ne: "es \<noteq> []" by auto
  have links: "\<forall>j < length es.
            (iri (task_entity t), namespace (top_level_schema S) @ ''hasInput'',
             URIRef (iri (de_entity (bound_copy S slot_iri idx (1 + int j) (es ! j)))))
            \<in> set (output_kg S')"
    using add_inputs_loop_attached [OF loop slot name bound]
    by (simp add: input_link_def iri_bound_copy)
  have nodes: "\<forall>j < length es.
            (iri (de_entity (bound_copy S slot_iri idx (1 + int j) (es ! j))), RDF_type, URIRef slot_iri)
              \<in> set (output_kg S')
            \<and> (iri (de_entity (bound_copy S slot_iri idx (1 + int j) (es ! j))),
               namespace (top_level_schema S) @ ''hasReference'', URIRef (iri (de_entity (es ! j))))
              \<in> set (output_kg S')"
    using add_inputs_loop_copy_nodes [OF loop slot name bound]
    by (simp add: copy_node_def iri_bound_copy)
  have last_copy: "input_dict t' slot_name = Some (bound_copy S slot_iri idx (int (length es)) (last es))"
    by (rule add_inputs_loop_dict [OF loop names slot name bound ne])
  have absent: "input_dict t' key \<noteq> Some (bound_copy S slot_iri idx (1 + int j) (es ! j))"
    if j: "j < length es - 1" for j key
  proof
    assume a: "input_dict t' key = Some (bound_copy S slot_iri idx (1 + int j) (es ! j))"
    from add_inputs_loop_dict_values [OF loop a] fresh
    obtain row es' where row: "row \<in> set ?results" "split_hash_1 (snd row) = Some key"
      "bindings key = Some es'" "es' \<noteq> []"
      and eq: "bound_copy S slot_iri idx (1 + int j) (es ! j)
               = bound_copy S (snd row) idx (int (length es')) (last es')"
      by auto
    from eq have "iri (de_entity (bound_copy S slot_iri idx (1 + int j) (es ! j)))
               = iri (de_entity (bound_copy S (snd row) idx (int (length es')) (last es')))"
      by simp
    then have "slot_iri @ str_int idx @ ''_'' @ str_int (1 + int j)
         = snd row @ str_int idx @ ''_'' @ str_int (int (length es'))"
      by (simp only: iri_bound_copy)
    from copy_iri_inj [OF _ _ this] have "1 + int j = int (length es')" "slot_iri = snd row" by simp_all
    with row(2,3) name bound have "1 + int j = int (length es)" by simp
    with j show False by simp
  qed
  from links nodes last_copy absent show ?thesis by blast
qed

theorem add_inputs_to_task_multiple_bindings_witness:
  "(stats ''DataInFilter1_1'', RDF_type, URIRef (stats ''DataInFilter''))
      \<in> set (output_kg (snd two_inputs_run))
   \<and> (stats ''DataInFilter1_1'', ds ''hasReference'', URIRef (stats ''de1''))
      \<in> set (output_kg (snd two_inputs_run))
   \<and> (stats ''Filter1'', ds ''hasInput'', URIRef (stats ''DataInFilter1_1''))
      \<in> set (output_kg (snd two_inputs_run))
   \<and> (stats ''DataInFilter1_2'', RDF_type, URIRef (stats ''DataInFilter''))
      \<in> set (output_kg (snd two_inputs_run))
   \<and> (stats ''DataInFilter1_2'', ds ''hasReference'', URIRef (stats ''de2''))
      \<in> set (output_kg (snd two_inputs_run))
   \<and> (stats ''Filter1'', ds ''hasInput'', URIRef (stats ''DataInFilter1_2''))
      \<in> set (output_kg (snd two_inputs_run))
   \<and> map_option (\<lambda>d. iri (de_entity d)) (input_dict (projr (fst two_inputs_run)) ''DataInFilter'')
      = Some (stats ''DataInFilter1_2'')"
proof -
  let ?S = "snd example_task_state" and ?t = "projr (fst example_task_state)"
  note E = two_inputs_run_eval
  from E have run: "add_inputs_to_task example_queries ?S ?t [''DataInFilter'' \<mapsto> [example_data, example_data2]]
      = (Inr (projr (fst two_inputs_run)), snd two_inputs_run)"
    using sum_pair_collapse [of two_inputs_run] by (simp add: two_inputs_run_def)
  from E have parent: "parent_entity (task_entity ?t) = Some (Entity (stats ''Filter'') (Some (Entity (ds ''AtomicTask'') None)))"
    and index: "task_type_index_of ?S ?t = Inr 1" and fresh: "input_dict ?t = Map.empty"
    and results: "get_input_properties_and_inputs example_queries (input_kg ?S)
        (namespace_prefix (top_level_schema ?S)) (iri (Entity (stats ''Filter'') (Some (Entity (ds ''AtomicTask'') None))))
       = [(stats ''hasFilterInput'', stats ''DataInFilter'')]"
    by simp_all
  have slot: "(stats ''hasFilterInput'', stats ''DataInFilter'') \<in> set (get_input_properties_and_inputs example_queries (input_kg ?S)
        (namespace_prefix (top_level_schema ?S)) (iri (Entity (stats ''Filter'') (Some (Entity (ds ''AtomicTask'') None)))))"
    unfolding results by simp
  have names: "distinct (map (\<lambda>row. split_hash_1 (snd row)) (get_input_properties_and_inputs example_queries (input_kg ?S)
        (namespace_prefix (top_level_schema ?S)) (iri (Entity (stats ''Filter'') (Some (Entity (ds ''AtomicTask'') None))))))"
    unfolding results by simp
  have name: "split_hash_1 (stats ''DataInFilter'') = Some ''DataInFilter''"
    by (simp add: eval_strings)
  have bound: "[''DataInFilter'' \<mapsto> [example_data, example_data2]] ''DataInFilter'' = Some [example_data, example_data2]"
    by simp
  have several: "1 < length [example_data, example_data2]" by simp
  note T = add_inputs_to_task_multiple_bindings [OF run parent index slot names name bound several fresh]
  from T have l: "\<forall>j < 2.
            (iri (de_entity (bound_copy ?S (stats ''DataInFilter'') 1 (1 + int j) ([example_data, example_data2] ! j))),
               RDF_type, URIRef (stats ''DataInFilter''))
              \<in> set (output_kg (snd two_inputs_run))
            \<and> (iri (de_entity (bound_copy ?S (stats ''DataInFilter'') 1 (1 + int j) ([example_data, example_data2] ! j))),
               namespace (top_level_schema ?S) @ ''hasReference'',
               URIRef (iri (de_entity ([example_data, example_data2] ! j))))
              \<in> set (output_kg (snd two_inputs_run))
            \<and> (iri (task_entity ?t), namespace (top_level_schema ?S) @ ''hasInput'',
             URIRef (iri (de_entity (bound_copy ?S (stats ''DataInFilter'') 1 (1 + int j) ([example_data, example_data2] ! j)))))
            \<in> set (output_kg (snd two_inputs_run))"
    and d: "input_dict (projr (fst two_inputs_run)) ''DataInFilter''
        = Some (bound_copy ?S (stats ''DataInFilter'') 1 (int (length [example_data, example_data2])) (last [example_data, example_data2]))"
    by simp_all
  have de: "iri (de_entity example_data) = stats ''de1''" "iri (de_entity example_data2) = stats ''de2''"
    by (simp_all add: example_data2_def eval_strings eval_example eval_construction)
  from E have "iri (task_entity ?t) = stats ''Filter1''"
    "namespace (top_level_schema ?S) = namespace ds_schema_info" by simp_all
  with l [rule_format, of 0] l [rule_format, of 1] de show ?thesis unfolding d
    by (simp add: iri_bound_copy eval_strings)
qed

text \<open>Claim C3. During execution the class of a task is looked up under the name
  \<open>task.type + method.type\<close> in the visualization module, then in the statistics module,
  then in the machine-learning module, the first that has it winning
  (\<open>resolve_class_first_match\<close>). When none of the three has it, \<open>Class\<close> is \<open>None\<close> and
  the call \<open>Class(task_iri, Task(task_parent_iri))\<close> raises the \<open>TypeError\<close> of calling
  \<open>None\<close>: the run ends, but by an error that names neither the task nor its IRI, the same
  for every task. The lookups of the parent class and of the method, just above in the same
  function, do print the IRI of the task.\<close>

theorem parse_task_by_iri_unresolvable:
  assumes parent: "query_entity_parent_iri Q (input_kg S) task_iri
                     (namespace (top_level_schema S) @ ''AtomicTask'') = Some task_parent_iri"
    and task_method: "get_method_by_task_iri Q (input_kg S) (namespace_prefix (top_level_schema S))
                     (namespace (top_level_schema S)) task_iri = Some method"
    and task_type: "split_hash_1 task_parent_iri = Some task_type"
    and method_type: "entity_type method = Some method_type"
    and visual: "visual_tasks E (task_type @ method_type) = None"
    and statistic: "statistic_tasks E (task_type @ method_type) = None"
    and learning: "ml_tasks E (task_type @ method_type) = None"
  shows "parse_task_by_iri E Q S n h task_iri canvas = Some (Inl TypeError_NoneType_not_callable)"
  using assms by (simp add: parse_task_by_iri_def resolve_class_def)

theorem parse_task_by_iri_unresolvable_witness:
  "parse_task_by_iri example_runtime example_queries example_filter_executor 2 (\<lambda>i. VNone)
     (stats ''Filter1'') None = Some (Inl TypeError_NoneType_not_callable)
   \<and> execute_pipeline example_runtime example_queries example_filter_executor 2 1
       = Some (Inl TypeError_NoneType_not_callable)"
proof -
  have p: "parse_task_by_iri example_runtime example_queries example_filter_executor 2 h
     (stats ''Filter1'') canvas = Some (Inl TypeError_NoneType_not_callable)" for h canvas
    by (rule parse_task_by_iri_unresolvable
          [of example_queries example_filter_executor "stats ''Filter1''" "stats ''Filter''"
              "Entity (stats ''MeanFilter1'') (Some (Entity (stats ''MeanFilter'') None))"
              "''Filter''" "''MeanFilter''" example_runtime])
       (simp_all add: example_filter_executor_fields example_filter_kg_eval eval_execution eval_strings)
  have "execute_pipeline example_runtime example_queries example_filter_executor 2 1
       = Some (Inl TypeError_NoneType_not_callable)"
    by (simp add: execute_pipeline_def example_filter_executor_fields example_filter_kg_eval
          eval_execution eval_strings p [unfolded parse_task_by_iri_def] initial_exec_state_def)
  with p show ?thesis by simp
qed








end
